(* ===== verification/Prelude.thy ===== *)
theory Prelude
  imports Main "HOL-Library.State_Monad"
begin

text \<open>
  Generic material shared by every component: programs that talk to the outside
  world, the rules that reason about them, and a few facts on lists.

  A handler of the operator is a program of type \<open>('e, 'a) prog\<close>: a state monad
  whose state is the history of the calls made so far, each recorded with the reply
  it got. What the outside world answers is a function of that history, so that a
  statement about a program for all reply functions is a statement about every
  behaviour of the API server, the zrok controller and the agents.
\<close>

named_theorems emits_intros "introduction rules that bound the events of a program"
named_theorems yields_intros "introduction rules for what a program adds to the history"
named_theorems gwp_intros "introduction rules of the guarded weakest preconditions"
named_theorems run_simps "evaluation of programs"

section \<open>Programs\<close>

type_synonym ('e, 'a) prog = "('e list, 'a) state"

abbreviation ret :: "'a \<Rightarrow> ('e, 'a) prog" where
  "ret \<equiv> State_Monad.return"

definition perform :: "('e list \<Rightarrow> 'r) \<Rightarrow> ('r \<Rightarrow> 'e) \<Rightarrow> ('e, 'r) prog" where
  \<comment> \<open>one call to the outside: the reply depends on the history and is recorded\<close>
  "perform reply ev = State (\<lambda>h. (reply h, h @ [ev (reply h)]))"

definition emit :: "'e \<Rightarrow> ('e, unit) prog" where
  \<comment> \<open>a call whose reply nobody looks at\<close>
  "emit e = State (\<lambda>h. ((), h @ [e]))"

definition consult :: "('e list \<Rightarrow> 'r) \<Rightarrow> ('e, 'r) prog" where
  \<comment> \<open>a reading that leaves no trace (the clock, a pure library function)\<close>
  "consult f = State (\<lambda>h. (f h, h))"

definition trace_of :: "('e, 'a) prog \<Rightarrow> 'e list" where
  "trace_of m = snd (run_state m [])"

definition result_of :: "('e, 'a) prog \<Rightarrow> 'a" where
  "result_of m = fst (run_state m [])"

lemma run_perform [simp, run_simps]:
  "run_state (perform reply ev) h = (reply h, h @ [ev (reply h)])"
  by (simp add: perform_def)

lemma run_emit [simp, run_simps]: "run_state (emit e) h = ((), h @ [e])"
  by (simp add: emit_def)

lemma run_consult [simp, run_simps]: "run_state (consult f) h = (f h, h)"
  by (simp add: consult_def)

section \<open>What a program adds to the history\<close>

text \<open>
  \<open>yields E R m\<close>: whatever the outside answers, \<open>m\<close> appends events that satisfy \<open>E\<close>, and
  its result and the appended events are related by \<open>R\<close>. \<open>emits E m\<close> is the case without a
  relation.
\<close>

definition yields ::
  "('e \<Rightarrow> bool) \<Rightarrow> ('a \<Rightarrow> 'e list \<Rightarrow> bool) \<Rightarrow> ('e, 'a) prog \<Rightarrow> bool" where
  "yields E R m \<longleftrightarrow>
     (\<forall>h. \<exists>x es. run_state m h = (x, h @ es) \<and> list_all E es \<and> R x es)"

definition emits :: "('e \<Rightarrow> bool) \<Rightarrow> ('e, 'a) prog \<Rightarrow> bool" where
  "emits E m \<longleftrightarrow> yields E (\<lambda>_ _. True) m"

lemma yieldsE:
  assumes "yields E R m"
  obtains x es where "run_state m h = (x, h @ es)" and "list_all E es" and "R x es"
  using assms unfolding yields_def by blast

lemma yields_return [yields_intros]: "R x [] \<Longrightarrow> yields E R (ret x)"
  by (simp add: yields_def)

lemma yields_perform [yields_intros]:
  "(\<And>r. E (ev r)) \<Longrightarrow> (\<And>r. R r [ev r]) \<Longrightarrow> yields E R (perform reply ev)"
  by (simp add: yields_def)

lemma yields_emit [yields_intros]: "E e \<Longrightarrow> R () [e] \<Longrightarrow> yields E R (emit e)"
  by (simp add: yields_def)

lemma yields_consult [yields_intros]: "(\<And>x. R x []) \<Longrightarrow> yields E R (consult f)"
  by (simp add: yields_def)

lemma yields_bind:
  assumes m: "yields E R m" and f: "\<And>x es. R x es \<Longrightarrow> yields E (\<lambda>y es'. S y (es @ es')) (f x)"
  shows "yields E S (m \<bind> f)"
  unfolding yields_def
proof
  fix h
  obtain x es where 1: "run_state m h = (x, h @ es)" "list_all E es" "R x es"
    using yieldsE [OF m] .
  obtain y es' where "run_state (f x) (h @ es) = (y, (h @ es) @ es')" "list_all E es'" "S y (es @ es')"
    using yieldsE [OF f [OF 1(3)]] .
  then show "\<exists>y es. run_state (m \<bind> f) h = (y, h @ es) \<and> list_all E es \<and> S y es"
    using 1 by (intro exI [of _ y] exI [of _ "es @ es'"]) simp
qed

lemma yields_if [yields_intros]:
  "(c \<Longrightarrow> yields E R a) \<Longrightarrow> (\<not> c \<Longrightarrow> yields E R b) \<Longrightarrow> yields E R (if c then a else b)"
  by simp

lemma yields_case_option [yields_intros]:
  "(x = None \<Longrightarrow> yields E R a) \<Longrightarrow> (\<And>y. x = Some y \<Longrightarrow> yields E R (f y))
    \<Longrightarrow> yields E R (case x of None \<Rightarrow> a | Some y \<Rightarrow> f y)"
  by (cases x) auto

lemma yields_case_sum [yields_intros]:
  "(\<And>e. x = Inl e \<Longrightarrow> yields E R (f e)) \<Longrightarrow> (\<And>y. x = Inr y \<Longrightarrow> yields E R (g y))
    \<Longrightarrow> yields E R (case x of Inl e \<Rightarrow> f e | Inr y \<Rightarrow> g y)"
  by (cases x) auto

lemma yields_case_prod [yields_intros]:
  "(\<And>a b. x = (a, b) \<Longrightarrow> yields E R (f a b)) \<Longrightarrow> yields E R (case x of (a, b) \<Rightarrow> f a b)"
  by (cases x) auto

lemma yields_conseq:
  assumes "yields E R m" and "\<And>e. E e \<Longrightarrow> E' e"
    and "\<And>x es. list_all E es \<Longrightarrow> R x es \<Longrightarrow> R' x es"
  shows "yields E' R' m"
  unfolding yields_def
proof
  fix h
  obtain x es where *: "run_state m h = (x, h @ es)" "list_all E es" "R x es"
    using yieldsE [OF assms(1)] .
  then have "list_all E' es" using assms(2) by (metis list.pred_mono_strong)
  then show "\<exists>x es. run_state m h = (x, h @ es) \<and> list_all E' es \<and> R' x es"
    using * assms(3) by (intro exI [of _ x] exI [of _ es]) simp
qed

lemma emits_return [emits_intros]: "emits P (ret x)"
  and emits_perform [emits_intros]: "(\<And>r. P (ev r)) \<Longrightarrow> emits P (perform reply ev)"
  and emits_emit [emits_intros]: "P e \<Longrightarrow> emits P (emit e)"
  and emits_consult [emits_intros]: "emits P (consult g)"
  unfolding emits_def by (auto intro!: yields_intros)

lemma emits_bind [emits_intros]:
  "emits P m \<Longrightarrow> (\<And>x. emits P (f x)) \<Longrightarrow> emits P (m \<bind> f)"
  unfolding emits_def by (rule yields_bind)

lemmas emits_cases [emits_intros] =
  yields_if [where R = "\<lambda>_ _. True", folded emits_def]
  yields_case_option [where R = "\<lambda>_ _. True", folded emits_def]
  yields_case_sum [where R = "\<lambda>_ _. True", folded emits_def]
  yields_case_prod [where R = "\<lambda>_ _. True", folded emits_def]

lemma emits_yields: "yields E R m \<Longrightarrow> emits E m"
  unfolding emits_def by (erule yields_conseq) auto

lemma emits_mono: "emits P m \<Longrightarrow> (\<And>e. P e \<Longrightarrow> Q e) \<Longrightarrow> emits Q m"
  unfolding emits_def by (erule yields_conseq) auto

lemma emits_trace: "emits P m \<Longrightarrow> list_all P (trace_of m)"
  unfolding emits_def trace_of_def by (erule yieldsE [where h = "[]"]) simp

section \<open>Guarded histories\<close>

text \<open>
  \<open>guarded G h\<close>: every event of \<open>h\<close> was allowed by \<open>G\<close>, given the history before it. This is
  how the properties say which earlier replies justify a call. \<open>gwp G m Q h\<close> is the weakest
  precondition of \<open>m\<close> for \<open>Q\<close> under that obligation.
\<close>

definition guarded :: "('e list \<Rightarrow> 'e \<Rightarrow> bool) \<Rightarrow> 'e list \<Rightarrow> bool" where
  "guarded G h \<longleftrightarrow> list_all (\<lambda>i. G (take i h) (h ! i)) [0..<length h]"

lemma guarded_Nil [simp]: "guarded G []"
  by (simp add: guarded_def)

lemma guarded_snoc [simp]: "guarded G (h @ [e]) \<longleftrightarrow> guarded G h \<and> G h e"
  by (auto simp: guarded_def list_all_iff nth_append)

lemma guarded_append:
  "guarded G h \<Longrightarrow> list_all E es \<Longrightarrow> (\<And>es e. list_all E es \<Longrightarrow> E e \<Longrightarrow> G (h @ es) e)
    \<Longrightarrow> guarded G (h @ es)"
proof (induction es rule: rev_induct)
  case Nil
  then show ?case by simp
next
  case (snoc e es)
  then have "guarded G (h @ es)" and "G (h @ es) e" by auto
  then show ?case using guarded_snoc [of G "h @ es" e] by simp
qed

lemma guarded_mono: "guarded G h \<Longrightarrow> (\<And>h e. G h e \<Longrightarrow> G' h e) \<Longrightarrow> guarded G' h"
  by (auto simp: guarded_def list_all_iff)

lemma guarded_conj: "guarded (\<lambda>h e. G h e \<and> G' h e) h \<longleftrightarrow> guarded G h \<and> guarded G' h"
  by (auto simp: guarded_def list_all_iff)

lemma guarded_split: "guarded G (h @ e # es) \<Longrightarrow> G h e"
  by (auto simp: guarded_def list_all_iff dest!: bspec [of _ _ "length h"])

definition gwp ::
  "('e list \<Rightarrow> 'e \<Rightarrow> bool) \<Rightarrow> ('e, 'a) prog \<Rightarrow> ('a \<Rightarrow> 'e list \<Rightarrow> bool) \<Rightarrow> 'e list \<Rightarrow> bool" where
  "gwp G m Q h \<longleftrightarrow>
     (guarded G h \<longrightarrow> guarded G (snd (run_state m h)) \<and> Q (fst (run_state m h)) (snd (run_state m h)))"

abbreviation any_end :: "'a \<Rightarrow> 'e list \<Rightarrow> bool" where
  "any_end \<equiv> \<lambda>_ _. True"

lemma gwp_return [gwp_intros]: "Q x h \<Longrightarrow> gwp G (ret x) Q h"
  by (simp add: gwp_def)

lemma gwp_perform [gwp_intros]:
  "(\<And>r. G h (ev r)) \<Longrightarrow> (\<And>r. Q r (h @ [ev r])) \<Longrightarrow> gwp G (perform reply ev) Q h"
  by (simp add: gwp_def)

lemma gwp_emit [gwp_intros]: "G h e \<Longrightarrow> Q () (h @ [e]) \<Longrightarrow> gwp G (emit e) Q h"
  by (simp add: gwp_def)

lemma gwp_consult [gwp_intros]: "(\<And>x. Q x h) \<Longrightarrow> gwp G (consult f) Q h"
  by (simp add: gwp_def)

lemma gwp_bind: "gwp G m (\<lambda>x. gwp G (f x) Q) h \<Longrightarrow> gwp G (m \<bind> f) Q h"
  by (cases "run_state m h") (auto simp: gwp_def)

lemma gwp_seq:
  "gwp G m any_end h \<Longrightarrow> (\<And>x h. gwp G (f x) Q h) \<Longrightarrow> gwp G (m \<bind> f) Q h"
  by (cases "run_state m h") (auto simp: gwp_def)

lemma gwp_conseq:
  "gwp G m Q h \<Longrightarrow> (\<And>x h. Q x h \<Longrightarrow> Q' x h) \<Longrightarrow> gwp G m Q' h"
  by (auto simp: gwp_def)

lemma gwp_if [gwp_intros]:
  "(c \<Longrightarrow> gwp G a Q h) \<Longrightarrow> (\<not> c \<Longrightarrow> gwp G b Q h) \<Longrightarrow> gwp G (if c then a else b) Q h"
  by simp

lemma gwp_case_option [gwp_intros]:
  "(x = None \<Longrightarrow> gwp G a Q h) \<Longrightarrow> (\<And>y. x = Some y \<Longrightarrow> gwp G (f y) Q h)
    \<Longrightarrow> gwp G (case x of None \<Rightarrow> a | Some y \<Rightarrow> f y) Q h"
  by (cases x) auto

lemma gwp_case_sum [gwp_intros]:
  "(\<And>e. x = Inl e \<Longrightarrow> gwp G (f e) Q h) \<Longrightarrow> (\<And>y. x = Inr y \<Longrightarrow> gwp G (g y) Q h)
    \<Longrightarrow> gwp G (case x of Inl e \<Rightarrow> f e | Inr y \<Rightarrow> g y) Q h"
  by (cases x) auto

lemma gwp_case_prod [gwp_intros]:
  "(\<And>a b. x = (a, b) \<Longrightarrow> gwp G (f a b) Q h) \<Longrightarrow> gwp G (case x of (a, b) \<Rightarrow> f a b) Q h"
  by (cases x) auto

text \<open>A part of a program that is known by what it yields is stepped over at once.\<close>

lemma gwp_yields:
  assumes "yields E R m"
    and "\<And>es e. list_all E es \<Longrightarrow> E e \<Longrightarrow> G (h @ es) e"
    and "\<And>x es. list_all E es \<Longrightarrow> R x es \<Longrightarrow> Q x (h @ es)"
  shows "gwp G m Q h"
proof -
  obtain x es where "run_state m h = (x, h @ es)" "list_all E es" "R x es"
    using yieldsE [OF assms(1)] .
  then show ?thesis using assms(2,3) guarded_append [of G h E es] by (simp add: gwp_def)
qed

lemma gwp_emits:
  assumes "emits E m" and "\<And>es e. list_all E es \<Longrightarrow> E e \<Longrightarrow> G (h @ es) e"
    and "\<And>x es. list_all E es \<Longrightarrow> Q x (h @ es)"
  shows "gwp G m Q h"
  using assms unfolding emits_def by (rule gwp_yields) auto

lemma gwp_trace: "gwp G m Q [] \<Longrightarrow> guarded G (trace_of m)"
  by (simp add: gwp_def trace_of_def)

lemma gwp_result: "gwp G m Q [] \<Longrightarrow> Q (result_of m) (trace_of m)"
  by (simp add: gwp_def trace_of_def result_of_def)

section \<open>Lists\<close>

lemma find_Some_iff_first:
  "List.find P xs = Some x \<Longrightarrow> x \<in> set xs \<and> P x"
  by (auto simp: find_Some_iff)

lemma find_None_iff_all: "List.find P xs = None \<longleftrightarrow> (\<forall>x \<in> set xs. \<not> P x)"
  by (auto simp: find_None_iff)

end
