(* ===== verification/GoStrings.thy ===== *)
theory GoStrings
  imports Prelude "HOL-Library.Sublist" "HOL-Library.Char_ord" "HOL-Library.List_Lexorder"
begin

text \<open>
  The part of Go's packages \<open>strings\<close>, \<open>sort\<close>, \<open>strconv\<close> and \<open>fmt\<close> that the
  operator uses. A Go string is a sequence of bytes, here a \<open>char list\<close>. Case
  mapping and white space are those of ASCII: on bytes above 127 the functions below
  are the identity, where Go would consult Unicode tables; every identifier the
  operator compares (host names, tokens, Kubernetes names) is ASCII.
\<close>

named_theorems go_strings "the functions of package strings, unfolded"

section \<open>Package strings\<close>

definition lower_char :: "char \<Rightarrow> char" where
  "lower_char c = (if of_char c \<ge> (65::nat) \<and> of_char c \<le> (90::nat)
                   then char_of (of_char c + (32::nat)) else c)"

definition ToLower :: "string \<Rightarrow> string" where
  "ToLower s = map lower_char s"

definition EqualFold :: "string \<Rightarrow> string \<Rightarrow> bool" where
  "EqualFold s t \<longleftrightarrow> ToLower s = ToLower t"

definition is_space :: "char \<Rightarrow> bool" where
  "is_space c \<longleftrightarrow> of_char c \<in> {9, 10, 11, 12, 13, 32::nat}"

definition TrimSpace :: "string \<Rightarrow> string" where
  "TrimSpace s = rev (dropWhile is_space (rev (dropWhile is_space s)))"

definition TrimRightByte :: "string \<Rightarrow> char \<Rightarrow> string" where
  \<comment> \<open>\<open>strings.TrimRight(s, c)\<close> for a cutset of one byte\<close>
  "TrimRightByte s c = rev (dropWhile (\<lambda>x. x = c) (rev s))"

definition HasPrefix :: "string \<Rightarrow> string \<Rightarrow> bool" where
  "HasPrefix s p \<longleftrightarrow> take (length p) s = p"

definition HasSuffix :: "string \<Rightarrow> string \<Rightarrow> bool" where
  "HasSuffix s p \<longleftrightarrow> HasPrefix (rev s) (rev p)"

definition TrimPrefix :: "string \<Rightarrow> string \<Rightarrow> string" where
  "TrimPrefix s p = (if HasPrefix s p then drop (length p) s else s)"

definition CutSuffix :: "string \<Rightarrow> string \<Rightarrow> string option" where
  \<comment> \<open>the part before the suffix, or \<open>None\<close> where Go returns \<open>ok = false\<close>\<close>
  "CutSuffix s p = (if HasSuffix s p then Some (take (length s - length p) s) else None)"

definition TrimSuffix :: "string \<Rightarrow> string \<Rightarrow> string" where
  "TrimSuffix s p = (case CutSuffix s p of Some t \<Rightarrow> t | None \<Rightarrow> s)"

fun Contains :: "string \<Rightarrow> string \<Rightarrow> bool" where
  "Contains [] sub = (sub = [])"
| "Contains (c # s) sub = (HasPrefix (c # s) sub \<or> Contains s sub)"

fun IndexByte :: "string \<Rightarrow> char \<Rightarrow> nat option" where
  \<comment> \<open>\<open>None\<close> where Go returns -1\<close>
  "IndexByte [] c = None"
| "IndexByte (x # s) c = (if x = c then Some 0 else map_option Suc (IndexByte s c))"

definition cut_at :: "string \<Rightarrow> char \<Rightarrow> string" where
  \<comment> \<open>\<open>if i := strings.IndexByte(s, c); i >= 0 { s = s[:i] }\<close>\<close>
  "cut_at s c = (case IndexByte s c of Some i \<Rightarrow> take i s | None \<Rightarrow> s)"

fun SplitByte :: "string \<Rightarrow> char \<Rightarrow> string list" where
  \<comment> \<open>\<open>strings.Split(s, c)\<close>: always at least one piece\<close>
  "SplitByte [] c = [[]]"
| "SplitByte (x # s) c =
     (if x = c then [] # SplitByte s c
      else case SplitByte s c of [] \<Rightarrow> [[x]] | p # ps \<Rightarrow> (x # p) # ps)"

fun Join :: "string list \<Rightarrow> string \<Rightarrow> string" where
  "Join [] sep = []"
| "Join [s] sep = s"
| "Join (s # t # ss) sep = s @ sep @ Join (t # ss) sep"

lemmas go_string_defs [go_strings] =
  ToLower_def EqualFold_def TrimSpace_def TrimRightByte_def HasPrefix_def HasSuffix_def
  TrimPrefix_def CutSuffix_def TrimSuffix_def cut_at_def

section \<open>Package fmt\<close>

fun nat_digits :: "nat \<Rightarrow> string" where
  "nat_digits n = (if n < 10 then [char_of (48 + n)]
                   else nat_digits (n div 10) @ [char_of (48 + n mod 10)])"

declare nat_digits.simps [simp del]

definition fmt_d :: "int \<Rightarrow> string" where
  \<comment> \<open>the verb \<open>%d\<close>\<close>
  "fmt_d i = (if i < 0 then CHR ''-'' # nat_digits (nat (- i)) else nat_digits (nat i))"

definition fmt_t :: "bool \<Rightarrow> string" where
  \<comment> \<open>the verb \<open>%t\<close>\<close>
  "fmt_t b = (if b then ''true'' else ''false'')"

definition hex_digit :: "nat \<Rightarrow> char" where
  "hex_digit n = (if n < 10 then char_of (48 + n) else char_of (87 + n))"

definition quote_char :: "char \<Rightarrow> string" where
  \<comment> \<open>one byte as \<open>strconv.Quote\<close> prints it\<close>
  "quote_char c =
     (let n = (of_char c :: nat); bs = char_of (92::nat) in
      if n = 34 \<or> n = 92 then [bs, c]
      else if n = 7 then [bs, CHR ''a''] else if n = 8 then [bs, CHR ''b'']
      else if n = 9 then [bs, CHR ''t''] else if n = 10 then [bs, CHR ''n'']
      else if n = 11 then [bs, CHR ''v''] else if n = 12 then [bs, CHR ''f'']
      else if n = 13 then [bs, CHR ''r'']
      else if n < 32 \<or> n = 127 then [bs, CHR ''x'', hex_digit (n div 16), hex_digit (n mod 16)]
      else [c])"

definition fmt_q :: "string \<Rightarrow> string" where
  \<comment> \<open>the verb \<open>%q\<close>\<close>
  "fmt_q s = (let dq = char_of (34::nat) in [dq] @ concat (map quote_char s) @ [dq])"

section \<open>Facts\<close>

lemma HasPrefix_iff_prefix: "HasPrefix s p \<longleftrightarrow> prefix p s"
  unfolding HasPrefix_def by (metis append_eq_conv_conj append_take_drop_id prefix_def)

lemma HasPrefix_append [simp]: "HasPrefix (p @ s) p"
  by (simp add: HasPrefix_def)

lemma HasPrefix_Nil [simp]: "HasPrefix s []"
  by (simp add: HasPrefix_def)

lemma HasPrefixE:
  assumes "HasPrefix s p" obtains t where "s = p @ t"
  using assms by (metis HasPrefix_def append_take_drop_id)

lemma HasSuffix_iff_suffix: "HasSuffix s p \<longleftrightarrow> suffix p s"
  by (simp add: HasSuffix_def HasPrefix_iff_prefix suffix_to_prefix)

lemma HasSuffix_append [simp]: "HasSuffix (s @ p) p"
  by (auto simp: HasSuffix_iff_suffix suffix_def)

lemma CutSuffix_Some_iff: "CutSuffix s p = Some t \<longleftrightarrow> s = t @ p"
  by (auto simp: CutSuffix_def HasSuffix_iff_suffix suffix_def)

lemma CutSuffix_append [simp]: "CutSuffix (t @ p) p = Some t"
  by (simp add: CutSuffix_Some_iff)

lemma TrimPrefix_append [simp]: "TrimPrefix (p @ s) p = s"
  by (simp add: TrimPrefix_def)

lemma Contains_iff_sublist: "Contains s sub \<longleftrightarrow> sublist sub s"
proof (induction s)
  case Nil
  then show ?case by simp
next
  case (Cons c s)
  then show ?case by (simp add: HasPrefix_iff_prefix sublist_Cons_right)
qed

lemma Contains_infix [simp]: "Contains (a @ sub @ b) sub"
  by (auto simp: Contains_iff_sublist sublist_def)

lemma Contains_byte: "Contains s [c] \<longleftrightarrow> c \<in> set s"
  by (induction s) (auto simp: HasPrefix_def)

lemma cut_at_eq: "cut_at s c = takeWhile (\<lambda>x. x \<noteq> c) s"
proof (induction s)
  case Nil
  then show ?case by (simp add: cut_at_def)
next
  case (Cons x s)
  then show ?case by (auto simp: cut_at_def split: option.splits)
qed

lemma takeWhile_absent: "c \<notin> set s \<Longrightarrow> takeWhile (\<lambda>x. x \<noteq> c) s = s"
  by (induction s) auto

lemma dropWhile_absent: "c \<notin> set s \<Longrightarrow> dropWhile (\<lambda>x. x \<noteq> c) s = []"
  by (induction s) auto

lemma split_at_first: "c \<in> set s \<Longrightarrow> \<exists>t. s = takeWhile (\<lambda>x. x \<noteq> c) s @ c # t"
  by (induction s) auto

lemma takeWhile_stop: "c \<notin> set s \<Longrightarrow> takeWhile (\<lambda>x. x \<noteq> c) (s @ c # t) = s"
  by (induction s) auto

lemma dropWhile_stop: "c \<notin> set s \<Longrightarrow> dropWhile (\<lambda>x. x \<noteq> c) (s @ c # t) = c # t"
  by (induction s) auto

lemma IndexByte_None_iff: "IndexByte s c = None \<longleftrightarrow> c \<notin> set s"
  by (induction s) auto

lemma lower_char_idem [simp]: "lower_char (lower_char c) = lower_char c"
  by (auto simp: lower_char_def of_char_of)

lemma ToLower_idem [simp]: "ToLower (ToLower s) = ToLower s"
  by (simp add: ToLower_def)

lemma ToLower_append: "ToLower (s @ t) = ToLower s @ ToLower t"
  by (simp add: ToLower_def)

lemma ToLower_Nil_iff [simp]: "ToLower s = [] \<longleftrightarrow> s = []"
  by (simp add: ToLower_def)

lemma Nil_ToLower_iff [simp]: "[] = ToLower s \<longleftrightarrow> s = []"
  by (auto simp: ToLower_def)

lemma length_ToLower [simp]: "length (ToLower s) = length s"
  by (simp add: ToLower_def)

lemma EqualFold_refl [simp]: "EqualFold s s"
  by (simp add: EqualFold_def)

lemma EqualFold_sym: "EqualFold s t \<Longrightarrow> EqualFold t s"
  by (simp add: EqualFold_def)

lemma EqualFold_trans: "EqualFold s t \<Longrightarrow> EqualFold t u \<Longrightarrow> EqualFold s u"
  by (simp add: EqualFold_def)

lemma TrimSpace_ends:
  "TrimSpace s \<noteq> [] \<Longrightarrow> \<not> is_space (hd (TrimSpace s)) \<and> \<not> is_space (last (TrimSpace s))"
proof -
  assume ne: "TrimSpace s \<noteq> []"
  define d where "d = dropWhile is_space s"
  define e where "e = dropWhile is_space (rev d)"
  have t: "TrimSpace s = rev e" by (simp add: TrimSpace_def d_def e_def)
  have e: "e \<noteq> []" using ne t by simp
  have l: "\<not> is_space (hd e)" using e unfolding e_def by (rule hd_dropWhile)
  obtain zs where zs: "rev d = zs @ e" unfolding e_def by (metis takeWhile_dropWhile_id)
  then have d: "d = rev e @ rev zs" by (metis rev_append rev_rev_ident)
  then have "d \<noteq> []" using e by simp
  then have "\<not> is_space (hd d)" unfolding d_def by (rule hd_dropWhile)
  moreover have "hd d = hd (rev e)" using d e by simp
  ultimately show ?thesis using t l e by (simp add: last_rev)
qed

lemma dropWhile_hd_id: "(s = [] \<or> \<not> P (hd s)) \<Longrightarrow> dropWhile P s = s"
  by (cases s) auto

lemma TrimSpace_id:
  "s = [] \<or> (\<not> is_space (hd s) \<and> \<not> is_space (last s)) \<Longrightarrow> TrimSpace s = s"
  unfolding TrimSpace_def by (cases "s = []") (auto simp: dropWhile_hd_id hd_rev)

lemma TrimSpace_idem [simp]: "TrimSpace (TrimSpace s) = TrimSpace s"
  by (rule TrimSpace_id) (use TrimSpace_ends in blast)

lemma TrimRightByte_idem [simp]: "TrimRightByte (TrimRightByte s c) c = TrimRightByte s c"
  by (simp add: TrimRightByte_def)

lemma TrimRightByte_not_suffix: "\<not> (TrimRightByte s c \<noteq> [] \<and> last (TrimRightByte s c) = c)"
  unfolding TrimRightByte_def
  by (metis (mono_tags, lifting) hd_dropWhile last_rev rev_is_Nil_conv)

lemma TrimRightByte_append_same: "TrimRightByte (s @ [c]) c = TrimRightByte s c"
  by (simp add: TrimRightByte_def)

lemma TrimRightByte_id: "s = [] \<or> last s \<noteq> c \<Longrightarrow> TrimRightByte s c = s"
  unfolding TrimRightByte_def by (cases "s = []") (auto simp: dropWhile_hd_id hd_rev)

lemma SplitByte_ne [simp]: "SplitByte s c \<noteq> []"
  by (cases s) (auto split: list.splits)

lemma Join_SplitByte: "Join (SplitByte s c) [c] = s"
proof (induction s)
  case Nil
  then show ?case by simp
next
  case (Cons x s)
  obtain p ps where p: "SplitByte s c = p # ps" using SplitByte_ne by (cases "SplitByte s c") auto
  then show ?case using Cons by (cases ps) auto
qed

lemma SplitByte_no_sep: "p \<in> set (SplitByte s c) \<Longrightarrow> c \<notin> set p"
proof (induction s arbitrary: p)
  case Nil
  then show ?case by simp
next
  case (Cons x s)
  obtain q qs where q: "SplitByte s c = q # qs" using SplitByte_ne by (cases "SplitByte s c") auto
  show ?case using Cons.prems Cons.IH q by (auto split: if_splits)
qed

lemma SplitByte_Join:
  "ss \<noteq> [] \<Longrightarrow> \<forall>s \<in> set ss. c \<notin> set s \<Longrightarrow> SplitByte (Join ss [c]) c = ss"
proof (induction ss rule: induct_list012)
  case 1
  then show ?case by simp
next
  case (2 s)
  have "c \<notin> set s \<Longrightarrow> SplitByte s c = [s]" by (induction s) auto
  then show ?case using 2 by simp
next
  case (3 s t ss)
  have split: "c \<notin> set u \<Longrightarrow> SplitByte (u @ c # r) c = u # SplitByte r c" for u r
    by (induction u) auto
  show ?case using 3 by (simp add: split)
qed

lemma nat_digits_ne [simp]: "nat_digits n \<noteq> []"
  by (subst nat_digits.simps) simp

end
