(* ===== verification/ApiTypes.thy ===== *)
theory ApiTypes
  imports GoStrings
begin

text \<open>
  The data of the operator: the custom resources of \<open>api/v1alpha1\<close>, the Kubernetes
  objects the controllers read and write (the fields they use), the messages of the
  agent's gRPC interface and the errors.

  Go struct embedding is record extension, so that \<open>Name\<close> and \<open>Namespace\<close> apply to
  every object. A nil map is the empty map and a nil slice the empty list, except where
  the code tells them apart (\<open>option\<close> then). Kubernetes treats \<open>metadata.finalizers\<close>
  as a set (its list type), so that is what it is here.
\<close>

section \<open>Errors\<close>

text \<open>
  An error is its message and what the predicates of \<open>apierrors\<close> and \<open>errors.As\<close> can
  find out about it. Wrapping with \<open>%w\<close> keeps the kind and changes the message.
\<close>

datatype err_kind =
    NotFound | AlreadyExists | Conflict
  | EndpointNotAllowedError string string
  | OtherError

datatype go_error = GoError (kind: err_kind) (Error: string)

definition errorf :: "string \<Rightarrow> go_error" where
  "errorf msg = GoError OtherError msg"

definition wrap_error :: "string \<Rightarrow> go_error \<Rightarrow> go_error" where
  \<comment> \<open>\<open>fmt.Errorf("...: %w", err)\<close>\<close>
  "wrap_error msg e = GoError (kind e) (msg @ '': '' @ Error e)"

definition IsNotFound :: "go_error \<Rightarrow> bool" where
  "IsNotFound e \<longleftrightarrow> kind e = NotFound"

definition IsAlreadyExists :: "go_error \<Rightarrow> bool" where
  "IsAlreadyExists e \<longleftrightarrow> kind e = AlreadyExists"

definition IsConflict :: "go_error \<Rightarrow> bool" where
  "IsConflict e \<longleftrightarrow> kind e = Conflict"

definition IsEndpointNotAllowed :: "go_error \<Rightarrow> bool" where
  "IsEndpointNotAllowed e \<longleftrightarrow> (case kind e of EndpointNotAllowedError _ _ \<Rightarrow> True | _ \<Rightarrow> False)"

datatype crash = NilDereference | IndexOutOfRange \<comment> \<open>a Go panic\<close>

section \<open>Constants of \<open>zz_conditions.go\<close>\<close>

abbreviation ConditionReady :: string where "ConditionReady \<equiv> ''Ready''"
abbreviation ConditionEnabled :: string where "ConditionEnabled \<equiv> ''Enabled''"
abbreviation ConditionAgentReady :: string where "ConditionAgentReady \<equiv> ''AgentReady''"
abbreviation ConditionEnvironmentReady :: string where
  "ConditionEnvironmentReady \<equiv> ''EnvironmentReady''"
abbreviation ConditionShareCreated :: string where "ConditionShareCreated \<equiv> ''ShareCreated''"
abbreviation ConditionNameReady :: string where "ConditionNameReady \<equiv> ''NameReady''"

abbreviation EnvironmentFinalizer :: string where
  "EnvironmentFinalizer \<equiv> ''zrok.k8s.zrok.io/environment''"
abbreviation ShareFinalizer :: string where "ShareFinalizer \<equiv> ''zrok.k8s.zrok.io/share''"
abbreviation AccessFinalizer :: string where "AccessFinalizer \<equiv> ''zrok.k8s.zrok.io/access''"

abbreviation DefaultEnableTokenKey :: string where "DefaultEnableTokenKey \<equiv> ''enable-token''"
abbreviation DefaultUniqueIDNamespace :: string where
  "DefaultUniqueIDNamespace \<equiv> ''kube-system''"
abbreviation DefaultNamespaceToken :: string where "DefaultNamespaceToken \<equiv> ''public''"

abbreviation ReclaimDelete :: string where "ReclaimDelete \<equiv> ''Delete''"
abbreviation ReclaimRetain :: string where "ReclaimRetain \<equiv> ''Retain''"
abbreviation ShareModePublic :: string where "ShareModePublic \<equiv> ''public''"
abbreviation ShareModePrivate :: string where "ShareModePrivate \<equiv> ''private''"
abbreviation ReservationEphemeral :: string where "ReservationEphemeral \<equiv> ''ephemeral''"
abbreviation ReservationReserved :: string where "ReservationReserved \<equiv> ''reserved''"
abbreviation ReservationPrivate :: string where "ReservationPrivate \<equiv> ''private''"
abbreviation BackendModeProxy :: string where "BackendModeProxy \<equiv> ''proxy''"
abbreviation BackendModeSocks :: string where "BackendModeSocks \<equiv> ''socks''"

abbreviation ConditionTrue :: string where "ConditionTrue \<equiv> ''True''"
abbreviation ConditionFalse :: string where "ConditionFalse \<equiv> ''False''"

definition DefaultAPIEndpoint :: string where
  "DefaultAPIEndpoint = ''https://api-v2.zrok.io''"

section \<open>Metadata and conditions\<close>

type_synonym time = int
type_synonym key = "string \<times> string" \<comment> \<open>\<open>types.NamespacedName\<close>: namespace, name\<close>

record ObjectMeta =
  Name :: string
  Namespace :: string
  UID :: string
  Generation :: int
  DeletionTimestamp :: "time option"
  Finalizers :: "string set"
  Labels :: "string \<rightharpoonup> string"
  Annotations :: "string \<rightharpoonup> string"
  ControllerRef :: "string option" \<comment> \<open>UID of the controller owner reference\<close>

definition lookup_str :: "(string \<rightharpoonup> string) \<Rightarrow> string \<Rightarrow> string" where
  \<comment> \<open>Go's \<open>m[k]\<close> on a \<open>map[string]string\<close>: empty when absent\<close>
  "lookup_str m k = (case m k of Some v \<Rightarrow> v | None \<Rightarrow> [])"

record Condition =
  cType :: string
  cStatus :: string
  cReason :: string
  cMessage :: string
  cLastTransitionTime :: time
  cObservedGeneration :: int

section \<open>ZrokShare\<close>

record NameSelectionSpec =
  nsNamespace :: string
  nsName :: string

record OAuthSpec =
  oaProvider :: string
  oaEmailDomains :: "string list"
  oaRefreshInterval :: string

record ZrokShareSpec =
  shEnvironmentRef :: string
  shShareMode :: string
  shBackendMode :: string
  shUpstreamURL :: string
  shNameSelection :: "NameSelectionSpec option"
  shPrivateShareToken :: string
  shInsecure :: bool
  shClosed :: bool
  shAccessGrants :: "string list"
  shBasicAuthSecretRef :: "string option"
  shOAuth :: "OAuthSpec option"
  shReclaimPolicy :: string

record ZrokShareStatus =
  shObservedGeneration :: int
  shAssignedURL :: string
  shFrontendEndpoints :: "string list"
  shShareToken :: string
  shReservation :: string
  shConditions :: "Condition list"

record ZrokShare = ObjectMeta +
  ShareSpec :: ZrokShareSpec
  ShareStatus :: ZrokShareStatus

section \<open>ZrokEnvironment\<close>

text \<open>
  A \<open>resource.Quantity\<close> is its value in thousandths (so \<open>50m\<close> is 50); the zero value
  is the unset quantity, which is what \<open>IsZero\<close> asks.
\<close>

type_synonym quantity = int

definition Quantity_IsZero :: "quantity \<Rightarrow> bool" where
  "Quantity_IsZero q \<longleftrightarrow> q = 0"

type_synonym resource_list = "string \<rightharpoonup> quantity"

record ResourceRequirements =
  Requests :: "resource_list option" \<comment> \<open>\<open>None\<close> is the nil map\<close>
  Limits :: "resource_list option"

record AgentPersistence =
  pSize :: quantity
  pStorageClassName :: "string option"

record AgentSpec =
  agImage :: string
  agReplicas :: "int option"
  agConsolePort :: int
  agPersistence :: AgentPersistence
  agResources :: ResourceRequirements

record SecretKeySelector =
  skName :: string
  skKey :: string

record ZrokEnvironmentSpec =
  enApiEndpoint :: string
  enUniqueID :: string
  enEnableTokenSecretRef :: SecretKeySelector
  enAgent :: AgentSpec
  enReclaimPolicy :: string

record ZrokEnvironmentStatus =
  enObservedGeneration :: int
  enEnvZID :: string
  enStatusUniqueID :: string
  enAgentService :: string
  enAgentReady :: bool
  enConditions :: "Condition list"

record ZrokEnvironment = ObjectMeta +
  EnvSpec :: ZrokEnvironmentSpec
  EnvStatus :: ZrokEnvironmentStatus

definition zero_share :: "string \<Rightarrow> string \<Rightarrow> ZrokShare" where
  \<comment> \<open>\<open>&zrokv1alpha1.ZrokShare{ObjectMeta: {Name, Namespace}}\<close>\<close>
  "zero_share namespace name =
     \<lparr>Name = name, Namespace = namespace, UID = [], Generation = 0, DeletionTimestamp = None,
      Finalizers = {}, Labels = Map.empty, Annotations = Map.empty, ControllerRef = None,
      ShareSpec = \<lparr>shEnvironmentRef = [], shShareMode = [], shBackendMode = [], shUpstreamURL = [],
        shNameSelection = None, shPrivateShareToken = [], shInsecure = False, shClosed = False,
        shAccessGrants = [], shBasicAuthSecretRef = None, shOAuth = None, shReclaimPolicy = []\<rparr>,
      ShareStatus = \<lparr>shObservedGeneration = 0, shAssignedURL = [], shFrontendEndpoints = [],
        shShareToken = [], shReservation = [], shConditions = []\<rparr>\<rparr>"

definition zero_env :: ZrokEnvironment where
  \<comment> \<open>\<open>&zrokv1alpha1.ZrokEnvironment{}\<close>\<close>
  "zero_env =
     \<lparr>Name = [], Namespace = [], UID = [], Generation = 0, DeletionTimestamp = None, Finalizers = {},
      Labels = Map.empty, Annotations = Map.empty, ControllerRef = None,
      EnvSpec = \<lparr>enApiEndpoint = [], enUniqueID = [],
        enEnableTokenSecretRef = \<lparr>skName = [], skKey = []\<rparr>,
        enAgent = \<lparr>agImage = [], agReplicas = None, agConsolePort = 0,
          agPersistence = \<lparr>pSize = 0, pStorageClassName = None\<rparr>,
          agResources = \<lparr>Requests = None, Limits = None\<rparr>\<rparr>,
        enReclaimPolicy = []\<rparr>,
      EnvStatus = \<lparr>enObservedGeneration = 0, enEnvZID = [], enStatusUniqueID = [],
        enAgentService = [], enAgentReady = False, enConditions = []\<rparr>\<rparr>"

section \<open>ZrokAccess\<close>

record ZrokAccessSpec =
  acEnvironmentRef :: string
  acShareToken :: string
  acBindAddress :: string

record ZrokAccessStatus =
  acObservedGeneration :: int
  acFrontendEndpoint :: string
  acAccessToken :: string
  acConditions :: "Condition list"

record ZrokAccess = ObjectMeta +
  AccessSpec :: ZrokAccessSpec
  AccessStatus :: ZrokAccessStatus

section \<open>Other Kubernetes objects\<close>

record Secret = ObjectMeta +
  Data :: "string \<rightharpoonup> string"

record IngressServiceBackend =
  svcName :: string
  svcPortNumber :: int

record HTTPIngressPath =
  BackendService :: "IngressServiceBackend option"

record IngressRule =
  ruleHost :: string
  ruleHTTP :: "HTTPIngressPath list option" \<comment> \<open>\<open>rule.HTTP\<close> is a pointer: \<open>None\<close> is nil\<close>

record Ingress = ObjectMeta +
  ingIngressClassName :: "string option"
  ingRules :: "IngressRule list"
  ingLoadBalancer :: "string list" \<comment> \<open>the hostnames of \<open>status.loadBalancer.ingress\<close>\<close>

section \<open>Messages of the agent and the zrok controller\<close>

record ShareDetail =
  sdToken :: string
  sdShareMode :: string
  sdBackendMode :: string
  sdFrontendEndpoint :: "string list"
  sdBackendEndpoint :: string
  sdStatus :: string
  sdClosed :: bool

record AccessDetail =
  adFrontendToken :: string
  adToken :: string
  adBindAddress :: string
  adStatus :: string

text \<open>
  The elements of the reply's slices are pointers and may be nil. A nil reply behaves as
  the empty one, since the generated getters return zero values on nil receivers.
\<close>

record StatusResponse =
  stShares :: "ShareDetail option list"
  stAccesses :: "AccessDetail option list"

record NameSelection =
  nselNamespaceToken :: string
  nselName :: string

record SharePublicRequest =
  spubTarget :: string
  spubBackendMode :: string
  spubBasicAuth :: "string list"
  spubInsecure :: bool
  spubClosed :: bool
  spubAccessGrants :: "string list"
  spubNameSelections :: "NameSelection list"
  spubOauthProvider :: string
  spubOauthEmailDomains :: "string list"
  spubOauthRefreshInterval :: string

record SharePublicResponse =
  sprToken :: string
  sprFrontendEndpoints :: "string list"

record SharePrivateRequest =
  sprivTarget :: string
  sprivBackendMode :: string
  sprivPrivateShareToken :: string
  sprivClosed :: bool
  sprivAccessGrants :: "string list"

text \<open>\<open>zrokclient.RemoteShare\<close>, a share as the controller's inventory lists it.\<close>

record RemoteShare =
  rsToken :: string
  rsTarget :: string
  rsShareMode :: string
  rsBackendMode :: string
  rsFrontendEndpoints :: "string list"

text \<open>\<open>ctrl.Result\<close>: the delay before the next reconcile, in seconds; 0 is the zero value.\<close>

record Result =
  RequeueAfter :: nat

abbreviation no_requeue :: Result where "no_requeue \<equiv> \<lparr>RequeueAfter = 0\<rparr>"
abbreviation requeue_after :: "nat \<Rightarrow> Result" where "requeue_after n \<equiv> \<lparr>RequeueAfter = n\<rparr>"

definition Result_IsZero :: "Result \<Rightarrow> bool" where
  "Result_IsZero r \<longleftrightarrow> r = no_requeue"

text \<open>What a reconciler returns: a result and an error, \<open>None\<close> for nil.\<close>

type_synonym outcome = "Result \<times> go_error option"

end
