(* ===== verification/AgentResources.thy ===== *)
theory AgentResources
  imports ApiTypes
begin

text \<open>
  \<open>internal/agent\<close>: the names, labels and desired Kubernetes objects of an environment's
  agent (\<open>resources.go\<close>, \<open>networkpolicy.go\<close>), and the image allowlist (\<open>image.go\<close>).
  The Kubernetes structs carry the fields the package sets.
\<close>

section \<open>The Kubernetes objects\<close>

type_synonym labels = "string \<rightharpoonup> string"

record ServicePort =
  spName :: string
  spPort :: int
  spTargetPort :: int
  spProtocol :: string

record ServiceSpec =
  ssType :: string
  ssSelector :: labels
  ssPorts :: "ServicePort list"
  ssExternalName :: string

record Service = ObjectMeta +
  SvcSpec :: ServiceSpec

record PersistentVolumeClaim = ObjectMeta +
  pvcAccessModes :: "string list"
  pvcRequests :: resource_list
  pvcStorageClassName :: "string option"

record SecurityContext =
  scRunAsUser :: "int option"
  scRunAsGroup :: "int option"
  scRunAsNonRoot :: "bool option"
  scAllowPrivilegeEscalation :: "bool option"
  scCapabilitiesDrop :: "string list"
  scReadOnlyRootFilesystem :: "bool option"

record PodSecurityContext =
  pscRunAsUser :: "int option"
  pscRunAsGroup :: "int option"
  pscFSGroup :: "int option"
  pscRunAsNonRoot :: "bool option"
  pscSeccompProfile :: string

record VolumeMount =
  vmName :: string
  vmMountPath :: string
  vmReadOnly :: bool

record EnvVar =
  evName :: string
  evValue :: string

record ContainerPort =
  cpName :: string
  cpContainerPort :: int
  cpProtocol :: string

record Probe =
  prTCPSocketPort :: int
  prInitialDelaySeconds :: int
  prPeriodSeconds :: int

record Container =
  cnName :: string
  cnImage :: string
  cnImagePullPolicy :: string
  cnCommand :: "string list"
  cnEnv :: "EnvVar list"
  cnPorts :: "ContainerPort list"
  cnResources :: ResourceRequirements
  cnSecurityContext :: SecurityContext
  cnVolumeMounts :: "VolumeMount list"
  cnReadinessProbe :: "Probe option"
  cnLivenessProbe :: "Probe option"

datatype VolumeSource = PVCVolume string | SecretVolume string

record Volume =
  volName :: string
  volSource :: VolumeSource

record PodSpec =
  podAutomountServiceAccountToken :: "bool option"
  podSecurityContext :: PodSecurityContext
  podInitContainers :: "Container list"
  podContainers :: "Container list"
  podVolumes :: "Volume list"

record DeploymentSpec =
  depReplicas :: "int option"
  depSelector :: labels
  depStrategy :: string
  depTemplateLabels :: labels
  depPodSpec :: PodSpec
  depOther :: string \<comment> \<open>the fields the operator leaves unset, empty when they are\<close>

record Deployment = ObjectMeta +
  DepSpec :: DeploymentSpec
  depReadyReplicas :: int
  depUpdatedReplicas :: int

record NetworkPolicyPeer =
  nppNamespaceSelector :: labels
  nppPodSelector :: labels

record NetworkPolicyIngressRule =
  npiPorts :: "(string \<times> int) list" \<comment> \<open>protocol and port\<close>
  npiFrom :: "NetworkPolicyPeer list"

record NetworkPolicySpec =
  npPodSelector :: labels
  npPolicyTypes :: "string list"
  npIngress :: "NetworkPolicyIngressRule list"
  npOther :: string \<comment> \<open>the fields the operator leaves unset, empty when they are\<close>

record NetworkPolicy = ObjectMeta +
  NPSpec :: NetworkPolicySpec

section \<open>Constants\<close>

abbreviation DefaultImage :: string where
  "DefaultImage \<equiv> ''docker.io/openziti/zrok2:2.0.4''"
abbreviation DefaultSocatImage :: string where
  "DefaultSocatImage \<equiv> ''docker.io/alpine/socat:1.8.1.3''"
abbreviation ZrokUID :: int where "ZrokUID \<equiv> 2171"
abbreviation AppName :: string where "AppName \<equiv> ''zrok-agent''"
abbreviation seedVolumeName :: string where "seedVolumeName \<equiv> ''zrok-seed''"
abbreviation DefaultGRPCPort :: int where "DefaultGRPCPort \<equiv> 7777"
abbreviation homeMountPath :: string where "homeMountPath \<equiv> ''/mnt''"
abbreviation agentSocket :: string where "agentSocket \<equiv> ''/mnt/.zrok2/agent.socket''"

abbreviation LabelEnvironment :: string where
  "LabelEnvironment \<equiv> ''zrok.k8s.zrok.io/environment''"
abbreviation LabelShareMode :: string where "LabelShareMode \<equiv> ''zrok.k8s.zrok.io/share-mode''"
abbreviation LabelFrontendName :: string where
  "LabelFrontendName \<equiv> ''zrok.k8s.zrok.io/frontend-name''"
abbreviation LabelK8sName :: string where "LabelK8sName \<equiv> ''app.kubernetes.io/name''"
abbreviation LabelK8sInstance :: string where
  "LabelK8sInstance \<equiv> ''app.kubernetes.io/instance''"
abbreviation LabelK8sComponent :: string where
  "LabelK8sComponent \<equiv> ''app.kubernetes.io/component''"
abbreviation LabelK8sManagedBy :: string where
  "LabelK8sManagedBy \<equiv> ''app.kubernetes.io/managed-by''"
abbreviation ManagerAppNameLabel :: string where "ManagerAppNameLabel \<equiv> ''zrok-operator''"
abbreviation NamespaceNameLabel :: string where
  "NamespaceNameLabel \<equiv> ''kubernetes.io/metadata.name''"

abbreviation ServiceTypeClusterIP :: string where "ServiceTypeClusterIP \<equiv> ''ClusterIP''"
abbreviation ProtocolTCP :: string where "ProtocolTCP \<equiv> ''TCP''"

section \<open>Names and labels\<close>

definition IdentitySecretName :: "ZrokEnvironment \<Rightarrow> string" where
  "IdentitySecretName env = Name env @ ''-zrok-identity''"

definition environmentIdentity :: "ZrokEnvironment \<Rightarrow> string \<Rightarrow> string" where
  "environmentIdentity env uniqueID =
     (let i = enUniqueID (EnvSpec env); i = (if i = [] then uniqueID else i)
      in i @ ''/zrok-operator/'' @ Namespace env @ ''/'' @ Name env)"

definition EnvironmentDescription :: "ZrokEnvironment \<Rightarrow> string \<Rightarrow> string" where
  "EnvironmentDescription env uniqueID = environmentIdentity env uniqueID"

definition EnvironmentHost :: "ZrokEnvironment \<Rightarrow> string \<Rightarrow> string" where
  "EnvironmentHost env uniqueID = environmentIdentity env uniqueID"

definition ShareLabels :: "ZrokShare \<Rightarrow> labels" where
  "ShareLabels share =
     (let mode = shShareMode (ShareSpec share);
          mode = (if mode = [] then ShareModePublic else mode);
          ls = [LabelK8sName \<mapsto> ''zrok-share'',
                LabelK8sInstance \<mapsto> Name share,
                LabelK8sManagedBy \<mapsto> ''zrok-operator'',
                LabelEnvironment \<mapsto> shEnvironmentRef (ShareSpec share),
                LabelShareMode \<mapsto> mode]
      in case shNameSelection (ShareSpec share) of
           Some ns \<Rightarrow> if nsName ns \<noteq> [] then ls(LabelFrontendName \<mapsto> nsName ns) else ls
         | None \<Rightarrow> ls)"

definition ManagedFrontendName :: "ZrokShare \<Rightarrow> string" where
  "ManagedFrontendName share = ''ko-'' @ Namespace share @ ''-'' @ Name share"

definition agent_Labels :: "ZrokEnvironment \<Rightarrow> labels" where
  "agent_Labels env =
     [LabelK8sName \<mapsto> AppName,
      LabelK8sInstance \<mapsto> Name env,
      LabelK8sComponent \<mapsto> ''agent'',
      LabelK8sManagedBy \<mapsto> ''zrok-operator'',
      LabelEnvironment \<mapsto> Name env]"

definition PVCName :: "ZrokEnvironment \<Rightarrow> string" where
  "PVCName env = Name env @ ''-zrok-home''"

definition DeploymentName :: "ZrokEnvironment \<Rightarrow> string" where
  "DeploymentName env = Name env @ ''-agent''"

definition ServiceName :: "ZrokEnvironment \<Rightarrow> string" where
  "ServiceName env = Name env @ ''-agent''"

definition NetworkPolicyName :: "ZrokEnvironment \<Rightarrow> string" where
  "NetworkPolicyName env = ServiceName env"

definition ConsolePort :: "ZrokEnvironment \<Rightarrow> int" where
  "ConsolePort env = (let p = agConsolePort (enAgent (EnvSpec env)) in if p > 0 then p else 8888)"

definition GRPCPort :: "ZrokEnvironment \<Rightarrow> int" where
  "GRPCPort env = DefaultGRPCPort"

definition AgentDialAddr :: "ZrokEnvironment \<Rightarrow> string" where
  "AgentDialAddr env =
     ServiceName env @ ''.'' @ Namespace env @ ''.svc:'' @ fmt_d (GRPCPort env)"

definition AgentBaseURL :: "ZrokEnvironment \<Rightarrow> string" where
  "AgentBaseURL env = AgentDialAddr env"

definition agent_Image :: "ZrokEnvironment \<Rightarrow> string" where
  "agent_Image env = (let i = agImage (enAgent (EnvSpec env)) in if i \<noteq> [] then i else DefaultImage)"

section \<open>The image allowlist\<close>

definition ImageAllowed :: "string \<Rightarrow> string list \<Rightarrow> bool" where
  "ImageAllowed img extra =
     (if img = [] \<or> img = DefaultImage then True
      else list_ex (\<lambda>e. TrimSpace e = img) extra)"

definition ValidateImage :: "string \<Rightarrow> string list \<Rightarrow> go_error option" where
  "ValidateImage img extra =
     (if ImageAllowed img extra then None
      else Some (errorf (''agent image '' @ fmt_q img @ '' is not allowlisted'')))"

section \<open>Desired objects\<close>

definition new_meta :: "string \<Rightarrow> string \<Rightarrow> labels \<Rightarrow> ObjectMeta" where
  \<comment> \<open>an \<open>ObjectMeta\<close> literal with a name, a namespace and labels\<close>
  "new_meta n ns ls =
     \<lparr>Name = n, Namespace = ns, UID = [], Generation = 0, DeletionTimestamp = None,
      Finalizers = {}, Labels = ls, Annotations = Map.empty, ControllerRef = None\<rparr>"

definition DesiredPVC :: "ZrokEnvironment \<Rightarrow> PersistentVolumeClaim" where
  "DesiredPVC env =
     (let persistence = agPersistence (enAgent (EnvSpec env));
          size = (if \<not> Quantity_IsZero (pSize persistence) then pSize persistence
                  else 1073741824000)
      in ObjectMeta.extend (new_meta (PVCName env) (Namespace env) (agent_Labels env))
           (PersistentVolumeClaim.fields [''ReadWriteOnce''] [''storage'' \<mapsto> size]
              (pStorageClassName persistence)))"

definition DesiredService :: "ZrokEnvironment \<Rightarrow> Service" where
  "DesiredService env =
     (let grpcPort = GRPCPort env in
      ObjectMeta.extend (new_meta (ServiceName env) (Namespace env) (agent_Labels env))
        (Service.fields
          \<lparr>ssType = ServiceTypeClusterIP,
           ssSelector = agent_Labels env,
           ssPorts = [\<lparr>spName = ''grpc'', spPort = grpcPort, spTargetPort = grpcPort,
                       spProtocol = ProtocolTCP\<rparr>],
           ssExternalName = []\<rparr>))"

definition agent_secCtx :: SecurityContext where
  "agent_secCtx =
     \<lparr>scRunAsUser = Some ZrokUID, scRunAsGroup = Some ZrokUID, scRunAsNonRoot = Some True,
      scAllowPrivilegeEscalation = Some False, scCapabilitiesDrop = [''ALL''],
      scReadOnlyRootFilesystem = Some False\<rparr>"

definition agent_podSec :: PodSecurityContext where
  "agent_podSec =
     \<lparr>pscRunAsUser = Some ZrokUID, pscRunAsGroup = Some ZrokUID, pscFSGroup = Some ZrokUID,
      pscRunAsNonRoot = Some True, pscSeccompProfile = ''RuntimeDefault''\<rparr>"

definition agent_resources :: "ZrokEnvironment \<Rightarrow> ResourceRequirements" where
  "agent_resources env =
     (let r = agResources (enAgent (EnvSpec env));
          r = (if Requests r = None
               then r\<lparr>Requests := Some [''cpu'' \<mapsto> 50, ''memory'' \<mapsto> 134217728000]\<rparr> else r)
      in if Limits r = None
         then r\<lparr>Limits := Some [''cpu'' \<mapsto> 500, ''memory'' \<mapsto> 536870912000]\<rparr> else r)"

definition dq :: string where "dq = [char_of (34::nat)]"
definition newline :: string where "newline = [char_of (10::nat)]"

definition seed_script :: string where
  "seed_script = Join
    [''set -euo pipefail'',
     ''mkdir -p /mnt/.zrok2/identities'',
     ''# Seed once for environment.json; always repair missing identity file.'',
     ''if [[ ! -s /mnt/.zrok2/environment.json ]]; then'',
     ''  cp /seed/metadata.json /mnt/.zrok2/metadata.json'',
     ''  cp /seed/config.json /mnt/.zrok2/config.json'',
     ''  cp /seed/environment.json /mnt/.zrok2/environment.json'',
     ''  chmod 600 /mnt/.zrok2/environment.json'',
     ''  echo '' @ dq @ ''INFO: seeded environment.json from Secret'' @ dq,
     ''fi'',
     ''# zrok expects identities/environment.json (EnvironmentIdentityName + .json)'',
     ''if [[ ! -s /mnt/.zrok2/identities/environment.json ]]; then'',
     ''  cp /seed/identity /mnt/.zrok2/identities/environment.json'',
     ''  chmod 600 /mnt/.zrok2/identities/environment.json'',
     ''  rm -f /mnt/.zrok2/identities/environment'',
     ''  echo '' @ dq @ ''INFO: seeded identities/environment.json from Secret'' @ dq,
     ''fi''] newline"

definition agent_start_script :: string where
  "agent_start_script =
     ''rm -f /mnt/.zrok2/agent.socket /mnt/.zrok2/agent-registry.json && '' @
     ''exec zrok2 agent start --console-address 127.0.0.1 --console-start-port '' @
     dq @ ''$PORT'' @ dq @ '' --console-end-port '' @ dq @ ''$PORT'' @ dq"

definition socat_script :: "int \<Rightarrow> string" where
  "socat_script grpcPort =
     ''while [ ! -S '' @ agentSocket @ '' ]; do sleep 1; done; exec socat TCP-LISTEN:'' @
     fmt_d grpcPort @ '',fork,reuseaddr,bind=0.0.0.0 UNIX-CONNECT:'' @ agentSocket"

definition seed_container :: "string \<Rightarrow> Container" where
  "seed_container img =
     \<lparr>cnName = seedVolumeName, cnImage = img, cnImagePullPolicy = ''IfNotPresent'',
      cnCommand = [''bash'', ''-c'', seed_script], cnEnv = [], cnPorts = [],
      cnResources = \<lparr>Requests = None, Limits = None\<rparr>, cnSecurityContext = agent_secCtx,
      cnVolumeMounts = [\<lparr>vmName = ''zrok-home'', vmMountPath = homeMountPath, vmReadOnly = False\<rparr>,
                        \<lparr>vmName = seedVolumeName, vmMountPath = ''/seed'', vmReadOnly = True\<rparr>],
      cnReadinessProbe = None, cnLivenessProbe = None\<rparr>"

definition agent_container :: "ZrokEnvironment \<Rightarrow> Container" where
  "agent_container env =
     (let port = ConsolePort env in
      \<lparr>cnName = AppName, cnImage = agent_Image env, cnImagePullPolicy = ''IfNotPresent'',
       cnCommand = [''bash'', ''-c'', agent_start_script],
       cnEnv = [\<lparr>evName = ''HOME'', evValue = homeMountPath\<rparr>, \<lparr>evName = ''PORT'', evValue = fmt_d port\<rparr>],
       cnPorts = [\<lparr>cpName = ''console'', cpContainerPort = port, cpProtocol = ProtocolTCP\<rparr>],
       cnResources = agent_resources env, cnSecurityContext = agent_secCtx,
       cnVolumeMounts = [\<lparr>vmName = ''zrok-home'', vmMountPath = homeMountPath, vmReadOnly = False\<rparr>],
       cnReadinessProbe = None, cnLivenessProbe = None\<rparr>)"

definition proxy_container :: "ZrokEnvironment \<Rightarrow> Container" where
  "proxy_container env =
     (let grpcPort = GRPCPort env in
      \<lparr>cnName = ''grpc-proxy'', cnImage = DefaultSocatImage, cnImagePullPolicy = ''IfNotPresent'',
       cnCommand = [''sh'', ''-c'', socat_script grpcPort], cnEnv = [],
       cnPorts = [\<lparr>cpName = ''grpc'', cpContainerPort = grpcPort, cpProtocol = ProtocolTCP\<rparr>],
       cnResources = \<lparr>Requests = Some [''cpu'' \<mapsto> 10, ''memory'' \<mapsto> 16777216000],
                      Limits = Some [''cpu'' \<mapsto> 100, ''memory'' \<mapsto> 67108864000]\<rparr>,
       cnSecurityContext = agent_secCtx,
       cnVolumeMounts = [\<lparr>vmName = ''zrok-home'', vmMountPath = homeMountPath, vmReadOnly = False\<rparr>],
       cnReadinessProbe = Some \<lparr>prTCPSocketPort = grpcPort, prInitialDelaySeconds = 5, prPeriodSeconds = 10\<rparr>,
       cnLivenessProbe = Some \<lparr>prTCPSocketPort = grpcPort, prInitialDelaySeconds = 15, prPeriodSeconds = 20\<rparr>\<rparr>)"

definition DesiredDeployment :: "ZrokEnvironment \<Rightarrow> Deployment" where
  "DesiredDeployment env =
     (let replicas = (case agReplicas (enAgent (EnvSpec env)) of Some n \<Rightarrow> n | None \<Rightarrow> 1);
          labels = agent_Labels env
      in ObjectMeta.extend (new_meta (DeploymentName env) (Namespace env) labels)
           (Deployment.fields
             \<lparr>depReplicas = Some replicas, depSelector = labels, depStrategy = ''Recreate'',
              depTemplateLabels = labels,
              depPodSpec =
                \<lparr>podAutomountServiceAccountToken = Some False,
                 podSecurityContext = agent_podSec,
                 podInitContainers = [seed_container (agent_Image env)],
                 podContainers = [agent_container env, proxy_container env],
                 podVolumes = [\<lparr>volName = ''zrok-home'', volSource = PVCVolume (PVCName env)\<rparr>,
                               \<lparr>volName = seedVolumeName, volSource = SecretVolume (IdentitySecretName env)\<rparr>]\<rparr>,
              depOther = []\<rparr>
             0 0))"

definition DesiredNetworkPolicy :: "ZrokEnvironment \<Rightarrow> string \<Rightarrow> string \<Rightarrow> NetworkPolicy" where
  "DesiredNetworkPolicy env managerNamespace managerAppName0 =
     (let managerAppName = (if managerAppName0 = [] then ManagerAppNameLabel else managerAppName0);
          grpc = GRPCPort env
      in ObjectMeta.extend (new_meta (NetworkPolicyName env) (Namespace env) (agent_Labels env))
           (NetworkPolicy.fields
             \<lparr>npPodSelector = agent_Labels env, npPolicyTypes = [''Ingress''],
              npIngress =
                [\<lparr>npiPorts = [(ProtocolTCP, grpc)],
                  npiFrom = [\<lparr>nppNamespaceSelector = [NamespaceNameLabel \<mapsto> managerNamespace],
                              nppPodSelector = [LabelK8sName \<mapsto> managerAppName]\<rparr>]\<rparr>],
              npOther = []\<rparr>))"

end
