(* ===== verification/World.thy ===== *)
theory World
  imports AgentResources
begin

text \<open>
  Everything the operator calls and does not contain: the Kubernetes API server (through the
  controller-runtime client), the zrok controller's REST API and the agents' gRPC interface
  (through the interfaces of \<open>internal/zrokclient/client.go\<close>), the event recorder, the
  Prometheus collectors and the clock.

  Each call is an \<open>event\<close> that records its arguments and its reply; \<open>api\<close> holds one reply
  function per call, arbitrary and dependent on everything called before. \<open>PatchStatus\<close> of
  \<open>internal/status/patch.go\<close> is modelled on top. What is relied on of controller-runtime: a
  \<open>Get\<close> that fails leaves its object alone; a \<open>Create\<close>, \<open>Update\<close> or \<open>Patch\<close> that succeeds
  replaces the object by the server's reply, and one that fails leaves it as it was sent.
\<close>

section \<open>Objects and events\<close>

datatype okind =
    KShare | KEnv | KAccess | KIngress | KSecret | KPVC | KService | KDeployment
  | KNetworkPolicy | KNamespace

datatype object =
    ShareObj ZrokShare
  | EnvObj ZrokEnvironment
  | AccessObj ZrokAccess
  | IngressObj Ingress
  | SecretObj Secret
  | PVCObj PersistentVolumeClaim
  | ServiceObj Service
  | DeploymentObj Deployment
  | NetworkPolicyObj NetworkPolicy
  | NamespaceObj ObjectMeta

datatype selector =
    AllNamespaces
  | InNamespace string
  | InNamespaceForEnv string string \<comment> \<open>namespace, \<open>.spec.environmentRef.name\<close>\<close>

datatype event =
  \<comment> \<open>the Kubernetes client\<close>
    Get okind key "go_error + object"
  | ListZrokShares selector "go_error + ZrokShare list"
  | ListZrokAccesses selector "go_error + ZrokAccess list"
  | Create object "go_error + object"
  | Update object "go_error + object"
  | Patch object object "go_error + object"
  | StatusPatch object object "go_error + object"
  | Delete okind key "go_error option"
  \<comment> \<open>the zrok controller\<close>
  | RestEnable string string string string "go_error + string \<times> string"
  | RestDisable string string string "go_error option"
  | RestCreateShareName string string string string "go_error option"
  | RestUpdateShareName string string string string bool "go_error option"
  | RestDeleteShareName string string string string "go_error option"
  | RestUnshare string string string string "go_error option"
  | RestListShares string string string "go_error + RemoteShare list option"
  \<comment> \<open>an agent\<close>
  | AgentStatus string "go_error + StatusResponse option"
  | AgentSharePublic string SharePublicRequest "go_error + SharePublicResponse"
  | AgentSharePrivate string SharePrivateRequest "go_error + string"
  | AgentReleaseShare string string "go_error option"
  | AgentAccessPrivate string string string "go_error + string"
  | AgentReleaseAccess string string "go_error option"
  \<comment> \<open>the recorder: object, type, reason, action and note\<close>
  | Recorded okind key string string string string
  \<comment> \<open>\<open>internal/metrics\<close>\<close>
  | SetShareReady string string bool
  | DeleteShareReady string string
  | SetEnvironmentReady string string bool
  | DeleteEnvironmentReady string string
  | ShareReconcileErrors_Inc
  | EnvironmentReconcileErrors_Inc
  | AccessReconcileErrors_Inc

section \<open>The outside world\<close>

text \<open>The typed client of one kind of object.\<close>

record 'o client =
  cGet :: "event list \<Rightarrow> key \<Rightarrow> go_error + 'o"
  cCreate :: "event list \<Rightarrow> 'o \<Rightarrow> go_error + 'o"
  cUpdate :: "event list \<Rightarrow> 'o \<Rightarrow> go_error + 'o"
  cPatch :: "event list \<Rightarrow> 'o \<Rightarrow> 'o \<Rightarrow> go_error + 'o"
  cStatusPatch :: "event list \<Rightarrow> 'o \<Rightarrow> 'o \<Rightarrow> go_error + 'o"
  cDelete :: "event list \<Rightarrow> key \<Rightarrow> go_error option"

record api =
  now :: "event list \<Rightarrow> nat \<Rightarrow> time" \<comment> \<open>the n-th reading of the clock after a history\<close>
  retrySteps :: nat \<comment> \<open>the retries \<open>retry.DefaultRetry\<close> allows after the first attempt\<close>
  setRefErr :: "ObjectMeta \<Rightarrow> ObjectMeta \<Rightarrow> go_error option"
  apiShares :: "ZrokShare client"
  apiEnvs :: "ZrokEnvironment client"
  apiAccesses :: "ZrokAccess client"
  apiIngresses :: "Ingress client"
  apiSecrets :: "Secret client"
  apiPVCs :: "PersistentVolumeClaim client"
  apiServices :: "Service client"
  apiDeployments :: "Deployment client"
  apiNetworkPolicies :: "NetworkPolicy client"
  apiNamespaces :: "ObjectMeta client"
  apiListShares :: "event list \<Rightarrow> selector \<Rightarrow> go_error + ZrokShare list"
  apiListAccesses :: "event list \<Rightarrow> selector \<Rightarrow> go_error + ZrokAccess list"
  restEnable :: "event list \<Rightarrow> string \<Rightarrow> string \<Rightarrow> string \<Rightarrow> string \<Rightarrow> go_error + string \<times> string"
  restDisable :: "event list \<Rightarrow> string \<Rightarrow> string \<Rightarrow> string \<Rightarrow> go_error option"
  restCreateShareName ::
    "event list \<Rightarrow> string \<Rightarrow> string \<Rightarrow> string \<Rightarrow> string \<Rightarrow> go_error option"
  restUpdateShareName ::
    "event list \<Rightarrow> string \<Rightarrow> string \<Rightarrow> string \<Rightarrow> string \<Rightarrow> bool \<Rightarrow> go_error option"
  restDeleteShareName ::
    "event list \<Rightarrow> string \<Rightarrow> string \<Rightarrow> string \<Rightarrow> string \<Rightarrow> go_error option"
  restUnshare :: "event list \<Rightarrow> string \<Rightarrow> string \<Rightarrow> string \<Rightarrow> string \<Rightarrow> go_error option"
  restListShares ::
    "event list \<Rightarrow> string \<Rightarrow> string \<Rightarrow> string \<Rightarrow> go_error + RemoteShare list option"
  agentStatus :: "event list \<Rightarrow> string \<Rightarrow> go_error + StatusResponse option"
  agentSharePublic :: "event list \<Rightarrow> string \<Rightarrow> SharePublicRequest \<Rightarrow> go_error + SharePublicResponse"
  agentSharePrivate :: "event list \<Rightarrow> string \<Rightarrow> SharePrivateRequest \<Rightarrow> go_error + string"
  agentReleaseShare :: "event list \<Rightarrow> string \<Rightarrow> string \<Rightarrow> go_error option"
  agentAccessPrivate :: "event list \<Rightarrow> string \<Rightarrow> string \<Rightarrow> string \<Rightarrow> go_error + string"
  agentReleaseAccess :: "event list \<Rightarrow> string \<Rightarrow> string \<Rightarrow> go_error option"

type_synonym 'a op = "(event, 'a) prog"

section \<open>The Kubernetes calls\<close>

definition k8s_get :: "okind \<Rightarrow> ('o \<Rightarrow> object) \<Rightarrow> 'o client \<Rightarrow> key \<Rightarrow> (go_error + 'o) op" where
  "k8s_get kd wrap c k = perform (\<lambda>h. cGet c h k) (\<lambda>r. Get kd k (map_sum id wrap r))"

definition sent :: "'o \<Rightarrow> go_error + 'o \<Rightarrow> go_error option \<times> 'o" where
  \<comment> \<open>error and in-memory object after a write of \<open>o\<close>\<close>
  "sent obj r = (case r of Inl e \<Rightarrow> (Some e, obj) | Inr obj' \<Rightarrow> (None, obj'))"

definition k8s_create :: "('o \<Rightarrow> object) \<Rightarrow> 'o client \<Rightarrow> 'o \<Rightarrow> (go_error option \<times> 'o) op" where
  "k8s_create wrap c obj =
     do { r \<leftarrow> perform (\<lambda>h. cCreate c h obj) (\<lambda>r. Create (wrap obj) (map_sum id wrap r));
          ret (sent obj r) }"

definition k8s_update :: "('o \<Rightarrow> object) \<Rightarrow> 'o client \<Rightarrow> 'o \<Rightarrow> (go_error option \<times> 'o) op" where
  "k8s_update wrap c obj =
     do { r \<leftarrow> perform (\<lambda>h. cUpdate c h obj) (\<lambda>r. Update (wrap obj) (map_sum id wrap r));
          ret (sent obj r) }"

definition k8s_patch :: "('o \<Rightarrow> object) \<Rightarrow> 'o client \<Rightarrow> 'o \<Rightarrow> 'o \<Rightarrow> (go_error option \<times> 'o) op" where
  \<comment> \<open>\<open>Patch(obj, MergeFrom(before))\<close>\<close>
  "k8s_patch wrap c before obj =
     do { r \<leftarrow> perform (\<lambda>h. cPatch c h before obj)
                 (\<lambda>r. Patch (wrap before) (wrap obj) (map_sum id wrap r));
          ret (sent obj r) }"

definition k8s_status_patch ::
  "('o \<Rightarrow> object) \<Rightarrow> 'o client \<Rightarrow> 'o \<Rightarrow> 'o \<Rightarrow> (go_error option \<times> 'o) op" where
  "k8s_status_patch wrap c before obj =
     do { r \<leftarrow> perform (\<lambda>h. cStatusPatch c h before obj)
                 (\<lambda>r. StatusPatch (wrap before) (wrap obj) (map_sum id wrap r));
          ret (sent obj r) }"

definition k8s_delete :: "okind \<Rightarrow> 'o client \<Rightarrow> key \<Rightarrow> (go_error option) op" where
  "k8s_delete kd c k = perform (\<lambda>h. cDelete c h k) (\<lambda>r. Delete kd k r)"

abbreviation getShare where "getShare A \<equiv> k8s_get KShare ShareObj (apiShares A)"
abbreviation getEnv where "getEnv A \<equiv> k8s_get KEnv EnvObj (apiEnvs A)"
abbreviation getAccess where "getAccess A \<equiv> k8s_get KAccess AccessObj (apiAccesses A)"
abbreviation getIngress where "getIngress A \<equiv> k8s_get KIngress IngressObj (apiIngresses A)"
abbreviation getSecret where "getSecret A \<equiv> k8s_get KSecret SecretObj (apiSecrets A)"
abbreviation getPVC where "getPVC A \<equiv> k8s_get KPVC PVCObj (apiPVCs A)"
abbreviation getService where "getService A \<equiv> k8s_get KService ServiceObj (apiServices A)"
abbreviation getDeployment where
  "getDeployment A \<equiv> k8s_get KDeployment DeploymentObj (apiDeployments A)"
abbreviation getNetworkPolicy where
  "getNetworkPolicy A \<equiv> k8s_get KNetworkPolicy NetworkPolicyObj (apiNetworkPolicies A)"
abbreviation getNamespace where
  "getNamespace A \<equiv> k8s_get KNamespace NamespaceObj (apiNamespaces A)"

definition listZrokShares :: "api \<Rightarrow> selector \<Rightarrow> (go_error + ZrokShare list) op" where
  "listZrokShares A sel = perform (\<lambda>h. apiListShares A h sel) (ListZrokShares sel)"

definition listZrokAccesses :: "api \<Rightarrow> selector \<Rightarrow> (go_error + ZrokAccess list) op" where
  "listZrokAccesses A sel = perform (\<lambda>h. apiListAccesses A h sel) (ListZrokAccesses sel)"

definition object_key :: "'a ObjectMeta_scheme \<Rightarrow> key" where
  \<comment> \<open>\<open>client.ObjectKeyFromObject\<close>\<close>
  "object_key obj = (Namespace obj, Name obj)"

definition ContainsFinalizer :: "'a ObjectMeta_scheme \<Rightarrow> string \<Rightarrow> bool" where
  "ContainsFinalizer obj f \<longleftrightarrow> f \<in> Finalizers obj"

definition AddFinalizer :: "'a ObjectMeta_scheme \<Rightarrow> string \<Rightarrow> 'a ObjectMeta_scheme" where
  "AddFinalizer obj f = obj\<lparr>Finalizers := insert f (Finalizers obj)\<rparr>"

definition RemoveFinalizer :: "'a ObjectMeta_scheme \<Rightarrow> string \<Rightarrow> 'a ObjectMeta_scheme" where
  "RemoveFinalizer obj f = obj\<lparr>Finalizers := Finalizers obj - {f}\<rparr>"

definition SetControllerReference ::
  "api \<Rightarrow> 'a ObjectMeta_scheme \<Rightarrow> 'b ObjectMeta_scheme \<Rightarrow> go_error + 'b ObjectMeta_scheme" where
  \<comment> \<open>the library's checks are the parameter \<open>setRefErr\<close>\<close>
  "SetControllerReference A owner obj =
     (case setRefErr A (ObjectMeta.truncate owner) (ObjectMeta.truncate obj) of
        Some e \<Rightarrow> Inl e
      | None \<Rightarrow> Inr (obj\<lparr>ControllerRef := Some (UID owner)\<rparr>))"

definition refs_accepted :: "api \<Rightarrow> bool" where
  \<comment> \<open>the scheme knows the kinds and no object has another controller: no reference is refused\<close>
  "refs_accepted A \<longleftrightarrow> (\<forall>owner obj. setRefErr A owner obj = None)"

definition IsControlledBy :: "'a ObjectMeta_scheme \<Rightarrow> 'b ObjectMeta_scheme \<Rightarrow> bool" where
  "IsControlledBy obj owner \<longleftrightarrow> ControllerRef obj = Some (UID owner)"

definition IgnoreNotFound :: "go_error \<Rightarrow> go_error option" where
  "IgnoreNotFound e = (if IsNotFound e then None else Some e)"

section \<open>The zrok calls\<close>

definition REST_Enable where
  "REST_Enable A ep tok hst desc =
     perform (\<lambda>h. restEnable A h ep tok hst desc) (RestEnable ep tok hst desc)"
definition REST_Disable where
  "REST_Disable A ep tok zid = perform (\<lambda>h. restDisable A h ep tok zid) (RestDisable ep tok zid)"
definition REST_CreateShareName where
  "REST_CreateShareName A ep tok ns n =
     perform (\<lambda>h. restCreateShareName A h ep tok ns n) (RestCreateShareName ep tok ns n)"
definition REST_UpdateShareName where
  "REST_UpdateShareName A ep tok ns n reserved =
     perform (\<lambda>h. restUpdateShareName A h ep tok ns n reserved)
       (RestUpdateShareName ep tok ns n reserved)"
definition REST_DeleteShareName where
  "REST_DeleteShareName A ep tok ns n =
     perform (\<lambda>h. restDeleteShareName A h ep tok ns n) (RestDeleteShareName ep tok ns n)"
definition REST_Unshare where
  "REST_Unshare A ep tok zid shr =
     perform (\<lambda>h. restUnshare A h ep tok zid shr) (RestUnshare ep tok zid shr)"
definition REST_ListShares where
  "REST_ListShares A ep tok zid =
     perform (\<lambda>h. restListShares A h ep tok zid) (RestListShares ep tok zid)"

definition Agent_Status where
  "Agent_Status A addr = perform (\<lambda>h. agentStatus A h addr) (AgentStatus addr)"
definition Agent_SharePublic where
  "Agent_SharePublic A addr req = perform (\<lambda>h. agentSharePublic A h addr req) (AgentSharePublic addr req)"
definition Agent_SharePrivate where
  "Agent_SharePrivate A addr req =
     perform (\<lambda>h. agentSharePrivate A h addr req) (AgentSharePrivate addr req)"
definition Agent_ReleaseShare where
  "Agent_ReleaseShare A addr tok =
     perform (\<lambda>h. agentReleaseShare A h addr tok) (AgentReleaseShare addr tok)"
definition Agent_AccessPrivate where
  "Agent_AccessPrivate A addr tok bnd =
     perform (\<lambda>h. agentAccessPrivate A h addr tok bnd) (AgentAccessPrivate addr tok bnd)"
definition Agent_ReleaseAccess where
  "Agent_ReleaseAccess A addr tok =
     perform (\<lambda>h. agentReleaseAccess A h addr tok) (AgentReleaseAccess addr tok)"

lemmas call_defs =
  k8s_get_def k8s_create_def k8s_update_def k8s_patch_def k8s_status_patch_def k8s_delete_def
  listZrokShares_def listZrokAccesses_def
  REST_Enable_def REST_Disable_def REST_CreateShareName_def REST_UpdateShareName_def
  REST_DeleteShareName_def REST_Unshare_def REST_ListShares_def
  Agent_Status_def Agent_SharePublic_def Agent_SharePrivate_def Agent_ReleaseShare_def
  Agent_AccessPrivate_def Agent_ReleaseAccess_def

abbreviation EventTypeNormal :: string where "EventTypeNormal \<equiv> ''Normal''"
abbreviation EventTypeWarning :: string where "EventTypeWarning \<equiv> ''Warning''"

section \<open>\<open>PatchStatus\<close>\<close>

text \<open>
  \<open>mutate\<close> works on the freshly read object; it gets the clock readings its calls of
  \<open>metav1.Now\<close> make. A conflict of any step is retried while attempts are left, and the last
  conflict is then the result. The second component is the object as the caller sees it
  afterwards, through the pointer it passed.
\<close>

type_synonym 'o mutation = "(nat \<Rightarrow> time) \<Rightarrow> 'o \<Rightarrow> go_error option \<times> 'o"

definition patch_attempt ::
  "api \<Rightarrow> okind \<Rightarrow> ('o \<Rightarrow> object) \<Rightarrow> 'o client \<Rightarrow> key \<Rightarrow> 'o mutation \<Rightarrow> 'o \<Rightarrow>
   (go_error option \<times> 'o) op"
where
  "patch_attempt A kd wrap c k mutate obj =
     do { r \<leftarrow> k8s_get kd wrap c k;
          case r of
            Inl e \<Rightarrow> ret (Some e, obj)
          | Inr before \<Rightarrow>
              do { t \<leftarrow> consult (now A);
                   case mutate t before of
                     (Some e, obj') \<Rightarrow> ret (Some e, obj')
                   | (None, obj') \<Rightarrow> k8s_status_patch wrap c before obj' } }"

primrec RetryOnConflict ::
  "nat \<Rightarrow> ('o \<Rightarrow> (go_error option \<times> 'o) op) \<Rightarrow> 'o \<Rightarrow> (go_error option \<times> 'o) op"
where
  "RetryOnConflict 0 attempt obj = attempt obj"
| "RetryOnConflict (Suc n) attempt obj =
     do { (err, obj') \<leftarrow> attempt obj;
          case err of
            Some e \<Rightarrow> if IsConflict e then RetryOnConflict n attempt obj' else ret (Some e, obj')
          | None \<Rightarrow> ret (None, obj') }"

definition PatchStatus ::
  "api \<Rightarrow> okind \<Rightarrow> ('o ObjectMeta_scheme \<Rightarrow> object) \<Rightarrow> 'o ObjectMeta_scheme client \<Rightarrow>
   'o ObjectMeta_scheme \<Rightarrow> 'o ObjectMeta_scheme mutation \<Rightarrow> (go_error option \<times> 'o ObjectMeta_scheme) op"
where
  "PatchStatus A kd wrap c obj mutate =
     RetryOnConflict (retrySteps A) (patch_attempt A kd wrap c (object_key obj) mutate) obj"

abbreviation PatchShareStatus where
  "PatchShareStatus A \<equiv> PatchStatus A KShare ShareObj (apiShares A)"
abbreviation PatchEnvStatus where
  "PatchEnvStatus A \<equiv> PatchStatus A KEnv EnvObj (apiEnvs A)"
abbreviation PatchAccessStatus where
  "PatchAccessStatus A \<equiv> PatchStatus A KAccess AccessObj (apiAccesses A)"
abbreviation PatchIngressStatus where
  "PatchIngressStatus A \<equiv> PatchStatus A KIngress IngressObj (apiIngresses A)"

section \<open>What the calls add to the history\<close>

fun objects_of :: "event \<Rightarrow> object list" where
  \<comment> \<open>the objects an event shows: what was sent and what came back\<close>
  "objects_of (Get kd k r) = (case r of Inl _ \<Rightarrow> [] | Inr obj \<Rightarrow> [obj])"
| "objects_of (Create obj r) = obj # (case r of Inl _ \<Rightarrow> [] | Inr obj' \<Rightarrow> [obj'])"
| "objects_of (Update obj r) = obj # (case r of Inl _ \<Rightarrow> [] | Inr obj' \<Rightarrow> [obj'])"
| "objects_of (Patch before obj r) = before # obj # (case r of Inl _ \<Rightarrow> [] | Inr obj' \<Rightarrow> [obj'])"
| "objects_of (StatusPatch before obj r) =
     before # obj # (case r of Inl _ \<Rightarrow> [] | Inr obj' \<Rightarrow> [obj'])"
| "objects_of _ = []"

definition objects_seen :: "event list \<Rightarrow> object set" where
  "objects_seen h = set (concat (map objects_of h))"

lemma objects_seen_simps [simp]:
  "objects_seen [] = {}"
  "objects_seen (e # h) = set (objects_of e) \<union> objects_seen h"
  "objects_seen (h @ h') = objects_seen h \<union> objects_seen h'"
  by (auto simp: objects_seen_def)

lemma yields_k8s [yields_intros]:
  "(\<And>r. E (Get kd k (map_sum id wrap r))) \<Longrightarrow> (\<And>r. R r [Get kd k (map_sum id wrap r)])
    \<Longrightarrow> yields E R (k8s_get kd wrap c k)"
  "(\<And>r. E (Create (wrap obj) (map_sum id wrap r)))
    \<Longrightarrow> (\<And>r. R' (sent obj r) [Create (wrap obj) (map_sum id wrap r)])
    \<Longrightarrow> yields E R' (k8s_create wrap c obj)"
  "(\<And>r. E (Update (wrap obj) (map_sum id wrap r)))
    \<Longrightarrow> (\<And>r. R' (sent obj r) [Update (wrap obj) (map_sum id wrap r)])
    \<Longrightarrow> yields E R' (k8s_update wrap c obj)"
  "(\<And>r. E (Patch (wrap before) (wrap obj) (map_sum id wrap r)))
    \<Longrightarrow> (\<And>r. R' (sent obj r) [Patch (wrap before) (wrap obj) (map_sum id wrap r)])
    \<Longrightarrow> yields E R' (k8s_patch wrap c before obj)"
  "(\<And>r. E (StatusPatch (wrap before) (wrap obj) (map_sum id wrap r)))
    \<Longrightarrow> (\<And>r. R' (sent obj r) [StatusPatch (wrap before) (wrap obj) (map_sum id wrap r)])
    \<Longrightarrow> yields E R' (k8s_status_patch wrap c before obj)"
  "(\<And>r. E (Delete kd k r)) \<Longrightarrow> (\<And>r. R'' r [Delete kd k r])
    \<Longrightarrow> yields E R'' (k8s_delete kd c k)"
  unfolding call_defs by (auto simp: yields_def)

text \<open>A write shows, and returns, an object that was sent or came back.\<close>

lemma sent_shown:
  "wrap (snd (sent obj r)) \<in> insert (wrap obj)
     (set (case map_sum id wrap r of Inl _ \<Rightarrow> [] | Inr obj' \<Rightarrow> [obj']))"
  by (auto simp: sent_def split: sum.split)

lemma sent_simps [simp]:
  "sent obj (Inl e) = (Some e, obj)" "sent obj (Inr obj') = (None, obj')"
  by (simp_all add: sent_def)

section \<open>What \<open>PatchStatus\<close> does\<close>

definition total_mutation :: "'o mutation \<Rightarrow> bool" where
  "total_mutation mutate \<longleftrightarrow> (\<forall>t obj. fst (mutate t obj) = None)"

text \<open>
  Its events are reads, and status patches whose content is the mutation of what was just
  read; the object left to the caller is the one passed in or one the events show.
\<close>

definition patch_event :: "okind \<Rightarrow> ('o \<Rightarrow> object) \<Rightarrow> 'o mutation \<Rightarrow> event \<Rightarrow> bool" where
  "patch_event kd wrap mutate e \<longleftrightarrow>
     (\<exists>k r. e = Get kd k (map_sum id wrap r)) \<or>
     (\<exists>t before r. e = StatusPatch (wrap before) (wrap (snd (mutate t before))) r)"

definition shown_or :: "('o \<Rightarrow> object) \<Rightarrow> 'o \<Rightarrow> 'o \<Rightarrow> event list \<Rightarrow> bool" where
  "shown_or wrap obj obj' es \<longleftrightarrow> obj' = obj \<or> wrap obj' \<in> objects_seen es"

lemma shown_or_append: "shown_or w a b es \<Longrightarrow> shown_or w a b (es @ es')"
  by (auto simp: shown_or_def)

lemma shown_or_trans: "shown_or w a b es \<Longrightarrow> shown_or w b c es' \<Longrightarrow> shown_or w a c (es @ es')"
  by (auto simp: shown_or_def)

lemma shown_or_refl [simp]: "shown_or w a a es"
  by (simp add: shown_or_def)

text \<open>The states of an object that a handler started on \<open>obj\<close> has seen.\<close>

definition states :: "('o \<Rightarrow> object) \<Rightarrow> 'o \<Rightarrow> event list \<Rightarrow> 'o set" where
  "states wrap obj h = {s. s = obj \<or> wrap s \<in> objects_seen h}"

lemma states_mono: "s \<in> states wrap obj h \<Longrightarrow> s \<in> states wrap obj (h @ es)"
  by (auto simp: states_def)

lemma states_shown:
  "s \<in> states wrap obj h \<Longrightarrow> shown_or wrap s s' es \<Longrightarrow> s' \<in> states wrap obj (h @ es)"
  by (auto simp: states_def shown_or_def)

lemma states_self [simp]: "obj \<in> states wrap obj h"
  by (simp add: states_def)

lemma patch_attempt_yields:
  assumes "total_mutation mutate"
  shows "yields (patch_event kd wrap mutate) (\<lambda>x. shown_or wrap obj (snd x))
           (patch_attempt A kd wrap c k mutate obj)"
proof -
  have m: "mutate t b = (None, snd (mutate t b))" for t b
    using assms by (metis prod.collapse total_mutation_def)
  show ?thesis
    unfolding patch_attempt_def
  proof (rule yields_bind)
    show "yields (patch_event kd wrap mutate)
        (\<lambda>r es. case r of Inl _ \<Rightarrow> True | Inr b \<Rightarrow> wrap b \<in> objects_seen es) (k8s_get kd wrap c k)"
      by (rule yields_k8s) (auto simp: patch_event_def split: sum.split)
  next
    fix r es
    show "yields (patch_event kd wrap mutate) (\<lambda>x es'. shown_or wrap obj (snd x) (es @ es'))
       (case r of Inl e \<Rightarrow> ret (Some e, obj)
        | Inr before \<Rightarrow> consult (now A) \<bind> (\<lambda>t. case mutate t before of
            (None, obj') \<Rightarrow> k8s_status_patch wrap c before obj'
          | (Some e, obj') \<Rightarrow> ret (Some e, obj')))"
    proof (cases r)
      case (Inl e)
      then show ?thesis by (auto intro!: yields_intros simp: shown_or_def)
    next
      case (Inr b)
      have "yields (patch_event kd wrap mutate) (\<lambda>x es'. shown_or wrap obj (snd x) (es @ es'))
              (case mutate t b of (None, obj') \<Rightarrow> k8s_status_patch wrap c b obj'
               | (Some e, obj') \<Rightarrow> ret (Some e, obj'))" for t
        by (subst m) (auto intro!: yields_k8s simp: patch_event_def shown_or_def sent_def
             split: sum.split, blast)
      then show ?thesis using Inr
        by (auto intro!: yields_bind [where R = "\<lambda>_ es. es = []"] yields_consult)
    qed
  qed
qed

lemma RetryOnConflict_yields:
  assumes "\<And>obj. yields E (\<lambda>x. shown_or wrap obj (snd x)) (attempt obj)"
  shows "yields E (\<lambda>x. shown_or wrap obj (snd x)) (RetryOnConflict n attempt obj)"
proof (induction n arbitrary: obj)
  case 0
  then show ?case by (simp add: assms)
next
  case (Suc n)
  have "yields E (\<lambda>y es'. shown_or wrap obj (snd y) (es @ es'))
      (case x of (err, obj') \<Rightarrow>
         case err of Some e \<Rightarrow> if IsConflict e then RetryOnConflict n attempt obj' else ret (Some e, obj')
         | None \<Rightarrow> ret (None, obj'))"
    if s: "shown_or wrap obj (snd x) es" for x es
  proof -
    have "yields E (\<lambda>y es'. shown_or wrap obj (snd y) (es @ es')) (RetryOnConflict n attempt (snd x))"
      using s by (intro yields_conseq [OF Suc.IH]) (auto simp: shown_or_def)
    then show ?thesis using s
      by (auto intro!: yields_intros split: prod.split)
  qed
  then show ?case by (simp add: yields_bind [OF assms])
qed

lemma PatchStatus_yields:
  "total_mutation mutate \<Longrightarrow>
   yields (patch_event kd wrap mutate) (\<lambda>x. shown_or wrap obj (snd x))
     (PatchStatus A kd wrap c obj mutate)"
  unfolding PatchStatus_def by (intro RetryOnConflict_yields patch_attempt_yields)

lemma PatchStatus_emits:
  "total_mutation mutate \<Longrightarrow> (\<And>e. patch_event kd wrap mutate e \<Longrightarrow> E e)
    \<Longrightarrow> emits E (PatchStatus A kd wrap c obj mutate)"
  by (rule emits_mono [OF emits_yields [OF PatchStatus_yields]])

end
