(* ===== verification/Conditions.thy ===== *)
theory Conditions
  imports ApiTypes
begin

text \<open>
  \<open>internal/status/conditions.go\<close>: the upsert of a condition and its queries. The
  conditions are a list with one entry per type (a Kubernetes map list), an invariant that
  \<open>SetCondition\<close> keeps.
\<close>

section \<open>The operations\<close>

definition truncate :: "string \<Rightarrow> nat \<Rightarrow> string" where
  \<comment> \<open>\<open>s[:n-3]\<close>; the callers pass 1024\<close>
  "truncate s n = (if length s \<le> n then s else take (n - 3) s @ ''...'')"

text \<open>
  The loop of \<open>SetCondition\<close> stops at the first entry of the type; without one, the new
  condition is appended. \<open>now\<close> is the reading of \<open>metav1.Now()\<close>.
\<close>

fun upsert_condition ::
  "time \<Rightarrow> string \<Rightarrow> string \<Rightarrow> string \<Rightarrow> string \<Rightarrow> int \<Rightarrow> Condition list \<Rightarrow> Condition list"
where
  "upsert_condition now ty st rsn msg gen [] =
     [\<lparr>cType = ty, cStatus = st, cReason = rsn, cMessage = msg,
       cLastTransitionTime = now, cObservedGeneration = gen\<rparr>]"
| "upsert_condition now ty st rsn msg gen (cur # cs) =
     (if cType cur \<noteq> ty then cur # upsert_condition now ty st rsn msg gen cs
      else if cStatus cur = st \<and> cReason cur = rsn \<and> cMessage cur = msg
              \<and> cObservedGeneration cur = gen
      then cur # cs
      else \<lparr>cType = ty, cStatus = st, cReason = rsn, cMessage = msg,
             cLastTransitionTime = (if cStatus cur = st then cLastTransitionTime cur else now),
             cObservedGeneration = gen\<rparr> # cs)"

definition SetCondition ::
  "time \<Rightarrow> Condition list \<Rightarrow> string \<Rightarrow> string \<Rightarrow> string \<Rightarrow> string \<Rightarrow> int \<Rightarrow> Condition list"
where
  "SetCondition now conditions ty st rsn msg gen =
     upsert_condition now ty st rsn (truncate msg 1024) gen conditions"

fun IsTrue :: "Condition list \<Rightarrow> string \<Rightarrow> bool" where
  "IsTrue [] ty = False"
| "IsTrue (c # cs) ty = (if cType c = ty then cStatus c = ConditionTrue else IsTrue cs ty)"

fun Reason :: "Condition list \<Rightarrow> string \<Rightarrow> string" where
  "Reason [] ty = []"
| "Reason (c # cs) ty = (if cType c = ty then cReason c else Reason cs ty)"

section \<open>Lookup in a condition list\<close>

text \<open>
  The abstract view of a condition list is the map from types to their first entry;
  \<open>IsTrue\<close> and \<open>Reason\<close> are functions of it, and \<open>SetCondition\<close> is an update of it.
\<close>

fun cond_of :: "Condition list \<Rightarrow> string \<Rightarrow> Condition option" where
  "cond_of [] ty = None"
| "cond_of (c # cs) ty = (if cType c = ty then Some c else cond_of cs ty)"

lemma cond_of_type: "cond_of cs ty = Some c \<Longrightarrow> cType c = ty \<and> c \<in> set cs"
  by (induction cs) (auto split: if_splits)

lemma IsTrue_cond_of:
  "IsTrue cs ty \<longleftrightarrow> (case cond_of cs ty of Some c \<Rightarrow> cStatus c = ConditionTrue | None \<Rightarrow> False)"
  by (induction cs) auto

lemma Reason_cond_of:
  "Reason cs ty = (case cond_of cs ty of Some c \<Rightarrow> cReason c | None \<Rightarrow> [])"
  by (induction cs) auto

lemma cond_of_None_iff: "cond_of cs ty = None \<longleftrightarrow> ty \<notin> cType ` set cs"
  by (induction cs) auto

definition merged_condition ::
  "time \<Rightarrow> string \<Rightarrow> string \<Rightarrow> string \<Rightarrow> string \<Rightarrow> int \<Rightarrow> Condition option \<Rightarrow> Condition" where
  \<comment> \<open>what the entry of the type becomes, from the entry it had\<close>
  "merged_condition now ty st rsn msg gen prev =
     \<lparr>cType = ty, cStatus = st, cReason = rsn, cMessage = truncate msg 1024,
      cLastTransitionTime =
        (case prev of Some c \<Rightarrow> if cStatus c = st then cLastTransitionTime c else now
         | None \<Rightarrow> now),
      cObservedGeneration = gen\<rparr>"

lemma cond_of_upsert:
  "cond_of (upsert_condition now ty st rsn msg gen cs) ty' =
     (if ty' = ty then Some \<lparr>cType = ty, cStatus = st, cReason = rsn, cMessage = msg,
        cLastTransitionTime =
          (case cond_of cs ty of Some c \<Rightarrow> if cStatus c = st then cLastTransitionTime c else now
           | None \<Rightarrow> now),
        cObservedGeneration = gen\<rparr>
      else cond_of cs ty')"
proof (induction cs)
  case Nil
  then show ?case by auto
next
  case (Cons c cs)
  then show ?case by (cases c) auto
qed

lemma cond_of_SetCondition:
  "cond_of (SetCondition now cs ty st rsn msg gen) ty' =
     (if ty' = ty then Some (merged_condition now ty st rsn msg gen (cond_of cs ty))
      else cond_of cs ty')"
  by (simp add: SetCondition_def cond_of_upsert merged_condition_def)

lemma IsTrue_SetCondition [simp]:
  "IsTrue (SetCondition now cs ty st rsn msg gen) ty' =
     (if ty' = ty then st = ConditionTrue else IsTrue cs ty')"
  by (auto simp: IsTrue_cond_of cond_of_SetCondition merged_condition_def split: option.splits)

lemma Reason_SetCondition [simp]:
  "Reason (SetCondition now cs ty st rsn msg gen) ty' = (if ty' = ty then rsn else Reason cs ty')"
  by (auto simp: Reason_cond_of cond_of_SetCondition merged_condition_def split: option.splits)

lemma map_cType_upsert:
  "map cType (upsert_condition now ty st rsn msg gen cs) =
     (if ty \<in> cType ` set cs then map cType cs else map cType cs @ [ty])"
  by (induction cs) auto

lemma SetCondition_idem_any_time:
  "SetCondition now' (SetCondition now cs ty st rsn msg gen) ty st rsn msg gen =
   SetCondition now cs ty st rsn msg gen"
proof -
  have "upsert_condition now' ty st rsn m gen (upsert_condition now ty st rsn m gen cs) =
        upsert_condition now ty st rsn m gen cs" for m
    by (induction cs) auto
  then show ?thesis by (simp add: SetCondition_def)
qed

lemma length_truncate: "3 \<le> n \<Longrightarrow> length (truncate s n) \<le> n"
  by (auto simp: truncate_def)

section \<open>Properties\<close>

definition conditions_wf :: "Condition list \<Rightarrow> bool" where
  \<comment> \<open>one entry per type, every message within the API's bound\<close>
  "conditions_wf cs \<longleftrightarrow> distinct (map cType cs) \<and> list_all (\<lambda>c. length (cMessage c) \<le> 1024) cs"

lemma conditions_wf_Nil [simp]: "conditions_wf []"
  by (simp add: conditions_wf_def)

lemma upsert_messages:
  "length msg \<le> n \<Longrightarrow> list_all (\<lambda>c. length (cMessage c) \<le> n) cs \<Longrightarrow>
   list_all (\<lambda>c. length (cMessage c) \<le> n) (upsert_condition now ty st rsn msg gen cs)"
  by (induction cs) auto

lemma SetCondition_wf:
  "conditions_wf cs \<Longrightarrow> conditions_wf (SetCondition now cs ty st rsn msg gen)"
  unfolding conditions_wf_def SetCondition_def
  by (auto simp: map_cType_upsert length_truncate intro!: upsert_messages)

end
