(* ===== verification/GoUrl.thy ===== *)
theory GoUrl
  imports GoStrings
begin

text \<open>
  The part of Go's \<open>net/url\<close>, \<open>net\<close> and \<open>net/netip\<close> that the operator uses:
  \<open>url.Parse\<close>, \<open>URL.String\<close>, \<open>URL.Hostname\<close>, \<open>URL.Port\<close> and \<open>net.ParseIP\<close> with the
  predicates of \<open>net.IP\<close>, as of Go 1.26 (the version of \<open>go.mod\<close>). Bytes are \<open>nat\<close>s
  below 256.
\<close>

section \<open>IP addresses\<close>

fun digits_val :: "nat \<Rightarrow> nat \<Rightarrow> string \<Rightarrow> nat" where
  "digits_val base acc [] = acc"
| "digits_val base acc (c # cs) =
     (let n = (of_char c :: nat);
          d = (if n < 58 then n - 48 else if n < 71 then n - 55 else n - 87)
      in digits_val base (acc * base + d) cs)"

definition is_digit :: "char \<Rightarrow> bool" where
  "is_digit c \<longleftrightarrow> (48::nat) \<le> of_char c \<and> of_char c \<le> (57::nat)"

definition is_letter :: "char \<Rightarrow> bool" where
  "is_letter c \<longleftrightarrow> ((65::nat) \<le> of_char c \<and> of_char c \<le> (90::nat))
                 \<or> ((97::nat) \<le> of_char c \<and> of_char c \<le> (122::nat))"

definition is_hex :: "char \<Rightarrow> bool" where
  "is_hex c \<longleftrightarrow> is_digit c \<or> ((65::nat) \<le> of_char c \<and> of_char c \<le> (70::nat))
              \<or> ((97::nat) \<le> of_char c \<and> of_char c \<le> (102::nat))"

definition parse_octet :: "string \<Rightarrow> nat option" where
  "parse_octet f =
     (if f = [] \<or> \<not> list_all is_digit f \<or> (length f > 1 \<and> hd f = CHR ''0'')
         \<or> digits_val 10 0 f > 255
      then None else Some (digits_val 10 0 f))"

definition parse_ipv4_fields :: "string \<Rightarrow> nat list option" where
  "parse_ipv4_fields s =
     (case map parse_octet (SplitByte s (CHR ''.'')) of
        [Some a, Some b, Some c, Some d] \<Rightarrow> Some [a, b, c, d]
      | _ \<Rightarrow> None)"

text \<open>
  The loop of \<open>netip.parseIPv6\<close>: \<open>ip\<close> is what has been parsed, \<open>ell\<close> the position of the
  ellipsis, \<open>s\<close> the rest of the text. \<open>None\<close> is a parse error.
\<close>

function parse6 :: "nat list \<Rightarrow> nat option \<Rightarrow> string \<Rightarrow> (nat list \<times> nat option) option" where
  "parse6 ip ell s =
     (if length ip \<ge> 16 then (if s = [] then Some (ip, ell) else None)
      else let ds = takeWhile is_hex s; r = dropWhile is_hex s in
        if ds = [] \<or> length ds > 4 then None
        else if r \<noteq> [] \<and> hd r = CHR ''.'' then
          (if (ell = None \<and> length ip \<noteq> 12) \<or> length ip + 4 > 16 then None
           else case parse_ipv4_fields s of
                  None \<Rightarrow> None
                | Some v4 \<Rightarrow> Some (ip @ v4, ell))
        else let v = digits_val 16 0 ds; ip' = ip @ [v div 256, v mod 256] in
          if r = [] then Some (ip', ell)
          else if hd r \<noteq> CHR '':'' then None
          else if tl r = [] then None
          else if hd (tl r) = CHR '':'' then
            (if ell \<noteq> None then None
             else if tl (tl r) = [] then Some (ip', Some (length ip'))
             else parse6 ip' (Some (length ip')) (tl (tl r)))
          else parse6 ip' ell (tl r))"
  by pat_completeness auto
termination
proof (relation "measure (\<lambda>(ip, ell, s). length s)", goal_cases)
  case 1
  then show ?case by simp
next
  case (2 ip ell s ds r v ip')
  have "length r \<le> length s" "0 < length r"
    using 2 by (auto intro: length_dropWhile_le)
  then have "length (tl (tl r)) < length s" unfolding length_tl by linarith
  then show ?case by simp
next
  case (3 ip ell s ds r v ip')
  have "length r \<le> length s" "0 < length r"
    using 3 by (auto intro: length_dropWhile_le)
  then have "length (tl r) < length s" unfolding length_tl by linarith
  then show ?case by simp
qed

declare parse6.simps [simp del]

definition expand_ellipsis :: "nat list \<Rightarrow> nat option \<Rightarrow> nat list option" where
  "expand_ellipsis ip ell =
     (if length ip < 16 then
        (case ell of None \<Rightarrow> None
         | Some e \<Rightarrow> Some (take e ip @ replicate (16 - length ip) 0 @ drop e ip))
      else (case ell of None \<Rightarrow> Some ip | Some _ \<Rightarrow> None))"

definition parse_ipv6 :: "string \<Rightarrow> (nat list \<times> string) option" where
  \<comment> \<open>the address and its zone\<close>
  "parse_ipv6 s0 =
     (let s = cut_at s0 (CHR ''%'') in
      if length s < length s0 \<and> length s + 1 = length s0 then None
      else let zone = drop (length s + 1) s0 in
        if HasPrefix s ''::'' then
          (if drop 2 s = [] then Some (replicate 16 0, zone)
           else case parse6 [] (Some 0) (drop 2 s) of
                  None \<Rightarrow> None
                | Some (ip, ell) \<Rightarrow> map_option (\<lambda>a. (a, zone)) (expand_ellipsis ip ell))
        else case parse6 [] None s of
               None \<Rightarrow> None
             | Some (ip, ell) \<Rightarrow> map_option (\<lambda>a. (a, zone)) (expand_ellipsis ip ell))"

text \<open>An address is kept in the 16-byte form of \<open>net.IP\<close>; IPv4 is mapped.\<close>

definition v4_mapped :: "nat list \<Rightarrow> nat list" where
  "v4_mapped v4 = replicate 10 0 @ [255, 255] @ v4"

definition ParseIP :: "string \<Rightarrow> nat list option" where
  \<comment> \<open>\<open>net.ParseIP\<close>: \<open>None\<close> is nil\<close>
  "ParseIP s =
     (case dropWhile (\<lambda>c. c \<noteq> CHR ''.'' \<and> c \<noteq> CHR '':'' \<and> c \<noteq> CHR ''%'') s of
        [] \<Rightarrow> None
      | c # _ \<Rightarrow>
          if c = CHR ''.'' then map_option v4_mapped (parse_ipv4_fields s)
          else if c = CHR '':'' then
            (case parse_ipv6 s of Some (ip, zone) \<Rightarrow> if zone = [] then Some ip else None
             | None \<Rightarrow> None)
          else None)"

definition To4 :: "nat list \<Rightarrow> nat list option" where
  "To4 ip = (if take 12 ip = replicate 10 0 @ [255, 255] \<and> length ip = 16
             then Some (drop 12 ip) else None)"

definition IsLoopback :: "nat list \<Rightarrow> bool" where
  "IsLoopback ip = (case To4 ip of Some v \<Rightarrow> v ! 0 = 127 | None \<Rightarrow> ip = replicate 15 0 @ [1])"

definition IsLinkLocalUnicast :: "nat list \<Rightarrow> bool" where
  "IsLinkLocalUnicast ip =
     (case To4 ip of Some v \<Rightarrow> v ! 0 = 169 \<and> v ! 1 = 254
      | None \<Rightarrow> length ip = 16 \<and> ip ! 0 = 254 \<and> ip ! 1 div 64 = 2)"

definition IsLinkLocalMulticast :: "nat list \<Rightarrow> bool" where
  "IsLinkLocalMulticast ip =
     (case To4 ip of Some v \<Rightarrow> v ! 0 = 224 \<and> v ! 1 = 0 \<and> v ! 2 = 0
      | None \<Rightarrow> length ip = 16 \<and> ip ! 0 = 255 \<and> ip ! 1 mod 16 = 2)"

definition IsUnspecified :: "nat list \<Rightarrow> bool" where
  "IsUnspecified ip \<longleftrightarrow> ip = v4_mapped [0, 0, 0, 0] \<or> ip = replicate 16 0"

section \<open>Escaping\<close>

datatype url_mode = encodePath | encodeHost | encodeZone | encodeUserPassword | encodeFragment

definition shouldEscape :: "char \<Rightarrow> url_mode \<Rightarrow> bool" where
  "shouldEscape c mode =
     (if is_letter c \<or> is_digit c then False
      else if (mode = encodeHost \<or> mode = encodeZone) \<and>
              of_char c \<in> {33, 36, 38, 39, 40, 41, 42, 43, 44, 59, 61, 58, 91, 93, 60, 62, 34::nat}
           then False
      else if c \<in> {CHR ''-'', CHR ''_'', CHR ''.'', CHR ''~''} then False
      else if c \<in> {CHR ''$'', CHR ''&'', CHR ''+'', CHR '','', CHR ''/'', CHR '':'', CHR '';'',
                   CHR ''='', CHR ''?'', CHR ''@''} \<and> mode \<notin> {encodeHost, encodeZone}
           then (case mode of
                   encodePath \<Rightarrow> c = CHR ''?''
                 | encodeUserPassword \<Rightarrow> c \<in> {CHR ''@'', CHR ''/'', CHR ''?'', CHR '':''}
                 | _ \<Rightarrow> False)
      else if mode = encodeFragment \<and> c \<in> {CHR ''!'', CHR ''('', CHR '')'', CHR ''*''} then False
      else True)"

definition upper_hex :: "nat \<Rightarrow> char" where
  "upper_hex n = (if n < 10 then char_of (48 + n) else char_of (55 + n))"

definition escape_char :: "url_mode \<Rightarrow> char \<Rightarrow> string" where
  "escape_char mode c =
     (if shouldEscape c mode
      then [CHR ''%'', upper_hex (of_char c div 16), upper_hex (of_char c mod 16)] else [c])"

definition escape :: "string \<Rightarrow> url_mode \<Rightarrow> string" where
  "escape s mode = concat (map (escape_char mode) s)"

fun unescape :: "string \<Rightarrow> url_mode \<Rightarrow> string + string" where
  "unescape [] mode = Inr []"
| "unescape (c # s) mode =
     (if c = CHR ''%'' then
        (case s of
           a # b # r \<Rightarrow>
             if \<not> is_hex a \<or> \<not> is_hex b
             then Inl (''invalid URL escape '' @ fmt_q [c, a, b])
             else let v = digits_val 16 0 [a, b] in
               if mode = encodeHost \<and> v < 128 \<and> v \<noteq> 37
               then Inl (''invalid URL escape '' @ fmt_q [c, a, b])
               else if mode = encodeZone \<and> v \<noteq> 37 \<and> v \<noteq> 32 \<and> shouldEscape (char_of v) encodeHost
               then Inl (''invalid URL escape '' @ fmt_q [c, a, b])
               else map_sum id ((#) (char_of v)) (unescape r mode)
         | _ \<Rightarrow> Inl (''invalid URL escape '' @ fmt_q (c # s)))
      else if mode \<in> {encodeHost, encodeZone} \<and> of_char c < (128::nat) \<and> shouldEscape c mode
           then Inl (''invalid character '' @ fmt_q [c] @ '' in host name'')
      else map_sum id ((#) c) (unescape s mode))"

definition validEncoded :: "string \<Rightarrow> url_mode \<Rightarrow> bool" where
  "validEncoded s mode =
     list_all (\<lambda>c. of_char c \<in> {33, 36, 38, 39, 40, 41, 42, 43, 44, 59, 61, 58, 64, 91, 93, 37::nat}
                   \<or> \<not> shouldEscape c mode) s"

section \<open>URLs\<close>

record Userinfo =
  uiUsername :: string
  uiPassword :: "string option"

record URL =
  uScheme :: string
  uOpaque :: string
  uUser :: "Userinfo option"
  uHost :: string
  uPath :: string
  uRawPath :: string
  uOmitHost :: bool
  uForceQuery :: bool
  uRawQuery :: string
  uFragment :: string
  uRawFragment :: string

definition empty_url :: URL where
  "empty_url = \<lparr>uScheme = [], uOpaque = [], uUser = None, uHost = [], uPath = [], uRawPath = [],
     uOmitHost = False, uForceQuery = False, uRawQuery = [], uFragment = [], uRawFragment = []\<rparr>"

fun scheme_end :: "nat \<Rightarrow> string \<Rightarrow> (string + nat) option" where
  \<comment> \<open>\<open>getScheme\<close>: \<open>None\<close> for no scheme, an error, or the position of the colon\<close>
  "scheme_end i [] = None"
| "scheme_end i (c # s) =
     (if is_letter c then scheme_end (Suc i) s
      else if is_digit c \<or> c \<in> {CHR ''+'', CHR ''-'', CHR ''.''}
        then (if i = 0 then None else scheme_end (Suc i) s)
      else if c = CHR '':''
        then (if i = 0 then Some (Inl ''missing protocol scheme'') else Some (Inr i))
      else None)"

definition validOptionalPort :: "string \<Rightarrow> bool" where
  "validOptionalPort p = (case p of [] \<Rightarrow> True | c # ds \<Rightarrow> c = CHR '':'' \<and> list_all is_digit ds)"

definition cut_last :: "string \<Rightarrow> char \<Rightarrow> (string \<times> string) option" where
  \<comment> \<open>the parts before and after the last occurrence of a byte\<close>
  "cut_last s c =
     (if c \<in> set s
      then Some (rev (tl (dropWhile (\<lambda>x. x \<noteq> c) (rev s))), rev (takeWhile (\<lambda>x. x \<noteq> c) (rev s)))
      else None)"

definition find_sub :: "string \<Rightarrow> string \<Rightarrow> nat option" where
  \<comment> \<open>\<open>strings.Index\<close>\<close>
  "find_sub s p = List.find (\<lambda>i. HasPrefix (drop i s) p) [0..<Suc (length s)]"

definition parse_bracketed :: "string \<Rightarrow> string + string" where
  \<comment> \<open>the IP literal between the brackets, unescaped and checked\<close>
  "parse_bracketed h =
     (let r = (case find_sub h ''%25'' of
                 Some z \<Rightarrow> (case unescape (take z h) encodeHost of
                              Inl e \<Rightarrow> Inl e
                            | Inr a \<Rightarrow> map_sum id ((@) a) (unescape (drop z h) encodeZone))
               | None \<Rightarrow> unescape h encodeHost)
      in case r of
           Inl e \<Rightarrow> Inl e
         | Inr t \<Rightarrow> (case parse_ipv6 t of None \<Rightarrow> Inl ''invalid host'' | Some _ \<Rightarrow> Inr t))"

definition parseHost :: "string \<Rightarrow> string + string" where
  "parseHost host =
     (case host of
        c # h \<Rightarrow>
          if CHR ''['' \<in> set h then Inl ''invalid IP-literal''
          else if c = CHR ''['' then
            (case cut_last h (CHR '']'') of
               None \<Rightarrow> Inl (''missing '' @ [char_of (39::nat)] @ '']'' @ [char_of (39::nat)] @ '' in host'')
             | Some (ip, port) \<Rightarrow>
                 if \<not> validOptionalPort port
                 then Inl (''invalid port '' @ fmt_q port @ '' after host'')
                 else map_sum id (\<lambda>t. ''['' @ t @ '']'' @ port) (parse_bracketed ip))
          else if \<not> validOptionalPort (dropWhile (\<lambda>x. x \<noteq> CHR '':'') host)
               then Inl (''invalid port '' @ fmt_q (dropWhile (\<lambda>x. x \<noteq> CHR '':'') host) @ '' after host'')
          else unescape host encodeHost
      | [] \<Rightarrow> Inr [])"

definition validUserinfo :: "string \<Rightarrow> bool" where
  "validUserinfo s =
     list_all (\<lambda>c. is_letter c \<or> is_digit c \<or>
       of_char c \<in> {45, 46, 95, 58, 126, 33, 36, 38, 39, 40, 41, 42, 43, 44, 59, 61, 37, 64::nat}) s"

definition parse_userinfo :: "string \<Rightarrow> string + Userinfo" where
  "parse_userinfo ui =
     (if \<not> validUserinfo ui then Inl ''net/url: invalid userinfo''
      else case IndexByte ui (CHR '':'') of
        None \<Rightarrow> map_sum id (\<lambda>u. \<lparr>uiUsername = u, uiPassword = None\<rparr>) (unescape ui encodeUserPassword)
      | Some i \<Rightarrow>
          (case unescape (take i ui) encodeUserPassword of
             Inl e \<Rightarrow> Inl e
           | Inr u \<Rightarrow> map_sum id (\<lambda>p. \<lparr>uiUsername = u, uiPassword = Some p\<rparr>)
                        (unescape (drop (Suc i) ui) encodeUserPassword)))"

definition parseAuthority :: "string \<Rightarrow> string + (Userinfo option \<times> string)" where
  "parseAuthority a =
     (case cut_last a (CHR ''@'') of
        None \<Rightarrow> map_sum id (\<lambda>h. (None, h)) (parseHost a)
      | Some (ui, hp) \<Rightarrow>
          (case parseHost hp of
             Inl e \<Rightarrow> Inl e
           | Inr h \<Rightarrow> map_sum id (\<lambda>u. (Some u, h)) (parse_userinfo ui)))"

definition set_path :: "URL \<Rightarrow> string \<Rightarrow> string + URL" where
  "set_path u p =
     map_sum id (\<lambda>path. u\<lparr>uPath := path,
                          uRawPath := (if p = escape path encodePath then [] else p)\<rparr>)
       (unescape p encodePath)"

definition set_fragment :: "URL \<Rightarrow> string \<Rightarrow> string + URL" where
  "set_fragment u f =
     map_sum id (\<lambda>frag. u\<lparr>uFragment := frag,
                          uRawFragment := (if f = escape frag encodeFragment then [] else f)\<rparr>)
       (unescape f encodeFragment)"

definition cut_query :: "string \<Rightarrow> string \<times> bool \<times> string" where
  \<comment> \<open>the part before the query, \<open>ForceQuery\<close> and \<open>RawQuery\<close>\<close>
  "cut_query rest =
     (if rest \<noteq> [] \<and> last rest = CHR ''?'' \<and> CHR ''?'' \<notin> set (butlast rest)
      then (butlast rest, True, [])
      else case IndexByte rest (CHR ''?'') of
             None \<Rightarrow> (rest, False, [])
           | Some i \<Rightarrow> (take i rest, False, drop (Suc i) rest))"

definition parse_after_scheme :: "string \<Rightarrow> string \<Rightarrow> string + URL" where
  "parse_after_scheme scheme rest0 =
     (case cut_query rest0 of (rest, force, query) \<Rightarrow>
        let u = empty_url\<lparr>uScheme := ToLower scheme, uForceQuery := force, uRawQuery := query\<rparr> in
        if \<not> HasPrefix rest ''/'' \<and> scheme \<noteq> [] then Inr (u\<lparr>uOpaque := rest\<rparr>)
        else if \<not> HasPrefix rest ''/'' \<and> CHR '':'' \<in> set (cut_at rest (CHR ''/''))
        then Inl ''first path segment in URL cannot contain colon''
        else if HasPrefix rest ''//'' \<and> (scheme \<noteq> [] \<or> \<not> HasPrefix rest ''///'') then
          let a = cut_at (drop 2 rest) (CHR ''/'') in
          (case parseAuthority a of
             Inl e \<Rightarrow> Inl e
           | Inr (user, host) \<Rightarrow>
               set_path (u\<lparr>uUser := user, uHost := host\<rparr>) (drop (2 + length a) rest))
        else set_path (u\<lparr>uOmitHost := (scheme \<noteq> [] \<and> HasPrefix rest ''/'')\<rparr>) rest)"

definition parse_no_fragment :: "string \<Rightarrow> string + URL" where
  "parse_no_fragment raw =
     (if list_ex (\<lambda>c. of_char c < (32::nat) \<or> of_char c = (127::nat)) raw
      then Inl ''net/url: invalid control character in URL''
      else if raw = ''*'' then Inr (empty_url\<lparr>uPath := ''*''\<rparr>)
      else case scheme_end 0 raw of
             Some (Inl e) \<Rightarrow> Inl e
           | Some (Inr i) \<Rightarrow> parse_after_scheme (take i raw) (drop (Suc i) raw)
           | None \<Rightarrow> parse_after_scheme [] raw)"

definition url_error :: "string \<Rightarrow> string \<Rightarrow> string" where
  \<comment> \<open>\<open>(&url.Error{"parse", raw, err}).Error()\<close>\<close>
  "url_error raw e = ''parse '' @ fmt_q raw @ '': '' @ e"

definition url_Parse :: "string \<Rightarrow> string + URL" where
  "url_Parse raw =
     (let u = cut_at raw (CHR ''#''); frag = drop (Suc (length u)) raw in
      case parse_no_fragment u of
        Inl e \<Rightarrow> Inl (url_error u e)
      | Inr url \<Rightarrow> if frag = [] then Inr url
                   else map_sum (url_error raw) id (set_fragment url frag))"

definition splitHostPort :: "string \<Rightarrow> string \<times> string" where
  "splitHostPort hp =
     (let (host, port) = (case cut_last hp (CHR '':'') of
                            Some (h, p) \<Rightarrow> if list_all is_digit p then (h, p) else (hp, [])
                          | None \<Rightarrow> (hp, []))
      in (if HasPrefix host ''['' \<and> HasSuffix host '']'' then butlast (tl host) else host, port))"

definition Hostname :: "URL \<Rightarrow> string" where
  "Hostname u = fst (splitHostPort (uHost u))"

definition Port :: "URL \<Rightarrow> string" where
  "Port u = snd (splitHostPort (uHost u))"

definition Userinfo_String :: "Userinfo \<Rightarrow> string" where
  "Userinfo_String ui =
     (if uiUsername ui \<noteq> [] \<or> uiPassword ui \<noteq> None
      then escape (uiUsername ui) encodeUserPassword @
           (case uiPassword ui of Some p \<Rightarrow> '':'' @ escape p encodeUserPassword | None \<Rightarrow> [])
      else [])"

definition escaped_part :: "string \<Rightarrow> string \<Rightarrow> url_mode \<Rightarrow> string" where
  \<comment> \<open>\<open>EscapedPath\<close> and \<open>EscapedFragment\<close>: the raw form when it is a valid encoding\<close>
  "escaped_part raw v mode =
     (if raw \<noteq> [] \<and> validEncoded raw mode \<and> unescape raw mode = Inr v then raw
      else if v = ''*'' \<and> mode = encodePath then ''*''
      else escape v mode)"

definition URL_String :: "URL \<Rightarrow> string" where
  "URL_String u =
     (let pre = (if uScheme u \<noteq> [] then uScheme u @ '':'' else []);
          path = escaped_part (uRawPath u) (uPath u) encodePath;
          auth = (if (uScheme u \<noteq> [] \<or> uHost u \<noteq> [] \<or> uUser u \<noteq> None)
                     \<and> \<not> (uOmitHost u \<and> uHost u = [] \<and> uUser u = None)
                  then (if uHost u \<noteq> [] \<or> uPath u \<noteq> [] \<or> uUser u \<noteq> None then ''//'' else [])
                       @ (case uUser u of Some ui \<Rightarrow> Userinfo_String ui @ ''@'' | None \<Rightarrow> [])
                       @ escape (uHost u) encodeHost
                  else []);
          slash = (if path \<noteq> [] \<and> hd path \<noteq> CHR ''/'' \<and> uHost u \<noteq> [] then ''/'' else []);
          dot = (if pre @ auth @ slash = [] \<and> CHR '':'' \<in> set (cut_at path (CHR ''/''))
                 then ''./'' else []);
          body = (if uOpaque u \<noteq> [] then uOpaque u else auth @ slash @ dot @ path)
      in pre @ body
         @ (if uForceQuery u \<or> uRawQuery u \<noteq> [] then ''?'' @ uRawQuery u else [])
         @ (if uFragment u \<noteq> [] then ''#'' @ escaped_part (uRawFragment u) (uFragment u) encodeFragment
            else []))"

end
