(* ===== verification/RemoteShares.thy ===== *)
theory RemoteShares
  imports ApiTypes GoUrl
begin

text \<open>
  \<open>internal/zrokclient/share.go\<close>: how the operator recognises a share in the inventory of
  the zrok controller: by token, by the reserved name in a frontend URL, and by comparing
  target URLs up to normalisation.
\<close>

section \<open>The operations\<close>

definition frontendHost :: "string \<Rightarrow> string" where
  "frontendHost endpoint =
     (let host = ToLower (TrimSpace endpoint);
          host = TrimPrefix host ''https://'';
          host = TrimPrefix host ''http://'';
          host = cut_at host (CHR ''/'')
      in case IndexByte host (CHR '':'') of
           Some i \<Rightarrow> if \<not> Contains host '']'' then take i host else host
         | None \<Rightarrow> host)"

definition FrontendEndpointMatchesName :: "string \<Rightarrow> string \<Rightarrow> bool" where
  "FrontendEndpointMatchesName endpoint name =
     (if endpoint = [] \<or> name = [] then False
      else HasPrefix (frontendHost endpoint) (ToLower name @ ''.''))"

definition FrontendNameFromEndpoint :: "string \<Rightarrow> string" where
  "FrontendNameFromEndpoint endpoint =
     (let host = frontendHost endpoint in
      if host = [] then []
      else case IndexByte host (CHR ''.'') of
             Some i \<Rightarrow> if i > 0 then take i host else host
           | None \<Rightarrow> host)"

fun FrontendNameFromEndpoints :: "string list \<Rightarrow> string" where
  "FrontendNameFromEndpoints [] = []"
| "FrontendNameFromEndpoints (ep # eps) =
     (let n = FrontendNameFromEndpoint ep in
      if n \<noteq> [] then n else FrontendNameFromEndpoints eps)"

definition MatchesFrontendName :: "RemoteShare \<Rightarrow> string \<Rightarrow> bool" where
  "MatchesFrontendName s name =
     list_ex (\<lambda>ep. FrontendEndpointMatchesName ep name) (rsFrontendEndpoints s)"

definition FindByToken :: "RemoteShare list \<Rightarrow> string \<Rightarrow> RemoteShare option" where
  "FindByToken shares token =
     (if token = [] then None else List.find (\<lambda>s. rsToken s = token) shares)"

definition FindByFrontendName :: "RemoteShare list \<Rightarrow> string \<Rightarrow> RemoteShare option" where
  "FindByFrontendName shares name =
     (if name = [] then None else List.find (\<lambda>s. MatchesFrontendName s name) shares)"

definition normalizeTarget :: "string \<Rightarrow> string" where
  "normalizeTarget s0 =
     (let s = TrimSpace s0 in
      if s = [] then []
      else case url_Parse s of
             Inl _ \<Rightarrow> TrimRightByte (ToLower s) (CHR ''/'')
           | Inr u \<Rightarrow>
               if uScheme u = [] \<or> uHost u = [] then TrimRightByte (ToLower s) (CHR ''/'')
               else let scheme = ToLower (uScheme u); h = ToLower (uHost u);
                        host = (if scheme = ''http'' \<and> HasSuffix h '':80'' then TrimSuffix h '':80''
                                else if scheme = ''https'' \<and> HasSuffix h '':443''
                                then TrimSuffix h '':443'' else h)
                    in URL_String (u\<lparr>uScheme := scheme, uHost := host,
                                     uPath := TrimRightByte (uPath u) (CHR ''/''),
                                     uFragment := []\<rparr>))"

definition TargetsEqual :: "string \<Rightarrow> string \<Rightarrow> bool" where
  "TargetsEqual a b \<longleftrightarrow> normalizeTarget a = normalizeTarget b"

section \<open>Lookup facts\<close>

lemma FindByToken_Some: "FindByToken rs tok = Some r \<Longrightarrow> r \<in> set rs \<and> rsToken r = tok \<and> tok \<noteq> []"
  by (auto simp: FindByToken_def find_Some_iff split: if_splits)

lemma FindByToken_None_iff: "FindByToken rs tok = None \<longleftrightarrow> tok = [] \<or> (\<forall>r \<in> set rs. rsToken r \<noteq> tok)"
  by (auto simp: FindByToken_def find_None_iff)

lemma FindByFrontendName_Some:
  "FindByFrontendName rs n = Some r \<Longrightarrow> r \<in> set rs \<and> MatchesFrontendName r n \<and> n \<noteq> []"
  by (auto simp: FindByFrontendName_def find_Some_iff split: if_splits)

lemma FindByFrontendName_None_iff:
  "FindByFrontendName rs n = None \<longleftrightarrow> n = [] \<or> (\<forall>r \<in> set rs. \<not> MatchesFrontendName r n)"
  by (auto simp: FindByFrontendName_def find_None_iff)

lemma MatchesFrontendName_iff:
  "MatchesFrontendName s name \<longleftrightarrow>
   (\<exists>ep \<in> set (rsFrontendEndpoints s). FrontendEndpointMatchesName ep name)"
  by (auto simp: MatchesFrontendName_def list_ex_iff)

lemma TargetsEqual_refl [simp]: "TargetsEqual a a"
  by (simp add: TargetsEqual_def)

lemma TargetsEqual_sym: "TargetsEqual a b \<longleftrightarrow> TargetsEqual b a"
  by (auto simp: TargetsEqual_def)

lemma TargetsEqual_trans: "TargetsEqual a b \<Longrightarrow> TargetsEqual b c \<Longrightarrow> TargetsEqual a c"
  by (simp add: TargetsEqual_def)

lemma frontendHost_Nil [simp]: "frontendHost [] = []"
  by (simp add: frontendHost_def TrimSpace_def TrimPrefix_def HasPrefix_def ToLower_def cut_at_def)

text \<open>The name matcher and the name extractor agree on DNS labels.\<close>

lemma take_IndexByte: "IndexByte s c = Some i \<Longrightarrow> take i s = takeWhile (\<lambda>x. x \<noteq> c) s \<and> c \<in> set s"
proof -
  assume "IndexByte s c = Some i"
  then have "take i s = cut_at s c" by (simp add: cut_at_def)
  moreover have "c \<in> set s" using \<open>IndexByte s c = Some i\<close> IndexByte_None_iff [of s c] by auto
  ultimately show ?thesis by (simp add: cut_at_eq)
qed

lemma prefix_label_iff:
  assumes "CHR ''.'' \<notin> set n"
  shows "HasPrefix h (n @ ''.'') \<longleftrightarrow>
         takeWhile (\<lambda>x. x \<noteq> CHR ''.'') h = n \<and> CHR ''.'' \<in> set h"
proof
  assume "HasPrefix h (n @ ''.'')"
  then obtain t where "h = n @ CHR ''.'' # t" by (auto elim: HasPrefixE)
  then show "takeWhile (\<lambda>x. x \<noteq> CHR ''.'') h = n \<and> CHR ''.'' \<in> set h"
    using assms by (auto simp: takeWhile_append)
next
  assume a: "takeWhile (\<lambda>x. x \<noteq> CHR ''.'') h = n \<and> CHR ''.'' \<in> set h"
  then obtain t where "h = n @ CHR ''.'' # t" using split_at_first by metis
  then have "h = (n @ ''.'') @ t" by simp
  then show "HasPrefix h (n @ ''.'')" by (simp only: HasPrefix_append)
qed

lemma lower_char_dot: "lower_char c = CHR ''.'' \<longleftrightarrow> c = CHR ''.''"
proof
  assume a: "lower_char c = CHR ''.''"
  show "c = CHR ''.''"
  proof (cases "of_char c \<ge> (65::nat) \<and> of_char c \<le> (90::nat)")
    case True
    then have "of_char (lower_char c) = of_char c + (32::nat)" by (simp add: lower_char_def of_char_of)
    then show ?thesis using a True by simp
  next
    case False
    then show ?thesis using a by (auto simp: lower_char_def split: if_splits)
  qed
qed (simp add: lower_char_def)

lemma dot_in_ToLower [simp]: "CHR ''.'' \<in> set (ToLower s) \<longleftrightarrow> CHR ''.'' \<in> set s"
proof (induction s)
  case Nil
  then show ?case by (simp add: ToLower_def)
next
  case (Cons c s)
  have "ToLower (c # s) = lower_char c # ToLower s" by (simp add: ToLower_def)
  then show ?case using Cons lower_char_dot [of c] by (metis set_ConsD list.set_intros)
qed

lemma FrontendNameFromEndpoint_eq:
  "FrontendNameFromEndpoint ep =
     (if takeWhile (\<lambda>x. x \<noteq> CHR ''.'') (frontendHost ep) = [] then frontendHost ep
      else takeWhile (\<lambda>x. x \<noteq> CHR ''.'') (frontendHost ep))"
proof -
  define h where "h = frontendHost ep"
  show ?thesis
  proof (cases "IndexByte h (CHR ''.'')")
    case None
    then have "CHR ''.'' \<notin> set h" by (simp add: IndexByte_None_iff)
    then have "takeWhile (\<lambda>x. x \<noteq> CHR ''.'') h = h" by (rule takeWhile_absent)
    moreover have "FrontendNameFromEndpoint ep = h"
      using None by (simp add: FrontendNameFromEndpoint_def h_def [symmetric])
    ultimately show ?thesis by (metis h_def)
  next
    case (Some i)
    then have t: "take i h = takeWhile (\<lambda>x. x \<noteq> CHR ''.'') h" "CHR ''.'' \<in> set h"
      using take_IndexByte by auto
    have ne: "h \<noteq> []" using t(2) by auto
    then have "(take i h = []) = (i = 0)" by simp
    then have z: "(takeWhile (\<lambda>x. x \<noteq> CHR ''.'') h = []) = (i = 0)" by (simp only: t(1))
    show ?thesis
      using Some ne by (simp add: FrontendNameFromEndpoint_def h_def [symmetric] z t(1) [symmetric])
  qed
qed

lemma matcher_agrees_with_extractor:
  assumes "n \<noteq> []" and "CHR ''.'' \<notin> set n"
  shows "FrontendEndpointMatchesName ep n \<longleftrightarrow>
         FrontendNameFromEndpoint ep = ToLower n \<and> CHR ''.'' \<in> set (frontendHost ep)"
proof -
  have n: "CHR ''.'' \<notin> set (ToLower n)" "ToLower n \<noteq> []" using assms by simp_all
  show ?thesis
  proof (cases "ep = []")
    case True
    then show ?thesis by (simp add: FrontendEndpointMatchesName_def)
  next
    case False
    have "takeWhile (\<lambda>x. x \<noteq> CHR ''.'') (frontendHost ep) = [] \<Longrightarrow> frontendHost ep \<noteq> ToLower n"
      using takeWhile_absent [OF n(1)] n(2) by metis
    then show ?thesis
      using False assms n prefix_label_iff [OF n(1), of "frontendHost ep"]
      by (auto simp: FrontendEndpointMatchesName_def FrontendNameFromEndpoint_eq)
  qed
qed

end
