(* ===== verification/ShareInventory.thy ===== *)
theory ShareInventory
  imports RemoteShares
begin

text \<open>
  \<open>internal/controller/share_inventory.go\<close>: one reconcile's view of the shares that exist
  remotely and in the agent, and the classification of what a ZrokShare's reserved name and
  status token stand for in it. This is where the operator decides what is its own.
\<close>

section \<open>The inventory\<close>

text \<open>
  \<open>invRemote\<close> is \<open>None\<close> for the nil slice, which deletion tells from an empty one. The agent's
  elements are pointers.
\<close>

record shareInventory =
  invRemote :: "RemoteShare list option"
  invAgent :: "ShareDetail option list"

abbreviation empty_inventory :: shareInventory where
  "empty_inventory \<equiv> \<lparr>invRemote = None, invAgent = []\<rparr>"

record classifiedShare =
  clsRemote :: "RemoteShare option"
  clsAgent :: "ShareDetail option"
  foreignName :: bool

definition remotes :: "shareInventory \<Rightarrow> RemoteShare list" where
  "remotes iv = (case invRemote iv of None \<Rightarrow> [] | Some rs \<Rightarrow> rs)"

definition agents :: "shareInventory \<Rightarrow> ShareDetail list" where
  \<comment> \<open>the loops over the agent's shares skip nil elements\<close>
  "agents iv = List.map_filter id (invAgent iv)"

definition isAgentShareActive :: "ShareDetail \<Rightarrow> bool" where
  "isAgentShareActive s \<longleftrightarrow> sdStatus s = [] \<or> sdStatus s = ''active''"

definition remoteByToken :: "shareInventory \<Rightarrow> string \<Rightarrow> RemoteShare option" where
  "remoteByToken iv token = FindByToken (remotes iv) token"

definition remoteByName :: "shareInventory \<Rightarrow> string \<Rightarrow> RemoteShare option" where
  "remoteByName iv name = FindByFrontendName (remotes iv) name"

definition agentByToken :: "shareInventory \<Rightarrow> string \<Rightarrow> ShareDetail option" where
  "agentByToken iv token =
     (if token = [] then None else List.find (\<lambda>s. sdToken s = token) (agents iv))"

definition agentByName :: "shareInventory \<Rightarrow> string \<Rightarrow> ShareDetail option" where
  "agentByName iv name =
     (if name = [] then None
      else List.find (\<lambda>s. isAgentShareActive s \<and>
                 list_ex (\<lambda>ep. FrontendEndpointMatchesName ep name) (sdFrontendEndpoint s))
               (agents iv))"

section \<open>Names and classification\<close>

definition reservedFrontendName :: "ZrokShare \<Rightarrow> string" where
  "reservedFrontendName share =
     (case shNameSelection (ShareSpec share) of None \<Rightarrow> [] | Some ns \<Rightarrow> nsName ns)"

definition nameNamespaceToken :: "ZrokShare \<Rightarrow> string" where
  "nameNamespaceToken share =
     (case shNameSelection (ShareSpec share) of
        None \<Rightarrow> []
      | Some ns \<Rightarrow> if nsNamespace ns = [] then DefaultNamespaceToken else nsNamespace ns)"

definition classifyShare :: "ZrokShare \<Rightarrow> string \<Rightarrow> shareInventory \<Rightarrow> classifiedShare" where
  "classifyShare share desiredTarget iv =
     (let name = reservedFrontendName share;
          tok = shShareToken (ShareStatus share);
          remote = (if tok \<noteq> [] then remoteByToken iv tok else None);
          agent = (if tok \<noteq> [] then agentByToken iv tok else None);
          remote = (if remote = None \<and> name \<noteq> [] then remoteByName iv name else remote);
          agent = (if agent = None \<and> name \<noteq> [] then agentByName iv name else agent);
          priv = shPrivateShareToken (ShareSpec share);
          remote = (if remote = None \<and> priv \<noteq> [] then remoteByToken iv priv else remote);
          cls = \<lparr>clsRemote = remote, clsAgent = agent, foreignName = False\<rparr>
      in if name = [] then cls
         else case remoteByName iv name of
                None \<Rightarrow> cls
              | Some holder \<Rightarrow>
                  if TargetsEqual (rsTarget holder) desiredTarget then cls
                  else if shShareToken (ShareStatus share) = rsToken holder then cls
                  else cls\<lparr>foreignName := True, clsRemote := Some holder\<rparr>)"

definition agentTargetOK :: "ShareDetail \<Rightarrow> string \<Rightarrow> bool" where
  "agentTargetOK s desiredTarget =
     (if desiredTarget = [] then False
      else let be = sdBackendEndpoint s in
           if be = [] then False else TargetsEqual be desiredTarget)"

definition isOurShareToken :: "ZrokShare \<Rightarrow> string \<Rightarrow> shareInventory \<Rightarrow> bool" where
  "isOurShareToken share token iv =
     (if token = [] then False
      else if shShareToken (ShareStatus share) = token then True
      else case remoteByToken iv token of
             Some rem \<Rightarrow> TargetsEqual (rsTarget rem) (shUpstreamURL (ShareSpec share))
           | None \<Rightarrow> agentByToken iv token \<noteq> None)"

definition otherShareWithFrontendName :: "ZrokShare \<Rightarrow> ZrokShare list \<Rightarrow> ZrokShare option" where
  "otherShareWithFrontendName self all_shares =
     (let name = reservedFrontendName self in
      if name = [] then None
      else List.find
             (\<lambda>o'. \<not> (Name o' = Name self \<and> Namespace o' = Namespace self)
                  \<and> DeletionTimestamp o' = None \<and> reservedFrontendName o' = name)
             all_shares)"

section \<open>Lookup facts\<close>

lemma set_agents: "d \<in> set (agents iv) \<longleftrightarrow> Some d \<in> set (invAgent iv)"
  by (force simp: agents_def List.map_filter_def)

lemma remoteByToken_Some:
  "remoteByToken iv t = Some r \<Longrightarrow> r \<in> set (remotes iv) \<and> rsToken r = t \<and> t \<noteq> []"
  unfolding remoteByToken_def by (rule FindByToken_Some)

lemma remoteByName_Some:
  "remoteByName iv n = Some r \<Longrightarrow> r \<in> set (remotes iv) \<and> MatchesFrontendName r n \<and> n \<noteq> []"
  unfolding remoteByName_def by (rule FindByFrontendName_Some)

lemma remoteByToken_Nil [simp]: "remoteByToken iv [] = None"
  by (simp add: remoteByToken_def FindByToken_def)

lemma remoteByName_Nil [simp]: "remoteByName iv [] = None"
  by (simp add: remoteByName_def FindByFrontendName_def)

lemma agentByToken_Nil [simp]: "agentByToken iv [] = None"
  by (simp add: agentByToken_def)

lemma agentByName_Nil [simp]: "agentByName iv [] = None"
  by (simp add: agentByName_def)

lemma agentByToken_Some:
  "agentByToken iv t = Some d \<Longrightarrow> Some d \<in> set (invAgent iv) \<and> sdToken d = t \<and> t \<noteq> []"
  by (auto simp: agentByToken_def set_agents [symmetric] split: if_splits dest!: find_Some_iff_first)

lemma agentByName_Some:
  "agentByName iv n = Some d \<Longrightarrow>
   Some d \<in> set (invAgent iv) \<and> isAgentShareActive d \<and> n \<noteq> [] \<and>
   (\<exists>ep \<in> set (sdFrontendEndpoint d). FrontendEndpointMatchesName ep n)"
  by (auto simp: agentByName_def set_agents [symmetric] list_ex_iff split: if_splits
           dest!: find_Some_iff_first)

section \<open>What the classification found\<close>

text \<open>
  Outside a name conflict, everything the classification returns is tied to the ZrokShare:
  by its status token, by its private token, or by its reserved name with a target equal
  to the desired one.
\<close>

definition remote_tied :: "ZrokShare \<Rightarrow> string \<Rightarrow> RemoteShare \<Rightarrow> bool" where
  "remote_tied share desired r \<longleftrightarrow>
     rsToken r = shShareToken (ShareStatus share) \<or>
     rsToken r = shPrivateShareToken (ShareSpec share) \<or>
     (MatchesFrontendName r (reservedFrontendName share) \<and> TargetsEqual (rsTarget r) desired)"

definition agent_tied :: "ZrokShare \<Rightarrow> ShareDetail \<Rightarrow> bool" where
  "agent_tied share d \<longleftrightarrow>
     sdToken d = shShareToken (ShareStatus share) \<or>
     (isAgentShareActive d \<and>
      list_ex (\<lambda>ep. FrontendEndpointMatchesName ep (reservedFrontendName share))
        (sdFrontendEndpoint d))"

lemma classify_remote_mem:
  "clsRemote (classifyShare share desired iv) = Some r \<Longrightarrow> r \<in> set (remotes iv)"
  by (auto simp: classifyShare_def Let_def split: if_splits option.splits
           dest!: remoteByToken_Some remoteByName_Some)

lemma classify_agent_mem:
  "clsAgent (classifyShare share desired iv) = Some d \<Longrightarrow>
   Some d \<in> set (invAgent iv) \<and> agent_tied share d"
  by (auto simp: classifyShare_def Let_def agent_tied_def list_ex_iff split: if_splits option.splits
           dest!: agentByToken_Some agentByName_Some)

lemma classify_remote_tied:
  assumes "clsRemote (classifyShare share desired iv) = Some r"
    and "\<not> foreignName (classifyShare share desired iv)"
  shows "remote_tied share desired r"
proof -
  let ?n = "reservedFrontendName share" and ?t = "shShareToken (ShareStatus share)"
    and ?p = "shPrivateShareToken (ShareSpec share)"
  have "(?t \<noteq> [] \<and> remoteByToken iv ?t = Some r) \<or>
        (?n \<noteq> [] \<and> remoteByName iv ?n = Some r) \<or> remoteByToken iv ?p = Some r"
    using assms by (auto simp: classifyShare_def Let_def split: if_splits option.splits)
  moreover have "remoteByName iv ?n = Some r \<Longrightarrow> TargetsEqual (rsTarget r) desired \<or> ?t = rsToken r"
    using assms by (auto simp: classifyShare_def Let_def split: if_splits option.splits)
  ultimately show ?thesis
    by (auto simp: remote_tied_def dest!: remoteByToken_Some dest: remoteByName_Some)
qed

lemma classify_foreign:
  "foreignName (classifyShare share desired iv) \<longleftrightarrow>
   (\<exists>holder. remoteByName iv (reservedFrontendName share) = Some holder
      \<and> \<not> TargetsEqual (rsTarget holder) desired
      \<and> rsToken holder \<noteq> shShareToken (ShareStatus share))"
  by (cases "reservedFrontendName share = []")
     (auto simp: classifyShare_def Let_def split: option.splits)

lemma classify_foreign_remote:
  "foreignName (classifyShare share desired iv) \<Longrightarrow>
   clsRemote (classifyShare share desired iv) = remoteByName iv (reservedFrontendName share)"
  by (cases "reservedFrontendName share = []")
     (auto simp: classifyShare_def Let_def split: option.splits if_splits)

lemma otherShare_Some:
  "otherShareWithFrontendName self xs = Some o' \<Longrightarrow>
   o' \<in> set xs \<and> \<not> (Name o' = Name self \<and> Namespace o' = Namespace self)
   \<and> DeletionTimestamp o' = None
   \<and> reservedFrontendName o' = reservedFrontendName self \<and> reservedFrontendName self \<noteq> []"
  by (auto simp: otherShareWithFrontendName_def Let_def split: if_splits dest!: find_Some_iff_first)

lemma otherShare_None_iff:
  "otherShareWithFrontendName self xs = None \<longleftrightarrow>
   reservedFrontendName self = [] \<or>
   (\<forall>o' \<in> set xs. Name o' = Name self \<and> Namespace o' = Namespace self
      \<or> DeletionTimestamp o' \<noteq> None \<or> reservedFrontendName o' \<noteq> reservedFrontendName self)"
  by (auto simp: otherShareWithFrontendName_def Let_def find_None_iff)

text \<open>Two live shares that claim the same name block each other: neither takes precedence.\<close>

lemma claimants_exclude_each_other:
  assumes "s1 \<in> set xs" and "s2 \<in> set xs" and "Name s1 \<noteq> Name s2 \<or> Namespace s1 \<noteq> Namespace s2"
    and "DeletionTimestamp s1 = None" and "DeletionTimestamp s2 = None"
    and "reservedFrontendName s1 = reservedFrontendName s2" and "reservedFrontendName s1 \<noteq> []"
  shows "otherShareWithFrontendName s1 xs \<noteq> None" and "otherShareWithFrontendName s2 xs \<noteq> None"
  unfolding otherShare_None_iff using assms by metis+

end
