(* ===== verification/Sha256.thy ===== *)
theory Sha256
  imports Prelude "HOL-Library.Word"
begin

text \<open>
  \<open>crypto/sha256\<close> and \<open>encoding/hex\<close> of the Go standard library, as far as the share digest
  uses them: SHA-256 on 32-bit words (FIPS 180-4), on strings of bytes.
\<close>

unbundle bit_operations_syntax

type_synonym w32 = "32 word"

section \<open>The compression function\<close>

definition rotr :: "nat \<Rightarrow> w32 \<Rightarrow> w32" where
  "rotr n x = drop_bit n x OR push_bit (32 - n) x"

definition big_sigma0 :: "w32 \<Rightarrow> w32" where
  "big_sigma0 x = rotr 2 x XOR rotr 13 x XOR rotr 22 x"
definition big_sigma1 :: "w32 \<Rightarrow> w32" where
  "big_sigma1 x = rotr 6 x XOR rotr 11 x XOR rotr 25 x"
definition small_sigma0 :: "w32 \<Rightarrow> w32" where
  "small_sigma0 x = rotr 7 x XOR rotr 18 x XOR drop_bit 3 x"
definition small_sigma1 :: "w32 \<Rightarrow> w32" where
  "small_sigma1 x = rotr 17 x XOR rotr 19 x XOR drop_bit 10 x"

text \<open>
  The constants are the first 32 bits of the fractional parts of the cube roots of the first
  64 primes, and the initial state the same of the square roots of the first eight.
\<close>

primrec root_bits :: "nat \<Rightarrow> nat \<Rightarrow> nat \<Rightarrow> nat \<Rightarrow> nat" where
  \<comment> \<open>the integer \<open>k\<close>-th root of \<open>n\<close>, bit by bit from the top\<close>
  "root_bits k n 0 acc = acc"
| "root_bits k n (Suc b) acc =
     root_bits k n b (if (acc + 2 ^ b) ^ k \<le> n then acc + 2 ^ b else acc)"

definition root_fraction :: "nat \<Rightarrow> nat \<Rightarrow> w32" where
  "root_fraction k p = of_nat (root_bits k (p * 2 ^ (32 * k)) 36 0)"

definition primes_below :: "nat \<Rightarrow> nat list" where
  "primes_below n = filter (\<lambda>p. list_all (\<lambda>d. p mod d \<noteq> 0) [2..<p]) [2..<n]"

definition round_constants :: "w32 list" where
  "round_constants = map (root_fraction 3) (primes_below 312)"

datatype sha_state = H w32 w32 w32 w32 w32 w32 w32 w32

fun state_of_words :: "w32 list \<Rightarrow> sha_state" where
  "state_of_words [a, b, c, d, e, f, g, h] = H a b c d e f g h"
| "state_of_words _ = H 0 0 0 0 0 0 0 0"

definition sha_init :: sha_state where
  "sha_init = state_of_words (map (root_fraction 2) (primes_below 20))"

fun sha_round :: "sha_state \<Rightarrow> w32 \<times> w32 \<Rightarrow> sha_state" where
  "sha_round (H a b c d e f g h) (k, w) =
     (let t1 = h + big_sigma1 e + ((e AND f) XOR (NOT e AND g)) + k + w;
          t2 = big_sigma0 a + ((a AND b) XOR (a AND c) XOR (b AND c))
      in H (t1 + t2) a b c (d + t1) e f g)"

primrec schedule :: "nat \<Rightarrow> w32 list \<Rightarrow> w32 list" where
  \<comment> \<open>the message schedule, newest word first\<close>
  "schedule 0 ws = ws"
| "schedule (Suc n) ws =
     schedule n ((small_sigma1 (ws ! 1) + ws ! 6 + small_sigma0 (ws ! 14) + ws ! 15) # ws)"

fun sha_add :: "sha_state \<Rightarrow> sha_state \<Rightarrow> sha_state" where
  "sha_add (H a b c d e f g h) (H a' b' c' d' e' f' g' h') =
     H (a + a') (b + b') (c + c') (d + d') (e + e') (f + f') (g + g') (h + h')"

definition sha_block :: "sha_state \<Rightarrow> w32 list \<Rightarrow> sha_state" where
  "sha_block s block = sha_add s (foldl sha_round s (zip round_constants (rev (schedule 48 (rev block)))))"

section \<open>Padding and output\<close>

definition be_bytes :: "nat \<Rightarrow> nat \<Rightarrow> nat list" where
  \<comment> \<open>\<open>n\<close> in \<open>k\<close> bytes, big-endian\<close>
  "be_bytes k n = map (\<lambda>i. (n div 256 ^ i) mod 256) (rev [0..<k])"

definition sha_pad :: "nat list \<Rightarrow> nat list" where
  "sha_pad bs =
     (let n = length bs; zeros = (119 - n mod 64) mod 64
      in bs @ [128] @ replicate zeros 0 @ be_bytes 8 (8 * n))"

fun be_words :: "nat list \<Rightarrow> w32 list" where
  "be_words (a # b # c # d # bs) =
     of_nat (((a * 256 + b) * 256 + c) * 256 + d) # be_words bs"
| "be_words _ = []"

function blocks_of :: "w32 list \<Rightarrow> w32 list list" where
  "blocks_of ws = (if ws = [] then [] else take 16 ws # blocks_of (drop 16 ws))"
  by auto
termination by (relation "measure length") auto

declare blocks_of.simps [simp del]

fun state_words :: "sha_state \<Rightarrow> w32 list" where
  "state_words (H a b c d e f g h) = [a, b, c, d, e, f, g, h]"

definition Sum256 :: "nat list \<Rightarrow> nat list" where
  "Sum256 bs =
     concat (map (\<lambda>w. be_bytes 4 (unat w))
       (state_words (foldl sha_block sha_init (blocks_of (be_words (sha_pad bs))))))"

definition hextable :: "nat \<Rightarrow> char" where
  "hextable n = (if n < 10 then char_of (48 + n) else char_of (87 + n))"

definition EncodeToString :: "nat list \<Rightarrow> string" where
  "EncodeToString bs = concat (map (\<lambda>b. [hextable (b div 16), hextable (b mod 16)]) bs)"

section \<open>Shape\<close>

lemma length_be_bytes [simp]: "length (be_bytes k n) = k"
  by (simp add: be_bytes_def)

lemma length_Sum256: "length (Sum256 bs) = 32"
proof -
  obtain a b c d e f g h where
    "foldl sha_block sha_init (blocks_of (be_words (sha_pad bs))) = H a b c d e f g h"
    by (metis sha_state.exhaust)
  then show ?thesis by (simp add: Sum256_def)
qed

lemma length_EncodeToString: "length (EncodeToString bs) = 2 * length bs"
  by (induction bs) (auto simp: EncodeToString_def)

lemma pad_zeros: "(119 - r) mod 64 = (if r \<le> 55 then 55 - r else 119 - r)" if "r < 64" for r :: nat
proof (cases "r \<le> 55")
  case True
  then have e: "119 - r = 64 + (55 - r)" by simp
  have "(64 + (55 - r)) mod 64 = (55 - r) mod 64" by (rule mod_add_self1)
  then show ?thesis unfolding e using True by simp
next
  case False
  then show ?thesis by simp
qed

lemma length_sha_pad: "64 dvd length (sha_pad bs)"
proof -
  let ?r = "length bs mod 64"
  have r: "?r < 64" by simp
  have l: "length bs = 64 * (length bs div 64) + ?r" by simp
  define q where "q = length bs div 64"
  have "length (sha_pad bs) = length bs + 9 + (119 - ?r) mod 64"
    by (simp add: sha_pad_def Let_def)
  also have "\<dots> = 64 * q + ?r + 9 + (119 - ?r) mod 64"
    unfolding q_def using l by linarith
  also have "\<dots> = 64 * q + (if ?r \<le> 55 then 64 else 128)"
    using r unfolding pad_zeros [OF r] by (cases "?r \<le> 55") auto
  finally show ?thesis by simp
qed

end
