(* ===== verification/ShareApply.thy ===== *)
theory ShareApply
  imports ShareInventory Sha256 "HOL-Library.List_Lexorder" "HOL-Library.Char_ord" "HOL-Library.Multiset"
begin

text \<open>
  \<open>internal/controller/share_apply.go\<close>: the digest of what was last applied, and the test
  whether a live agent share already serves the ZrokShare.
\<close>

section \<open>The operations\<close>

abbreviation annotationAppliedDigest :: string where
  "annotationAppliedDigest \<equiv> ''zrok.k8s.zrok.io/applied-digest''"
abbreviation annotationReclaimName :: string where
  "annotationReclaimName \<equiv> ''zrok.k8s.zrok.io/reclaim-name''"

definition desiredShareMode :: "ZrokShare \<Rightarrow> string" where
  "desiredShareMode share =
     (if shShareMode (ShareSpec share) = [] then ShareModePublic else shShareMode (ShareSpec share))"

definition desiredBackendMode :: "ZrokShare \<Rightarrow> string" where
  "desiredBackendMode share =
     (if shBackendMode (ShareSpec share) = [] then BackendModeProxy
      else shBackendMode (ShareSpec share))"

definition agentFrontendMatchesName :: "ShareDetail \<Rightarrow> string \<Rightarrow> bool" where
  "agentFrontendMatchesName d name =
     (if name = [] then False
      else list_ex (\<lambda>ep. FrontendEndpointMatchesName ep name) (sdFrontendEndpoint d))"

definition agentShareMatchesSpec :: "ZrokShare \<Rightarrow> ShareDetail \<Rightarrow> string \<Rightarrow> bool" where
  "agentShareMatchesSpec share d desiredTarget =
     (if \<not> isAgentShareActive d \<or> \<not> agentTargetOK d desiredTarget then False
      else if sdShareMode d \<noteq> [] \<and> \<not> EqualFold (sdShareMode d) (desiredShareMode share) then False
      else if sdBackendMode d \<noteq> [] \<and> \<not> EqualFold (sdBackendMode d) (desiredBackendMode share)
      then False
      else if sdClosed d \<noteq> shClosed (ShareSpec share) then False
      else if shPrivateShareToken (ShareSpec share) \<noteq> []
              \<and> sdToken d \<noteq> shPrivateShareToken (ShareSpec share) then False
      else let name = reservedFrontendName share in
           if name = [] then shReservation (ShareStatus share) \<noteq> ReservationReserved
           else agentFrontendMatchesName d name)"

definition liveFrontendName :: "ZrokShare \<Rightarrow> classifiedShare \<Rightarrow> string" where
  "liveFrontendName share cls =
     (let a = (case clsAgent cls of Some d \<Rightarrow> FrontendNameFromEndpoints (sdFrontendEndpoint d)
               | None \<Rightarrow> []) in
      if a \<noteq> [] then a
      else let r = (case clsRemote cls of Some rem \<Rightarrow> FrontendNameFromEndpoints (rsFrontendEndpoints rem)
                    | None \<Rightarrow> []) in
           if r \<noteq> [] then r else FrontendNameFromEndpoint (shAssignedURL (ShareStatus share)))"

definition line :: "string \<Rightarrow> string \<Rightarrow> string" where
  \<comment> \<open>\<open>fmt.Fprintf(&b, "<key>=%s\n", v)\<close>\<close>
  "line k v = k @ ''='' @ v @ [CHR 0x0A]"

definition digestInput :: "ZrokShare \<Rightarrow> string list \<Rightarrow> string" where
  \<comment> \<open>the contents of the builder\<close>
  "digestInput share basicAuth =
     (let spec = ShareSpec share in
      line ''env'' (shEnvironmentRef spec)
      @ line ''mode'' (desiredShareMode share)
      @ line ''backend'' (desiredBackendMode share)
      @ line ''up'' (shUpstreamURL spec)
      @ line ''name'' (nameNamespaceToken share @ ''/'' @ reservedFrontendName share)
      @ line ''priv'' (shPrivateShareToken spec)
      @ line ''insecure'' (fmt_t (shInsecure spec)) @ line ''closed'' (fmt_t (shClosed spec))
      @ concat (map (line ''grant'') (sort (shAccessGrants spec)))
      @ (case shBasicAuthSecretRef spec of Some ref \<Rightarrow> line ''ba-secret'' ref | None \<Rightarrow> [])
      @ concat (map (line ''ba'') basicAuth)
      @ (case shOAuth spec of
           Some oa \<Rightarrow> line ''oauth'' (oaProvider oa) @ line ''interval'' (oaRefreshInterval oa)
                     @ concat (map (line ''oauth-domain'') (sort (oaEmailDomains oa)))
         | None \<Rightarrow> []))"

definition shareApplyDigest :: "ZrokShare \<Rightarrow> string list \<Rightarrow> string" where
  "shareApplyDigest share basicAuth =
     (let sum = Sum256 (map of_char (digestInput share basicAuth))
      in EncodeToString (take 16 sum))"

definition shareDigestDrifted :: "ZrokShare \<Rightarrow> string \<Rightarrow> bool" where
  "shareDigestDrifted share digest =
     (let applied = lookup_str (Annotations share) annotationAppliedDigest in
      if applied = [] then False else applied \<noteq> digest)"

definition adoptableAgentShare ::
  "ZrokShare \<Rightarrow> classifiedShare \<Rightarrow> string \<Rightarrow> string \<Rightarrow> ShareDetail option" where
  "adoptableAgentShare share cls desiredTarget digest =
     (case clsAgent cls of
        None \<Rightarrow> None
      | Some d \<Rightarrow> if \<not> agentShareMatchesSpec share d desiredTarget \<or> shareDigestDrifted share digest
                  then None else Some d)"

section \<open>Facts\<close>

lemma length_shareApplyDigest: "length (shareApplyDigest share ba) = 32"
  by (simp add: shareApplyDigest_def length_EncodeToString length_Sum256)

lemma sort_mset_cong: "mset xs = mset ys \<Longrightarrow> sort xs = sort (ys :: 'a::linorder list)"
  by (metis mset_sort properties_for_sort sorted_sort)

lemma adoptable_Some_iff:
  "adoptableAgentShare share cls desired digest = Some d \<longleftrightarrow>
   clsAgent cls = Some d \<and> agentShareMatchesSpec share d desired
   \<and> \<not> shareDigestDrifted share digest"
  by (auto simp: adoptableAgentShare_def split: option.splits if_splits)

lemma agentTargetOK_iff:
  "agentTargetOK d desired \<longleftrightarrow>
   desired \<noteq> [] \<and> sdBackendEndpoint d \<noteq> [] \<and> TargetsEqual (sdBackendEndpoint d) desired"
  by (auto simp: agentTargetOK_def Let_def)

lemma agentShareMatchesSpec_iff:
  "agentShareMatchesSpec share d desired \<longleftrightarrow>
   isAgentShareActive d \<and> agentTargetOK d desired
   \<and> (sdShareMode d = [] \<or> EqualFold (sdShareMode d) (desiredShareMode share))
   \<and> (sdBackendMode d = [] \<or> EqualFold (sdBackendMode d) (desiredBackendMode share))
   \<and> sdClosed d = shClosed (ShareSpec share)
   \<and> (shPrivateShareToken (ShareSpec share) = []
       \<or> sdToken d = shPrivateShareToken (ShareSpec share))
   \<and> (if reservedFrontendName share = []
      then shReservation (ShareStatus share) \<noteq> ReservationReserved
      else list_ex (\<lambda>ep. FrontendEndpointMatchesName ep (reservedFrontendName share))
             (sdFrontendEndpoint d))"
  by (simp add: agentShareMatchesSpec_def agentFrontendMatchesName_def Let_def) blast

section \<open>Reading the digest input back\<close>

text \<open>
  The digest input is a list of \<open>key=value\<close> lines. When no field contains a newline, the
  lines can be recovered, so two ZrokShares with the same input agree on every field.
\<close>

definition digestFields :: "ZrokShare \<Rightarrow> string list \<Rightarrow> (string \<times> string) list" where
  "digestFields share basicAuth =
     (let spec = ShareSpec share in
      [(''env'', shEnvironmentRef spec), (''mode'', desiredShareMode share),
       (''backend'', desiredBackendMode share), (''up'', shUpstreamURL spec),
       (''name'', nameNamespaceToken share @ ''/'' @ reservedFrontendName share),
       (''priv'', shPrivateShareToken spec),
       (''insecure'', fmt_t (shInsecure spec)), (''closed'', fmt_t (shClosed spec))]
      @ map (Pair ''grant'') (sort (shAccessGrants spec))
      @ (case shBasicAuthSecretRef spec of Some ref \<Rightarrow> [(''ba-secret'', ref)] | None \<Rightarrow> [])
      @ map (Pair ''ba'') basicAuth
      @ (case shOAuth spec of
           Some oa \<Rightarrow> (''oauth'', oaProvider oa) # (''interval'', oaRefreshInterval oa)
                     # map (Pair ''oauth-domain'') (sort (oaEmailDomains oa))
         | None \<Rightarrow> []))"

definition render :: "(string \<times> string) list \<Rightarrow> string" where
  "render kvs = concat (map (\<lambda>(k, v). line k v) kvs)"

lemma render_simps [simp]:
  "render [] = []" "render ((k, v) # kvs) = line k v @ render kvs"
  "render (xs @ ys) = render xs @ render ys"
  by (simp_all add: render_def)

lemma render_map_Pair: "render (map (Pair k) vs) = concat (map (line k) vs)"
  by (induction vs) auto

lemma digestInput_render: "digestInput share ba = render (digestFields share ba)"
  by (simp add: digestInput_def digestFields_def Let_def render_map_Pair split: option.split)

definition clean_field :: "string \<times> string \<Rightarrow> bool" where
  "clean_field kv \<longleftrightarrow> CHR ''='' \<notin> set (fst kv) \<and> CHR 0x0A \<notin> set (fst kv) \<and> CHR 0x0A \<notin> set (snd kv)"

lemma takeWhile_sep: "c \<notin> set xs \<Longrightarrow> takeWhile (\<lambda>x. x \<noteq> c) (xs @ c # ys) = xs"
  by (induction xs) auto

lemma append_sep_inj:
  assumes "xs @ c # ys = xs' @ c # ys'" and "c \<notin> set xs" and "c \<notin> set xs'"
  shows "xs = xs' \<and> ys = ys'"
proof -
  have "xs = xs'" using assms takeWhile_sep by metis
  then show ?thesis using assms(1) by simp
qed

lemma line_inj:
  assumes "line k v @ r = line k' v' @ r'" and "clean_field (k, v)" and "clean_field (k', v')"
  shows "k = k' \<and> v = v' \<and> r = r'"
proof -
  have "k @ CHR ''='' # (v @ CHR 0x0A # r) = k' @ CHR ''='' # (v' @ CHR 0x0A # r')"
    using assms(1) by (simp add: line_def)
  from append_sep_inj [OF this] have "k = k'" and "v @ CHR 0x0A # r = v' @ CHR 0x0A # r'"
    using assms(2,3) by (auto simp: clean_field_def)
  then show ?thesis using append_sep_inj [of v "CHR 0x0A" r v' r'] assms(2,3)
    by (auto simp: clean_field_def)
qed

lemma render_inj:
  "render xs = render ys \<Longrightarrow> list_all clean_field xs \<Longrightarrow> list_all clean_field ys \<Longrightarrow> xs = ys"
proof (induction xs arbitrary: ys)
  case Nil
  then show ?case by (cases ys) (auto simp: line_def)
next
  case (Cons x xs)
  obtain k v where x: "x = (k, v)" by (cases x)
  show ?case
  proof (cases ys)
    case Nil
    then show ?thesis using Cons.prems(1) x by (simp add: line_def)
  next
    case (Cons y ys')
    obtain k' v' where y: "y = (k', v')" by (cases y)
    have "k = k' \<and> v = v' \<and> render xs = render ys'"
      using Cons.prems Cons x y by (intro line_inj) auto
    then show ?thesis using Cons.IH Cons.prems Cons x y by auto
  qed
qed

definition newline_free :: "ZrokShare \<Rightarrow> string list \<Rightarrow> bool" where
  "newline_free share ba \<longleftrightarrow> list_all (\<lambda>kv. CHR 0x0A \<notin> set (snd kv)) (digestFields share ba)"

lemma digest_keys_clean:
  "newline_free share ba \<Longrightarrow> list_all clean_field (digestFields share ba)"
  unfolding newline_free_def digestFields_def Let_def
  by (auto simp: clean_field_def list_all_iff split: option.splits)

lemma digestInput_fields:
  assumes "digestInput a ba = digestInput b bb" and "newline_free a ba" and "newline_free b bb"
  shows "digestFields a ba = digestFields b bb"
  using assms render_inj [of "digestFields a ba" "digestFields b bb"]
  by (simp add: digestInput_render digest_keys_clean)

definition field_values :: "string \<Rightarrow> (string \<times> string) list \<Rightarrow> string list" where
  "field_values k kvs = map snd (filter (\<lambda>kv. fst kv = k) kvs)"

lemma field_values_simps:
  "field_values k [] = []"
  "field_values k ((k', v) # kvs) = (if k' = k then v # field_values k kvs else field_values k kvs)"
  "field_values k (xs @ ys) = field_values k xs @ field_values k ys"
  "field_values k (map (Pair k') vs) = (if k' = k then vs else [])"
  by (simp_all add: field_values_def) (induction vs; simp)

lemma fmt_t_inj: "fmt_t a = fmt_t b \<longleftrightarrow> a = b"
  by (simp add: fmt_t_def)

end
