(* ===== verification/PlainUrls.thy ===== *)
theory PlainUrls
  imports GoUrl
begin

text \<open>
  How \<open>net/url\<close> reads the URLs the operator builds itself and the ones an operator's user
  normally writes: a scheme, a host of lower-case letters, digits, dashes and dots, an
  optional port and a path of such characters.
\<close>

definition plain_char :: "char \<Rightarrow> bool" where
  "plain_char c \<longleftrightarrow> ((97::nat) \<le> of_char c \<and> of_char c \<le> (122::nat)) \<or> is_digit c
     \<or> c = CHR ''-'' \<or> c = CHR ''.''"

abbreviation plain :: "string \<Rightarrow> bool" where
  "plain \<equiv> list_all plain_char"

definition plain_path :: "string \<Rightarrow> bool" where
  "plain_path p \<longleftrightarrow> (p = [] \<or> hd p = CHR ''/'') \<and> list_all (\<lambda>c. plain_char c \<or> c = CHR ''/'') p"

definition port_suffix :: "string \<Rightarrow> string" where
  "port_suffix p = (if p = [] then [] else CHR '':'' # p)"

lemma plain_not [simp]:
  "\<not> plain_char CHR ''/''" "\<not> plain_char CHR '':''" "\<not> plain_char CHR ''?''" "\<not> plain_char CHR ''#''"
  "\<not> plain_char CHR ''@''" "\<not> plain_char CHR ''%''" "\<not> plain_char CHR ''[''" "\<not> plain_char CHR '']''"
  by (simp_all add: plain_char_def is_digit_def)

lemma plain_char_control: "plain_char c \<Longrightarrow> \<not> of_char c < (32::nat) \<and> of_char c \<noteq> (127::nat)"
  by (auto simp: plain_char_def is_digit_def)

lemma digit_plain: "is_digit c \<Longrightarrow> plain_char c"
  by (simp add: plain_char_def)

lemma plain_lower: "plain_char c \<Longrightarrow> lower_char c = c"
  by (auto simp: plain_char_def is_digit_def lower_char_def)

lemma plain_ToLower: "plain s \<Longrightarrow> ToLower s = s"
  by (induction s) (auto simp: ToLower_def plain_lower)

lemma plain_not_escaped: "plain_char c \<Longrightarrow> \<not> shouldEscape c mode"
  by (auto simp: plain_char_def shouldEscape_def is_letter_def)

lemma unescape_id:
  "list_all (\<lambda>c. c \<noteq> CHR ''%'' \<and> \<not> shouldEscape c mode) s \<Longrightarrow> unescape s mode = Inr s"
  by (induction s) auto

lemma escape_id: "list_all (\<lambda>c. \<not> shouldEscape c mode) s \<Longrightarrow> escape s mode = s"
  by (induction s) (auto simp: escape_def escape_char_def)

lemma colon_not_escaped [simp]: "\<not> shouldEscape CHR '':'' encodeHost"
  by (simp add: shouldEscape_def)

lemma slash_not_escaped [simp]: "\<not> shouldEscape CHR ''/'' encodePath"
  by (simp add: shouldEscape_def)

lemma plain_mem: "plain s \<Longrightarrow> c \<in> set s \<Longrightarrow> plain_char c"
  by (auto simp: list_all_iff)

lemma plain_absent:
  "plain s \<Longrightarrow> \<not> plain_char c \<Longrightarrow> c \<notin> set s"
  by (auto simp: list_all_iff)

lemma digits_plain: "list_all is_digit p \<Longrightarrow> plain p"
  by (auto simp: list_all_iff digit_plain)

text \<open>The authority of such a URL is the host and the port as written.\<close>

lemma parseHost_plain:
  assumes "plain h" and "h \<noteq> []" and "list_all is_digit p"
  shows "parseHost (h @ port_suffix p) = Inr (h @ port_suffix p)"
proof -
  obtain c t where h: "h = c # t" using assms(2) by (cases h) auto
  have c: "plain_char c" using assms(1) h by simp
  have "CHR ''['' \<notin> set (t @ port_suffix p)"
    using plain_absent [of t "CHR ''[''"] plain_absent [OF digits_plain [OF assms(3)], of "CHR ''[''"] assms(1) h
    by (simp add: port_suffix_def)
  moreover have "c \<noteq> CHR ''[''" using c by auto
  moreover have "dropWhile (\<lambda>x. x \<noteq> CHR '':'') (h @ port_suffix p) = port_suffix p"
    using plain_absent [OF assms(1), of "CHR '':''"]
    by (simp add: port_suffix_def dropWhile_absent dropWhile_stop)
  moreover have "validOptionalPort (port_suffix p)"
    using assms(3) by (simp add: validOptionalPort_def port_suffix_def)
  moreover have "unescape (h @ port_suffix p) encodeHost = Inr (h @ port_suffix p)"
  proof (rule unescape_id)
    have "list_all (\<lambda>c. c \<noteq> CHR ''%'' \<and> \<not> shouldEscape c encodeHost) s" if "plain s" for s
      using that by (rule list.pred_mono_strong) (metis plain_not(6) plain_not_escaped)
    then show "list_all (\<lambda>c. c \<noteq> CHR ''%'' \<and> \<not> shouldEscape c encodeHost) (h @ port_suffix p)"
      using assms(1) digits_plain [OF assms(3)] by (simp add: port_suffix_def)
  qed
  ultimately show ?thesis by (simp add: parseHost_def h)
qed

lemma parseAuthority_plain:
  assumes "plain h" and "h \<noteq> []" and "list_all is_digit p"
  shows "parseAuthority (h @ port_suffix p) = Inr (None, h @ port_suffix p)"
proof -
  have "CHR ''@'' \<notin> set (h @ port_suffix p)"
    using plain_absent [OF assms(1), of "CHR ''@''"] plain_absent [OF digits_plain [OF assms(3)], of "CHR ''@''"]
    by (simp add: port_suffix_def)
  then show ?thesis by (simp add: parseAuthority_def cut_last_def parseHost_plain [OF assms])
qed

lemma set_path_plain:
  assumes "plain_path path"
  shows "set_path u path = Inr (u\<lparr>uPath := path, uRawPath := []\<rparr>)"
proof -
  have c: "c \<noteq> CHR ''%'' \<and> \<not> shouldEscape c encodePath" if "plain_char c \<or> c = CHR ''/''" for c
    using that plain_not_escaped [of c encodePath] plain_not(6) by (cases "c = CHR ''/''") auto
  have "list_all (\<lambda>c. c \<noteq> CHR ''%'' \<and> \<not> shouldEscape c encodePath) path"
    using assms c unfolding plain_path_def by (elim conjE list.pred_mono_strong) blast
  moreover have "list_all (\<lambda>c. \<not> shouldEscape c encodePath) path"
    using calculation by (rule list.pred_mono_strong) blast
  ultimately have "unescape path encodePath = Inr path" and "escape path encodePath = path"
    by (simp_all only: unescape_id escape_id)
  then show ?thesis by (simp add: set_path_def)
qed

lemma cut_query_none:
  assumes "CHR ''?'' \<notin> set s"
  shows "cut_query s = (s, False, [])"
proof -
  have "s = [] \<or> last s \<noteq> CHR ''?''" using assms last_in_set by metis
  then show ?thesis
    using assms IndexByte_None_iff [of s "CHR ''?''"] by (auto simp: cut_query_def)
qed

text \<open>\<open>url.Parse\<close> on such a URL.\<close>

definition plain_url :: "string \<Rightarrow> string \<Rightarrow> string \<Rightarrow> string \<Rightarrow> URL" where
  "plain_url scheme h p path =
     empty_url\<lparr>uScheme := scheme, uHost := h @ port_suffix p, uPath := path\<rparr>"

lemma parse_after_scheme_plain:
  assumes "plain h" and "h \<noteq> []" and "list_all is_digit p" and "plain_path path"
    and "scheme \<noteq> []" and "ToLower scheme = scheme"
  shows "parse_after_scheme scheme (''//'' @ h @ port_suffix p @ path) = Inr (plain_url scheme h p path)"
proof -
  let ?a = "h @ port_suffix p"
  have chars: "c \<notin> set ?a" if "\<not> plain_char c" "c \<noteq> CHR '':''" for c
    using that plain_absent [OF assms(1)] plain_absent [OF digits_plain [OF assms(3)]]
    by (simp add: port_suffix_def)
  have "CHR ''?'' \<notin> set path"
    using assms(4) by (auto simp: plain_path_def list_all_iff)
  then have q: "CHR ''?'' \<notin> set (''//'' @ ?a @ path)" using chars by simp
  then have "cut_query (''//'' @ ?a @ path) = (''//'' @ ?a @ path, False, [])"
    by (rule cut_query_none)
  moreover have "cut_at (?a @ path) (CHR ''/'') = ?a"
  proof (cases path)
    case Nil
    then show ?thesis using chars [of "CHR ''/''"] by (simp add: cut_at_eq takeWhile_absent)
  next
    case (Cons c t)
    then have "path = CHR ''/'' # t" using assms(4) by (simp add: plain_path_def)
    then show ?thesis using chars [of "CHR ''/''"] takeWhile_stop [of "CHR ''/''" ?a t]
      by (simp add: cut_at_eq)
  qed
  ultimately show ?thesis
    using assms(5,6) parseAuthority_plain [OF assms(1-3)] set_path_plain [OF assms(4)]
    by (simp add: parse_after_scheme_def HasPrefix_def Let_def plain_url_def empty_url_def)
qed

lemma url_Parse_plain:
  assumes "plain h" and "h \<noteq> []" and "list_all is_digit p" and "plain_path path"
    and "scheme \<in> {''http'', ''https'', ''tcp'', ''udp''}"
  shows "url_Parse (scheme @ ''://'' @ h @ port_suffix p @ path) = Inr (plain_url scheme h p path)"
proof -
  let ?r = "''//'' @ h @ port_suffix p @ path"
  let ?raw = "scheme @ '':'' @ ?r"
  have rest: "plain_char c \<or> c = CHR ''/'' \<or> c = CHR '':''" if "c \<in> set ?r" for c
    using that assms(1,4) digits_plain [OF assms(3)]
    by (auto simp: port_suffix_def plain_path_def list_all_iff split: if_splits)
  have sch: "plain_char c" if "c \<in> set scheme" for c
    using that assms(5) by (auto simp: plain_char_def)
  have all: "plain_char c \<or> c = CHR ''/'' \<or> c = CHR '':''" if "c \<in> set ?raw" for c
    using that rest sch by auto
  have "CHR ''#'' \<notin> set ?raw" using all [of "CHR ''#''"] by auto
  then have cut: "cut_at ?raw (CHR ''#'') = ?raw" unfolding cut_at_eq by (rule takeWhile_absent)
  have ctl: "\<not> list_ex (\<lambda>c. of_char c < (32::nat) \<or> of_char c = (127::nat)) ?raw"
  proof -
    have "\<not> (of_char c < (32::nat) \<or> of_char c = (127::nat))" if "c \<in> set ?raw" for c
      using all [OF that] plain_char_control [of c] by (elim disjE) simp_all
    then show ?thesis unfolding list_ex_iff by blast
  qed
  have se: "scheme_end 0 ?raw = Some (Inr (length scheme))"
    using assms(5) by (auto simp: is_letter_def is_digit_def)
  have low: "ToLower scheme = scheme" and ne: "scheme \<noteq> []" and star: "?raw \<noteq> ''*''"
    using assms(5) by (auto simp: ToLower_def lower_char_def)
  have "parse_no_fragment ?raw = Inr (plain_url scheme h p path)"
    using ctl se star parse_after_scheme_plain [OF assms(1-4) ne low]
    by (simp add: parse_no_fragment_def)
  then show ?thesis using cut by (simp add: url_Parse_def Let_def)
qed

lemma splitHostPort_plain:
  assumes "plain h" and "list_all is_digit p"
  shows "splitHostPort (h @ port_suffix p) = (h, p)"
proof -
  have h: "CHR '':'' \<notin> set h" and p: "CHR '':'' \<notin> set p"
    using plain_absent assms digits_plain plain_not(2) by blast+
  have "\<not> HasPrefix h ''[''" using assms(1) by (cases h) (auto simp: HasPrefix_def)
  then show ?thesis
  proof (cases "p = []")
    case True
    then show ?thesis using h \<open>\<not> HasPrefix h ''[''\<close>
      by (simp add: splitHostPort_def cut_last_def port_suffix_def)
  next
    case False
    have "cut_last (h @ CHR '':'' # p) (CHR '':'') = Some (h, p)"
      using p takeWhile_stop [of "CHR '':''" "rev p" "rev h"] dropWhile_stop [of "CHR '':''" "rev p" "rev h"]
      by (simp add: cut_last_def)
    then show ?thesis using False assms(2) \<open>\<not> HasPrefix h ''[''\<close>
      by (simp add: splitHostPort_def port_suffix_def)
  qed
qed

lemma Hostname_plain [simp]:
  "plain h \<Longrightarrow> list_all is_digit p \<Longrightarrow> Hostname (plain_url scheme h p path) = h"
  "plain h \<Longrightarrow> list_all is_digit p \<Longrightarrow> Port (plain_url scheme h p path) = p"
  by (simp_all add: Hostname_def Port_def plain_url_def splitHostPort_plain)

lemma nat_digits_is_digit: "list_all is_digit (nat_digits n)"
proof (induction n rule: nat_digits.induct)
  case (1 n)
  have d: "is_digit (char_of (48 + m))" if "m < 10" for m :: nat
    using that by (simp add: is_digit_def)
  show ?case
    using 1 d by (subst nat_digits.simps) simp
qed

lemma fmt_d_is_digit: "0 \<le> i \<Longrightarrow> list_all is_digit (fmt_d i) \<and> fmt_d i \<noteq> []"
  by (simp add: fmt_d_def nat_digits_is_digit)

end
