(* ===== verification/Upstream.thy ===== *)
theory Upstream
  imports ApiTypes PlainUrls
begin

text \<open>
  \<open>internal/controller/upstream.go\<close>: with \<open>--restrict-upstream\<close>, the upstream of a share
  must be a Service of the share's own namespace.
\<close>

section \<open>The operations\<close>

definition lower_alnum :: "char \<Rightarrow> bool" where
  "lower_alnum c \<longleftrightarrow> (97 \<le> (of_char c :: nat) \<and> (of_char c :: nat) \<le> 122) \<or> is_digit c"

definition dnsLabelRE :: "string \<Rightarrow> bool" where
  \<comment> \<open>\<open>^[a-z0-9]([-a-z0-9]*[a-z0-9])?$\<close>\<close>
  "dnsLabelRE s \<longleftrightarrow>
     (case s of [] \<Rightarrow> False
      | c # cs \<Rightarrow> lower_alnum c \<and> (cs = [] \<or>
          (list_all (\<lambda>x. lower_alnum x \<or> x = CHR ''-'') (butlast cs) \<and> lower_alnum (last cs))))"

definition isDNSLabel :: "string \<Rightarrow> bool" where
  "isDNSLabel s \<longleftrightarrow> length s \<ge> 1 \<and> length s \<le> 63 \<and> dnsLabelRE s"

definition validateShareUpstream :: "string \<Rightarrow> string \<Rightarrow> go_error option" where
  "validateShareUpstream rawURL namespace =
     (case url_Parse rawURL of
        Inl e \<Rightarrow> Some (errorf (''parse upstream: '' @ e))
      | Inr u \<Rightarrow>
          if uScheme u \<notin> {''http'', ''https'', ''tcp'', ''udp''}
          then Some (errorf (''unsupported upstream scheme '' @ fmt_q (uScheme u)))
          else let host = ToLower (Hostname u) in
            if host = [] then Some (errorf ''upstream missing host'')
            else if ParseIP host \<noteq> None
            then Some (errorf ''upstream IP addresses are not allowed'')
            else let ns = ToLower namespace;
                     suffixes = [''.'' @ ns @ ''.svc.cluster.local'', ''.'' @ ns @ ''.svc'', ''.'' @ ns]
              in if list_ex (\<lambda>suf. case CutSuffix host suf of
                               Some name \<Rightarrow> isDNSLabel name | None \<Rightarrow> False) suffixes
                 then None
                 else if \<not> Contains host ''.'' \<and> isDNSLabel host then None
                 else Some (errorf (''upstream host '' @ fmt_q host
                              @ '' is not a Service in namespace '' @ fmt_q namespace)))"

section \<open>What is accepted\<close>

definition service_host :: "string \<Rightarrow> string \<Rightarrow> string \<Rightarrow> bool" where
  \<comment> \<open>\<open>host\<close> names the Service \<open>svc\<close> of the namespace \<open>ns\<close>\<close>
  "service_host svc ns host \<longleftrightarrow>
     isDNSLabel svc \<and>
     host \<in> {svc, svc @ ''.'' @ ns, svc @ ''.'' @ ns @ ''.svc'', svc @ ''.'' @ ns @ ''.svc.cluster.local''}"

lemma isDNSLabel_nonempty: "isDNSLabel s \<Longrightarrow> s \<noteq> []"
  by (auto simp: isDNSLabel_def)

lemma isDNSLabel_chars: "isDNSLabel s \<Longrightarrow> c \<in> set s \<Longrightarrow> lower_alnum c \<or> c = CHR ''-''"
proof -
  assume l: "isDNSLabel s" and c: "c \<in> set s"
  obtain x xs where s: "s = x # xs" using l by (cases s) (auto simp: isDNSLabel_def)
  show ?thesis
  proof (cases "xs = []")
    case True
    then show ?thesis using l c s by (auto simp: isDNSLabel_def dnsLabelRE_def)
  next
    case False
    then have "set xs = insert (last xs) (set (butlast xs))"
      by (metis append_butlast_last_id list.simps(15) rotate1.simps(2) set_rotate1)
    then show ?thesis using l c s False
      by (auto simp: isDNSLabel_def dnsLabelRE_def list_all_iff)
  qed
qed

lemma isDNSLabel_no_dot: "isDNSLabel s \<Longrightarrow> CHR ''.'' \<notin> set s"
  using isDNSLabel_chars [of s "CHR ''.''"] by (auto simp: lower_alnum_def is_digit_def)

lemma Contains_dot_iff: "Contains s ''.'' \<longleftrightarrow> CHR ''.'' \<in> set s"
  by (induction s) (auto simp: HasPrefix_def)

lemma CutSuffix_dot:
  "CutSuffix host ([CHR ''.''] @ r) = Some name \<longleftrightarrow> host = name @ CHR ''.'' # r"
  by (simp add: CutSuffix_Some_iff)

lemma isDNSLabel_plain: "isDNSLabel s \<Longrightarrow> plain s"
  using isDNSLabel_chars [of s] by (auto simp: list_all_iff plain_char_def lower_alnum_def)

text \<open>A host whose last label is not a number is not an IP address.\<close>

lemma SplitByte_append: "SplitByte (x @ c # y) c = SplitByte x c @ SplitByte y c"
proof (induction x)
  case Nil
  then show ?case by simp
next
  case (Cons a x)
  then show ?case using SplitByte_ne [of x c] by (cases "SplitByte x c") auto
qed

lemma parse_ipv4_fields_None:
  assumes "parse_octet f = None" and "f \<in> set (SplitByte s (CHR ''.''))"
  shows "parse_ipv4_fields s = None"
proof -
  have "None \<in> set (map parse_octet (SplitByte s (CHR ''.'')))" using assms by force
  then show ?thesis unfolding parse_ipv4_fields_def by (auto split: list.splits option.splits)
qed

lemma ParseIP_svc:
  assumes "plain h"
  shows "ParseIP (h @ ''.svc'') = None"
proof -
  have "SplitByte (h @ ''.svc'') (CHR ''.'') = SplitByte h (CHR ''.'') @ [''svc'']"
    using SplitByte_append [of h "CHR ''.''" "''svc''"] by simp
  then have v4: "parse_ipv4_fields (h @ ''.svc'') = None"
    by (intro parse_ipv4_fields_None [of "''svc''"]) (simp_all add: parse_octet_def is_digit_def)
  let ?P = "\<lambda>c. c \<noteq> CHR ''.'' \<and> c \<noteq> CHR '':'' \<and> c \<noteq> CHR ''%''"
  have pl: "plain (h @ ''.svc'')" using assms by (simp add: plain_char_def)
  show ?thesis
  proof (cases "dropWhile ?P (h @ ''.svc'')")
    case Nil
    then show ?thesis by (simp add: ParseIP_def)
  next
    case (Cons c t)
    have "\<not> ?P c" using hd_dropWhile [of ?P "h @ ''.svc''"] Cons by simp
    moreover have "c \<in> set (dropWhile ?P (h @ ''.svc''))" using Cons by simp
    then have "c \<in> set (h @ ''.svc'')" by (rule set_dropWhileD)
    then have "plain_char c" by (rule plain_mem [OF pl])
    ultimately have "c = CHR ''.''" by auto
    then show ?thesis using Cons v4 by (simp add: ParseIP_def)
  qed
qed

text \<open>The accepted hosts, as a predicate on the parsed URL.\<close>

definition upstream_ok :: "URL \<Rightarrow> string \<Rightarrow> bool" where
  "upstream_ok u ns \<longleftrightarrow> uScheme u \<in> {''http'', ''https'', ''tcp'', ''udp''}
     \<and> ParseIP (ToLower (Hostname u)) = None
     \<and> (\<exists>svc. service_host svc (ToLower ns) (ToLower (Hostname u)))"

lemma validate_parsed:
  "validateShareUpstream raw ns = None \<longleftrightarrow> (\<exists>u. url_Parse raw = Inr u \<and> upstream_ok u ns)"
proof (cases "url_Parse raw")
  case (Inl e)
  then show ?thesis by (simp add: validateShareUpstream_def)
next
  case (Inr u)
  let ?h = "ToLower (Hostname u)" and ?ns = "ToLower ns"
  have suffix: "(\<exists>name. CutSuffix ?h ([CHR ''.''] @ r) = Some name \<and> isDNSLabel name)
      \<longleftrightarrow> (\<exists>svc. isDNSLabel svc \<and> ?h = svc @ CHR ''.'' # r)" for r
    by (simp only: CutSuffix_dot) blast
  have ex: "list_ex (\<lambda>suf. case CutSuffix ?h suf of Some name \<Rightarrow> isDNSLabel name | None \<Rightarrow> False)
          [''.'' @ ?ns @ ''.svc.cluster.local'', ''.'' @ ?ns @ ''.svc'', ''.'' @ ?ns]
     \<longleftrightarrow> (\<exists>svc. isDNSLabel svc \<and> ?h \<in> {svc @ ''.'' @ ?ns, svc @ ''.'' @ ?ns @ ''.svc'',
            svc @ ''.'' @ ?ns @ ''.svc.cluster.local''})"
  proof -
    have "(case CutSuffix ?h suf of Some name \<Rightarrow> isDNSLabel name | None \<Rightarrow> False)
        \<longleftrightarrow> (\<exists>name. CutSuffix ?h suf = Some name \<and> isDNSLabel name)" for suf
      by (auto split: option.split)
    then show ?thesis by (simp add: CutSuffix_Some_iff) blast
  qed
  have bare: "\<not> Contains ?h ''.'' \<and> isDNSLabel ?h \<longleftrightarrow> isDNSLabel ?h"
    using isDNSLabel_no_dot by (auto simp: Contains_dot_iff)
  have "validateShareUpstream raw ns = None \<longleftrightarrow>
      uScheme u \<in> {''http'', ''https'', ''tcp'', ''udp''} \<and> ?h \<noteq> [] \<and> ParseIP ?h = None
      \<and> (\<exists>svc. service_host svc ?ns ?h)"
    unfolding validateShareUpstream_def Inr sum.case Let_def ex
    using bare by (auto simp: service_host_def)
  moreover have "service_host svc ?ns ?h \<Longrightarrow> ?h \<noteq> []" for svc
    using isDNSLabel_nonempty [of svc] unfolding service_host_def by fastforce
  ultimately show ?thesis using Inr by (auto simp: upstream_ok_def)
qed

section \<open>Properties\<close>

text \<open>C25: With \<open>--restrict-upstream\<close>, exactly those upstream URLs are accepted that parse, have one
  of the schemes http, https, tcp and udp, and whose host, in lower case, is no IP address and
  names a Service (a DNS label) of the given namespace: bare, with the namespace, or with the
  namespace and \<open>svc\<close> or \<open>svc.cluster.local\<close>.\<close>

theorem upstream_accepted_iff:
  "validateShareUpstream raw ns = None \<longleftrightarrow>
   (\<exists>u svc. url_Parse raw = Inr u \<and> uScheme u \<in> {''http'', ''https'', ''tcp'', ''udp''}
      \<and> ParseIP (ToLower (Hostname u)) = None
      \<and> service_host svc (ToLower ns) (ToLower (Hostname u)))"
  by (auto simp: validate_parsed upstream_ok_def)

end
