(* ===== verification/ShareReconcile.thy ===== *)
theory ShareReconcile
  imports World Conditions ShareApply Upstream
begin

text \<open>
  \<open>internal/controller/share_controller.go\<close>: the reconciler of ZrokShares. \<open>Reconcile\<close> is
  split at its early returns into consecutive stages, each taking the local variables the
  rest of the Go function still uses; the helper methods keep their names. The share is
  passed along because every patch re-reads it through the pointer. Logging is left out.
\<close>

section \<open>Status\<close>

definition share_set_status ::
  "(ZrokShareStatus \<Rightarrow> ZrokShareStatus) \<Rightarrow> ZrokShare \<Rightarrow> ZrokShare" where
  "share_set_status f s = s\<lparr>ShareStatus := f (ShareStatus s)\<rparr>"

definition share_condition ::
  "time \<Rightarrow> string \<Rightarrow> string \<Rightarrow> string \<Rightarrow> string \<Rightarrow> ZrokShare \<Rightarrow> ZrokShare" where
  \<comment> \<open>\<open>status.SetCondition(&share.Status.Conditions, ty, st, reason, msg, share.Generation)\<close>\<close>
  "share_condition t ty st rsn msg s =
     share_set_status (\<lambda>x. x\<lparr>shConditions := SetCondition t (shConditions x) ty st rsn msg (Generation s)\<rparr>) s"

definition share_observed :: "ZrokShare \<Rightarrow> ZrokShare" where
  "share_observed s = share_set_status (\<lambda>x. x\<lparr>shObservedGeneration := Generation s\<rparr>) s"

definition not_ready_mutation :: "string \<Rightarrow> string \<Rightarrow> ZrokShare mutation" where
  "not_ready_mutation rsn msg t s =
     (None, share_condition (t 0) ConditionReady ConditionFalse rsn msg (share_observed s))"

definition share_setNotReady :: "api \<Rightarrow> ZrokShare \<Rightarrow> string \<Rightarrow> string \<Rightarrow> ZrokShare op" where
  "share_setNotReady A share rsn msg =
     do { (_, share) \<leftarrow> PatchShareStatus A share (not_ready_mutation rsn msg);
          emit (SetShareReady (Namespace share) (Name share) False);
          ret share }"

definition name_condition_mutation :: "string \<Rightarrow> string \<Rightarrow> ZrokShare mutation" where
  \<comment> \<open>\<open>NameReady\<close> and \<open>Ready\<close> become False for the same reason\<close>
  "name_condition_mutation rsn msg t s =
     (None, share_condition (t 1) ConditionReady ConditionFalse rsn msg
              (share_condition (t 0) ConditionNameReady ConditionFalse rsn msg (share_observed s)))"

definition waiting_mutation :: "ZrokShare mutation" where
  "waiting_mutation t s =
     (None, share_condition (t 1) ConditionReady ConditionFalse ''WaitingForEnvironment''
              ''environment not ready''
              (share_condition (t 0) ConditionEnvironmentReady ConditionFalse ''Waiting''
                 ''environment not ready'' (share_observed s)))"

definition share_record :: "ZrokShare \<Rightarrow> string \<Rightarrow> string \<Rightarrow> string \<Rightarrow> string \<Rightarrow> unit op" where
  "share_record share ty rsn action note = emit (Recorded KShare (object_key share) ty rsn action note)"

definition setNameConflict :: "api \<Rightarrow> ZrokShare \<Rightarrow> string \<Rightarrow> outcome op" where
  "setNameConflict A share msg =
     do { let was = Reason (shConditions (ShareStatus share)) ConditionReady;
          (_, share) \<leftarrow> PatchShareStatus A share (name_condition_mutation ''NameConflict'' msg);
          emit (SetShareReady (Namespace share) (Name share) False);
          (if was \<noteq> ''NameConflict''
           then share_record share EventTypeWarning ''NameConflict'' ''Error'' msg else ret ());
          ret (requeue_after 120, None) }"

section \<open>Annotations, finalizer and labels\<close>

definition patchShareAnnotation ::
  "api \<Rightarrow> ZrokShare \<Rightarrow> string \<Rightarrow> string \<Rightarrow> (go_error option \<times> ZrokShare) op" where
  "patchShareAnnotation A share k v =
     (if v = []
      then if Annotations share k = None then ret (None, share)
           else k8s_patch ShareObj (apiShares A) share
                  (share\<lparr>Annotations := (Annotations share)(k := None)\<rparr>)
      else if lookup_str (Annotations share) k = v then ret (None, share)
      else k8s_patch ShareObj (apiShares A) share
             (share\<lparr>Annotations := (Annotations share)(k \<mapsto> v)\<rparr>))"

definition share_label_keys :: "string list" where
  \<comment> \<open>the keys \<open>agent.ShareLabels\<close> can set\<close>
  "share_label_keys =
     [LabelK8sName, LabelK8sInstance, LabelK8sManagedBy, LabelEnvironment, LabelShareMode,
      LabelFrontendName]"

definition labels_changed :: "labels \<Rightarrow> labels \<Rightarrow> bool" where
  \<comment> \<open>some wanted label has another value (an absent one reads as empty)\<close>
  "labels_changed cur want \<longleftrightarrow>
     list_ex (\<lambda>k. want k \<noteq> None \<and> lookup_str cur k \<noteq> lookup_str want k) share_label_keys"

definition merge_labels :: "labels \<Rightarrow> labels \<Rightarrow> labels" where
  \<comment> \<open>the loop over \<open>want\<close>: labels that differ are set\<close>
  "merge_labels cur want k =
     (case want k of Some v \<Rightarrow> if lookup_str cur k \<noteq> v then Some v else cur k | None \<Rightarrow> cur k)"

definition ensureFinalizerAndLabels ::
  "api \<Rightarrow> ZrokShare \<Rightarrow> (bool \<times> go_error option \<times> ZrokShare) op" where
  "ensureFinalizerAndLabels A share0 =
     (let requeue = \<not> ContainsFinalizer share0 ShareFinalizer;
          share = (if requeue then AddFinalizer share0 ShareFinalizer else share0);
          want = ShareLabels share;
          changed = (requeue \<or> labels_changed (Labels share) want);
          ls = merge_labels (Labels share) want;
          stale = (want LabelFrontendName = None \<and> ls LabelFrontendName \<noteq> None);
          ls = (if stale then ls(LabelFrontendName := None) else ls);
          share = share\<lparr>Labels := ls\<rparr>
      in if \<not> (changed \<or> stale) then ret (False, None, share)
         else do { (err, share) \<leftarrow> k8s_update ShareObj (apiShares A) share;
                   ret (requeue, err, share) })"

section \<open>Reading what the share refers to\<close>

definition getEnvironment :: "api \<Rightarrow> ZrokShare \<Rightarrow> (go_error + ZrokEnvironment) op" where
  "getEnvironment A share = getEnv A (Namespace share, shEnvironmentRef (ShareSpec share))"

definition share_readEnableToken :: "api \<Rightarrow> ZrokEnvironment \<Rightarrow> (go_error + string) op" where
  "share_readEnableToken A env =
     (let ref = enEnableTokenSecretRef (EnvSpec env) in
      do { r \<leftarrow> getSecret A (Namespace env, skName ref);
           case r of
             Inl e \<Rightarrow> ret (Inl e)
           | Inr secret \<Rightarrow>
               let k = (if skKey ref = [] then DefaultEnableTokenKey else skKey ref) in
               case Data secret k of
                 Some raw \<Rightarrow>
                   if raw = [] then ret (Inl (errorf (''secret '' @ skName ref @ '' missing key '' @ fmt_q k)))
                   else ret (Inr raw)
               | None \<Rightarrow> ret (Inl (errorf (''secret '' @ skName ref @ '' missing key '' @ fmt_q k))) })"

definition readBasicAuth :: "api \<Rightarrow> ZrokShare \<Rightarrow> (go_error + string list) op" where
  "readBasicAuth A share =
     (case shBasicAuthSecretRef (ShareSpec share) of
        None \<Rightarrow> ret (Inr [])
      | Some ref \<Rightarrow>
          if ref = [] then ret (Inr [])
          else do {
            r \<leftarrow> getSecret A (Namespace share, ref);
            case r of
              Inl e \<Rightarrow> ret (Inl e)
            | Inr secret \<Rightarrow>
                let user = lookup_str (Data secret) ''username'';
                    pass = lookup_str (Data secret) ''password'' in
                if user = [] \<or> pass = []
                then ret (Inl (errorf ''basic auth secret must contain username and password keys''))
                else ret (Inr [user @ '':'' @ pass]) })"

definition otherShareClaimingName :: "api \<Rightarrow> ZrokShare \<Rightarrow> (go_error + ZrokShare option) op" where
  "otherShareClaimingName A share =
     (if reservedFrontendName share = [] then ret (Inr None)
      else do { r \<leftarrow> listZrokShares A AllNamespaces;
                case r of
                  Inl e \<Rightarrow> ret (Inl e)
                | Inr items \<Rightarrow> ret (Inr (otherShareWithFrontendName share items)) })"

definition loadInventory ::
  "api \<Rightarrow> ZrokEnvironment \<Rightarrow> string \<Rightarrow> string \<Rightarrow> string \<Rightarrow> (shareInventory \<times> go_error option) op" where
  "loadInventory A env apiEndpoint enableToken baseURL =
     do { (remote, listErr) \<leftarrow>
            (if enEnvZID (EnvStatus env) \<noteq> []
             then do { r \<leftarrow> REST_ListShares A apiEndpoint enableToken (enEnvZID (EnvStatus env));
                       case r of Inl e \<Rightarrow> ret (None, Some e) | Inr shares \<Rightarrow> ret (shares, None) }
             else ret (None, None));
          st \<leftarrow> Agent_Status A baseURL;
          let agent = (case st of Inr (Some resp) \<Rightarrow> stShares resp | _ \<Rightarrow> []);
          ret (\<lparr>invRemote = remote, invAgent = agent\<rparr>, listErr) }"

section \<open>Errors of the zrok API\<close>

definition IsUnauthorized :: "go_error \<Rightarrow> bool" where
  \<comment> \<open>\<open>zrokclient.IsUnauthorized\<close>\<close>
  "IsUnauthorized e \<longleftrightarrow>
     Contains (Error e) ''[401]'' \<or> Contains (Error e) ''updateShareNameUnauthorized''
     \<or> Contains (Error e) ''deleteShareNameUnauthorized''"

definition isShareConflict :: "go_error \<Rightarrow> bool" where
  "isShareConflict e \<longleftrightarrow>
     (let msg = ToLower (Error e) in
      Contains msg ''409'' \<or> Contains msg ''shareconflict'' \<or> Contains msg ''already in use'')"

definition isNameStillAttached :: "go_error \<Rightarrow> bool" where
  "isNameStillAttached e \<longleftrightarrow>
     (let msg = ToLower (Error e) in Contains msg ''409'' \<or> Contains msg ''still attached'')"

fun find_attached :: "string \<Rightarrow> string" where
  \<comment> \<open>the leftmost match of \<open>share '([^']+)'\<close>; the group, or empty\<close>
  "find_attached [] = []"
| "find_attached (c # s) =
     (let p = ''share '' @ [CHR 0x27]; rest = drop (length p) (c # s);
          tok = cut_at rest (CHR 0x27) in
      if HasPrefix (c # s) p \<and> tok \<noteq> [] \<and> CHR 0x27 \<in> set rest then tok else find_attached s)"

definition extractAttachedShareToken :: "go_error \<Rightarrow> string" where
  "extractAttachedShareToken e = find_attached (Error e)"

section \<open>Name reservation\<close>

definition ensureReservedName ::
  "api \<Rightarrow> ZrokShare \<Rightarrow> string \<Rightarrow> string \<Rightarrow> (go_error option \<times> ZrokShare) op" where
  "ensureReservedName A share apiEndpoint enableToken =
     (let name = reservedFrontendName share; ns = nameNamespaceToken share;
          failed = (\<lambda>rsn e. do {
            (_, share) \<leftarrow> PatchShareStatus A share (name_condition_mutation rsn (Error e));
            emit (SetShareReady (Namespace share) (Name share) False);
            emit ShareReconcileErrors_Inc;
            ret (Some e, share) }) in
      if name = [] then ret (None, share)
      else do {
        err \<leftarrow> REST_CreateShareName A apiEndpoint enableToken ns name;
        case err of
          Some e \<Rightarrow> failed ''NameError'' e
        | None \<Rightarrow> do {
            err \<leftarrow> REST_UpdateShareName A apiEndpoint enableToken ns name True;
            case err of
              Some e \<Rightarrow> if IsUnauthorized e then ret (Some e, share) else failed ''ReserveError'' e
            | None \<Rightarrow> ret (None, share) } })"

section \<open>Releasing\<close>

definition releaseOurs ::
  "api \<Rightarrow> ZrokEnvironment \<Rightarrow> string \<Rightarrow> string \<Rightarrow> string \<Rightarrow> string \<Rightarrow> (go_error option) op" where
  "releaseOurs A env apiEndpoint enableToken baseURL shareToken =
     (if shareToken = [] then ret None
      else do {
        _ \<leftarrow> Agent_ReleaseShare A baseURL shareToken;
        if enEnvZID (EnvStatus env) = [] then ret None
        else REST_Unshare A apiEndpoint enableToken (enEnvZID (EnvStatus env)) shareToken })"

definition clear_binding_mutation :: "ZrokShare mutation" where
  "clear_binding_mutation t s =
     (None, share_condition (t 0) ConditionReady ConditionFalse ''Healing'' ''recreating share''
        (share_set_status (\<lambda>x. x\<lparr>shShareToken := [], shAssignedURL := [], shFrontendEndpoints := []\<rparr>) s))"

definition clearShareBinding :: "api \<Rightarrow> ZrokShare \<Rightarrow> (go_error option \<times> ZrokShare) op" where
  "clearShareBinding A share =
     (if shShareToken (ShareStatus share) = [] \<and> shAssignedURL (ShareStatus share) = []
      then ret (None, share)
      else PatchShareStatus A share clear_binding_mutation)"

definition releaseAndClear ::
  "api \<Rightarrow> ZrokShare \<Rightarrow> ZrokEnvironment \<Rightarrow> string \<Rightarrow> string \<Rightarrow> string \<Rightarrow> string
   \<Rightarrow> (go_error option \<times> ZrokShare) op" where
  "releaseAndClear A share env apiEndpoint enableToken baseURL shareToken =
     do { err \<leftarrow> releaseOurs A env apiEndpoint enableToken baseURL shareToken;
          case err of
            Some e \<Rightarrow> do { share \<leftarrow> share_setNotReady A share ''HealError'' (Error e); ret (Some e, share) }
          | None \<Rightarrow> clearShareBinding A share }"

definition arrow :: string where
  \<comment> \<open>the UTF-8 bytes of the arrow in two of the messages\<close>
  "arrow = [CHR 0xE2, CHR 0x86, CHR 0x92]"

section \<open>Reclaiming the name of before a rename\<close>

definition flushReclaimName ::
  "api \<Rightarrow> ZrokShare \<Rightarrow> string \<Rightarrow> string \<Rightarrow> (outcome \<times> ZrokShare) op" where
  "flushReclaimName A share apiEndpoint enableToken =
     (let oldName = lookup_str (Annotations share) annotationReclaimName;
          forget = do { (err, share) \<leftarrow> patchShareAnnotation A share annotationReclaimName [];
                        ret ((no_requeue, err), share) } in
      if oldName = [] then ret ((no_requeue, None), share)
      else if oldName = reservedFrontendName share then forget
      else do {
        err \<leftarrow> REST_DeleteShareName A apiEndpoint enableToken (nameNamespaceToken share) oldName;
        case err of
          Some e \<Rightarrow>
            if isNameStillAttached e then ret ((requeue_after 3, None), share)
            else if IsUnauthorized e then forget
            else ret ((no_requeue, Some e), share)
        | None \<Rightarrow> forget })"

definition reclaimPreviousName ::
  "api \<Rightarrow> ZrokShare \<Rightarrow> string \<Rightarrow> string \<Rightarrow> string \<Rightarrow> bool \<Rightarrow> (outcome \<times> ZrokShare) op" where
  "reclaimPreviousName A share apiEndpoint enableToken oldName prevReserved =
     (let newName = reservedFrontendName share in
      if \<not> prevReserved \<or> oldName = [] \<or> oldName = newName then ret ((no_requeue, None), share)
      else if shReclaimPolicy (ShareSpec share) = ReclaimRetain
      then do {
        share_record share EventTypeNormal ''NameRetained'' ''Ready''
          (''kept reserved name '' @ fmt_q oldName @ '' after rename to '' @ fmt_q newName);
        ret ((no_requeue, None), share) }
      else do {
        (err, share) \<leftarrow> patchShareAnnotation A share annotationReclaimName oldName;
        case err of
          Some e \<Rightarrow> ret ((no_requeue, Some e), share)
        | None \<Rightarrow> do {
            share_record share EventTypeNormal ''ShareRenamed'' ''Ready''
              (''replacing reserved name '' @ fmt_q oldName @ '' '' @ arrow @ '' '' @ fmt_q newName);
            flushReclaimName A share apiEndpoint enableToken } })"

section \<open>Ready\<close>

definition mark_ready_mutation ::
  "string \<Rightarrow> string \<Rightarrow> string list \<Rightarrow> string \<Rightarrow> ZrokShare mutation" where
  "mark_ready_mutation mode token endpoints assignedURL t s =
     (let s = share_set_status (\<lambda>x. x\<lparr>shObservedGeneration := Generation s, shShareToken := token,
                shFrontendEndpoints := endpoints, shAssignedURL := assignedURL\<rparr>) s;
          reservation = (\<lambda>r. share_set_status (\<lambda>x. x\<lparr>shReservation := r\<rparr>));
          named = (case shNameSelection (ShareSpec s) of Some ns \<Rightarrow> nsName ns \<noteq> [] | None \<Rightarrow> False);
          s = (if mode = ShareModePrivate
               then share_condition (t 0) ConditionNameReady ConditionTrue ''Private''
                      ''private share; use ZrokAccess or zrok2 access private''
                      (reservation ReservationPrivate s)
               else if named
               then share_condition (t 0) ConditionNameReady ConditionTrue ''Ready'' ''name reserved''
                      (reservation ReservationReserved s)
               else share_condition (t 0) ConditionNameReady ConditionTrue ''Ephemeral''
                      ''no reserved name; share will not survive agent restart''
                      (reservation ReservationEphemeral s));
          s = share_condition (t 1) ConditionEnvironmentReady ConditionTrue ''Ready'' ''environment ready'' s;
          s = share_condition (t 2) ConditionShareCreated ConditionTrue ''Created'' ''share active'' s;
          s = share_condition (t 3) ConditionReady ConditionTrue ''Ready'' ''share ready'' s
      in (None, s))"

definition markShareReady ::
  "api \<Rightarrow> ZrokShare \<Rightarrow> string \<Rightarrow> string list \<Rightarrow> string \<Rightarrow> outcome op" where
  "markShareReady A share token endpoints digest =
     (let wasReady = IsTrue (shConditions (ShareStatus share)) ConditionReady;
          prevURL = shAssignedURL (ShareStatus share);
          assignedURL = (case endpoints of
              ep # _ \<Rightarrow> ep
            | [] \<Rightarrow> if token \<noteq> [] \<and> shShareMode (ShareSpec share) = ShareModePrivate then token else []);
          mode = desiredShareMode share in
      do {
        (err, share) \<leftarrow> PatchShareStatus A share (mark_ready_mutation mode token endpoints assignedURL);
        case err of
          Some e \<Rightarrow> ret (no_requeue, Some e)
        | None \<Rightarrow> do {
            emit (SetShareReady (Namespace share) (Name share) True);
            (err, share) \<leftarrow> patchShareAnnotation A share annotationAppliedDigest digest;
            case err of
              Some e \<Rightarrow> ret (no_requeue, Some e)
            | None \<Rightarrow> do {
                (if \<not> wasReady
                 then share_record share EventTypeNormal ''Ready'' ''Ready'' (''share ready: '' @ assignedURL)
                 else if prevURL \<noteq> [] \<and> assignedURL \<noteq> [] \<and> prevURL \<noteq> assignedURL
                 then share_record share EventTypeNormal ''ShareRenamed'' ''Ready''
                        (''frontend URL '' @ prevURL @ '' '' @ arrow @ '' '' @ assignedURL)
                 else ret ());
                ret (requeue_after 120, None) } } })"

section \<open>Reconcile\<close>

record reconcile_vars =
  \<comment> \<open>the local variables of \<open>Reconcile\<close> that live to its end\<close>
  vEnv :: ZrokEnvironment
  vApiEndpoint :: string
  vToken :: string
  vBaseURL :: string
  vMode :: string
  vBackendMode :: string
  vBasicAuth :: "string list"
  vDesired :: string
  vDigest :: string

definition foreign_message :: "ZrokShare \<Rightarrow> RemoteShare option \<Rightarrow> string \<Rightarrow> string" where
  "foreign_message share remote desired =
     (case remote of
        Some holder \<Rightarrow>
          ''reserved name '' @ fmt_q (reservedFrontendName share) @ '' is attached to share ''
          @ rsToken holder @ '' targeting '' @ fmt_q (rsTarget holder) @ '', not this CR (''
          @ fmt_q desired @ ''); not unsharing''
      | None \<Rightarrow> [])"

definition inventory_of :: "api \<Rightarrow> reconcile_vars \<Rightarrow> (shareInventory \<times> go_error option) op" where
  "inventory_of A v = loadInventory A (vEnv v) (vApiEndpoint v) (vToken v) (vBaseURL v)"

definition handleShareConflict :: "api \<Rightarrow> reconcile_vars \<Rightarrow> ZrokShare \<Rightarrow> outcome op" where
  "handleShareConflict A v share =
     do {
       (iv, err) \<leftarrow> inventory_of A v;
       case err of
         Some e \<Rightarrow> do { _ \<leftarrow> share_setNotReady A share ''InventoryError'' (Error e);
                        ret (no_requeue, Some e) }
       | None \<Rightarrow>
           let cls = classifyShare share (vDesired v) iv in
           if foreignName cls
           then setNameConflict A share (foreign_message share (clsRemote cls) (vDesired v))
           else case adoptableAgentShare share cls (vDesired v) (vDigest v) of
             Some d \<Rightarrow> markShareReady A share (sdToken d) (sdFrontendEndpoint d) (vDigest v)
           | None \<Rightarrow>
               let other = do {
                     _ \<leftarrow> share_setNotReady A share ''ShareError''
                            ''share name conflict and inventory did not identify an owned share'';
                     emit ShareReconcileErrors_Inc;
                     ret (requeue_after 15, None) } in
               case clsRemote cls of
                 Some rem \<Rightarrow>
                   if TargetsEqual (rsTarget rem) (vDesired v)
                   then do {
                     err \<leftarrow> releaseOurs A (vEnv v) (vApiEndpoint v) (vToken v) (vBaseURL v) (rsToken rem);
                     case err of
                       Some e \<Rightarrow> do { _ \<leftarrow> share_setNotReady A share ''HealError'' (Error e);
                                      ret (no_requeue, Some e) }
                     | None \<Rightarrow> ret (requeue_after 2, None) }
                   else other
               | None \<Rightarrow> other }"

definition public_request :: "reconcile_vars \<Rightarrow> ZrokShare \<Rightarrow> SharePublicRequest" where
  "public_request v share =
     (let spec = ShareSpec share; name = reservedFrontendName share in
      \<lparr>spubTarget = shUpstreamURL spec, spubBackendMode = vBackendMode v,
       spubBasicAuth = vBasicAuth v, spubInsecure = shInsecure spec, spubClosed = shClosed spec,
       spubAccessGrants = shAccessGrants spec,
       spubNameSelections =
         (if name \<noteq> [] then [\<lparr>nselNamespaceToken = nameNamespaceToken share, nselName = name\<rparr>] else []),
       spubOauthProvider = (case shOAuth spec of Some oa \<Rightarrow> oaProvider oa | None \<Rightarrow> []),
       spubOauthEmailDomains = (case shOAuth spec of Some oa \<Rightarrow> oaEmailDomains oa | None \<Rightarrow> []),
       spubOauthRefreshInterval = (case shOAuth spec of Some oa \<Rightarrow> oaRefreshInterval oa | None \<Rightarrow> [])\<rparr>)"

definition private_request :: "reconcile_vars \<Rightarrow> ZrokShare \<Rightarrow> SharePrivateRequest" where
  "private_request v share =
     (let spec = ShareSpec share in
      \<lparr>sprivTarget = shUpstreamURL spec, sprivBackendMode = vBackendMode v,
       sprivPrivateShareToken = shPrivateShareToken spec, sprivClosed = shClosed spec,
       sprivAccessGrants = shAccessGrants spec\<rparr>)"

definition Reconcile_create :: "api \<Rightarrow> reconcile_vars \<Rightarrow> ZrokShare \<Rightarrow> outcome op" where
  \<comment> \<open>the final switch on the share mode\<close>
  "Reconcile_create A v share =
     (if vMode v = ShareModePrivate
      then do {
        r \<leftarrow> Agent_SharePrivate A (vBaseURL v) (private_request v share);
        case r of
          Inl e \<Rightarrow> do { _ \<leftarrow> share_setNotReady A share ''ShareError'' (Error e);
                        emit ShareReconcileErrors_Inc;
                        ret (no_requeue, Some e) }
        | Inr token \<Rightarrow> markShareReady A share token [] (vDigest v) }
      else do {
        r \<leftarrow> Agent_SharePublic A (vBaseURL v) (public_request v share);
        case r of
          Inl e \<Rightarrow>
            if isShareConflict e \<and> reservedFrontendName share \<noteq> []
            then handleShareConflict A v share
            else do { share \<leftarrow> share_setNotReady A share ''ShareError'' (Error e);
                      emit ShareReconcileErrors_Inc;
                      share_record share EventTypeWarning ''ShareError'' ''Error'' (Error e);
                      ret (no_requeue, Some e) }
        | Inr resp \<Rightarrow> markShareReady A share (sprToken resp) (sprFrontendEndpoints resp) (vDigest v) })"

definition heal_token :: "ZrokShare \<Rightarrow> classifiedShare \<Rightarrow> string \<Rightarrow> string option" where
  \<comment> \<open>which token the drift branches release, if any\<close>
  "heal_token share cls desired =
     (case clsAgent cls of
        Some d \<Rightarrow> Some (sdToken d)
      | None \<Rightarrow>
          (case clsRemote cls of
             Some rem \<Rightarrow>
               if TargetsEqual (rsTarget rem) desired then Some (rsToken rem)
               else if shShareToken (ShareStatus share) = rsToken rem then Some (rsToken rem)
               else None
           | None \<Rightarrow> None))"

definition Reconcile_heal ::
  "api \<Rightarrow> reconcile_vars \<Rightarrow> classifiedShare \<Rightarrow> ZrokShare \<Rightarrow> outcome op" where
  \<comment> \<open>from the computation of \<open>oldName\<close> on: release what drifted, then create\<close>
  "Reconcile_heal A v cls share =
     (let oldName = liveFrontendName share cls;
          prevReserved = (shReservation (ShareStatus share) = ReservationReserved) in
      case heal_token share cls (vDesired v) of
        None \<Rightarrow> Reconcile_create A v share
      | Some token \<Rightarrow> do {
          (err, share) \<leftarrow> releaseAndClear A share (vEnv v) (vApiEndpoint v) (vToken v) (vBaseURL v) token;
          case err of
            Some e \<Rightarrow> ret (no_requeue, Some e)
          | None \<Rightarrow> do {
              ((res, err), share) \<leftarrow>
                reclaimPreviousName A share (vApiEndpoint v) (vToken v) oldName prevReserved;
              if \<not> Result_IsZero res \<or> err \<noteq> None then ret (res, err)
              else Reconcile_create A v share } })"

definition Reconcile_name ::
  "api \<Rightarrow> reconcile_vars \<Rightarrow> classifiedShare \<Rightarrow> ZrokShare \<Rightarrow> outcome op" where
  \<comment> \<open>reserve the name, flush the reclaimed one, adopt a live share\<close>
  "Reconcile_name A v cls share =
     do {
       (err, share) \<leftarrow> ensureReservedName A share (vApiEndpoint v) (vToken v);
       case err of
         Some e \<Rightarrow>
           if IsUnauthorized e
           then setNameConflict A share
                  (''reserved name '' @ fmt_q (reservedFrontendName share)
                   @ '' is owned by another zrok account; pick a different nameSelection.name'')
           else ret (no_requeue, Some e)
       | None \<Rightarrow> do {
           ((res, err), share) \<leftarrow> flushReclaimName A share (vApiEndpoint v) (vToken v);
           if \<not> Result_IsZero res \<or> err \<noteq> None then ret (res, err)
           else case adoptableAgentShare share cls (vDesired v) (vDigest v) of
             Some d \<Rightarrow> markShareReady A share (sdToken d) (sdFrontendEndpoint d) (vDigest v)
           | None \<Rightarrow> Reconcile_heal A v cls share } }"

definition Reconcile_inventory :: "api \<Rightarrow> reconcile_vars \<Rightarrow> ZrokShare \<Rightarrow> outcome op" where
  "Reconcile_inventory A v share =
     do {
       (iv, listErr) \<leftarrow> inventory_of A v;
       let cls = classifyShare share (vDesired v) iv;
       case listErr of
         Some e \<Rightarrow>
           (case adoptableAgentShare share cls (vDesired v) (vDigest v) of
              Some d \<Rightarrow> markShareReady A share (sdToken d) (sdFrontendEndpoint d) (vDigest v)
            | None \<Rightarrow> do { _ \<leftarrow> share_setNotReady A share ''InventoryError'' (Error e);
                            emit ShareReconcileErrors_Inc;
                            ret (no_requeue, Some e) })
       | None \<Rightarrow>
           if foreignName cls
           then setNameConflict A share (foreign_message share (clsRemote cls) (vDesired v))
           else Reconcile_name A v cls share }"

definition Reconcile_inputs ::
  "api \<Rightarrow> string \<Rightarrow> ZrokEnvironment \<Rightarrow> ZrokShare \<Rightarrow> outcome op" where
  \<comment> \<open>the enable token, the basic-auth secret and the other claimants of the name\<close>
  "Reconcile_inputs A mode env share =
     do {
       r \<leftarrow> share_readEnableToken A env;
       case r of
         Inl e \<Rightarrow> do { _ \<leftarrow> share_setNotReady A share ''SecretError'' (Error e);
                       emit ShareReconcileErrors_Inc;
                       ret (no_requeue, Some e) }
       | Inr token \<Rightarrow> do {
           r \<leftarrow> readBasicAuth A share;
           case r of
             Inl e \<Rightarrow> do { _ \<leftarrow> share_setNotReady A share ''BasicAuthError'' (Error e);
                           ret (no_requeue, Some e) }
           | Inr basicAuth \<Rightarrow> do {
               r \<leftarrow> otherShareClaimingName A share;
               case r of
                 Inl e \<Rightarrow> ret (no_requeue, Some e)
               | Inr (Some other) \<Rightarrow>
                   setNameConflict A share
                     (''reserved name '' @ fmt_q (reservedFrontendName share) @ '' is claimed by ZrokShare ''
                      @ Namespace other @ ''/'' @ Name other @ ''; not unsharing'')
               | Inr None \<Rightarrow>
                   Reconcile_inventory A
                     \<lparr>vEnv = env,
                      vApiEndpoint = (if enApiEndpoint (EnvSpec env) = [] then DefaultAPIEndpoint
                                      else enApiEndpoint (EnvSpec env)),
                      vToken = token, vBaseURL = AgentBaseURL env, vMode = mode,
                      vBackendMode = desiredBackendMode share, vBasicAuth = basicAuth,
                      vDesired = shUpstreamURL (ShareSpec share),
                      vDigest = shareApplyDigest share basicAuth\<rparr> share } } }"

definition Reconcile_env :: "api \<Rightarrow> string \<Rightarrow> ZrokShare \<Rightarrow> outcome op" where
  "Reconcile_env A mode share =
     do {
       r \<leftarrow> getEnvironment A share;
       case r of
         Inl e \<Rightarrow>
           if IsNotFound e
           then do { _ \<leftarrow> share_setNotReady A share ''EnvironmentMissing'' (Error e);
                     ret (requeue_after 15, None) }
           else do { emit ShareReconcileErrors_Inc; ret (no_requeue, Some e) }
       | Inr env \<Rightarrow>
           if \<not> IsTrue (enConditions (EnvStatus env)) ConditionReady
           then do { (_, share) \<leftarrow> PatchShareStatus A share waiting_mutation;
                     emit (SetShareReady (Namespace share) (Name share) False);
                     ret (requeue_after 10, None) }
           else Reconcile_inputs A mode env share }"

definition share_spec_error :: "bool \<Rightarrow> ZrokShare \<Rightarrow> (string \<times> string) option" where
  \<comment> \<open>the checks of the spec, with the condition's reason and message\<close>
  "share_spec_error restrictUpstream share =
     (let spec = ShareSpec share; mode = desiredShareMode share in
      if mode = ShareModePrivate \<and> shNameSelection spec \<noteq> None
      then Some (''InvalidSpec'', ''nameSelection is only valid with shareMode=public'')
      else if mode = ShareModePublic \<and> shPrivateShareToken spec \<noteq> []
      then Some (''InvalidSpec'', ''privateShareToken is only valid with shareMode=private'')
      else if restrictUpstream
      then (case validateShareUpstream (shUpstreamURL spec) (Namespace share) of
              Some e \<Rightarrow> Some (''UpstreamNotAllowed'', Error e)
            | None \<Rightarrow>
                if shBackendMode spec = BackendModeSocks
                then Some (''BackendModeNotAllowed'', ''socks is disabled when --restrict-upstream is set'')
                else None)
      else None)"

definition Reconcile_live :: "api \<Rightarrow> bool \<Rightarrow> ZrokShare \<Rightarrow> outcome op" where
  \<comment> \<open>a share that is not being deleted\<close>
  "Reconcile_live A restrictUpstream share =
     do {
       (requeue, err, share) \<leftarrow> ensureFinalizerAndLabels A share;
       if err \<noteq> None then ret (no_requeue, err)
       else if requeue then ret (no_requeue, None)
       else case share_spec_error restrictUpstream share of
         Some (rsn, msg) \<Rightarrow> do { _ \<leftarrow> share_setNotReady A share rsn msg; ret (no_requeue, None) }
       | None \<Rightarrow> Reconcile_env A (desiredShareMode share) share }"

section \<open>Deletion\<close>

text \<open>
  \<open>getEnvironment\<close> returns a pointer that is never nil, so the tests \<open>env != nil\<close> of the code
  always hold; when the environment does not exist, \<open>env\<close> is the zero object.
\<close>

record delete_vars =
  dEnv :: ZrokEnvironment
  dApiEndpoint :: string
  dToken :: string
  dBaseURL :: string
  dInv :: shareInventory
  dOther :: "ZrokShare option"
  dName :: string

definition delete_finish :: "api \<Rightarrow> ZrokShare \<Rightarrow> outcome op" where
  "delete_finish A share =
     do { (err, share) \<leftarrow> k8s_update ShareObj (apiShares A) (RemoveFinalizer share ShareFinalizer);
          case err of
            Some e \<Rightarrow> ret (no_requeue, Some e)
          | None \<Rightarrow> do { emit (DeleteShareReady (Namespace share) (Name share));
                         ret (no_requeue, None) } }"

definition delete_name :: "api \<Rightarrow> delete_vars \<Rightarrow> ZrokShare \<Rightarrow> outcome op" where
  \<comment> \<open>give the reserved name back, unless it is retained or claimed by another share\<close>
  "delete_name A v share =
     (let env = dEnv v; name = dName v; zid = enEnvZID (EnvStatus env) in
      if dToken v \<noteq> [] \<and> shReclaimPolicy (ShareSpec share) \<noteq> ReclaimRetain \<and> name \<noteq> []
      then case dOther v of
        Some other \<Rightarrow> do {
          share_record share EventTypeWarning ''NameRetained'' ''Warning''
            (''reserved name claimed by ZrokShare '' @ Namespace other @ ''/'' @ Name other
             @ ''; not deleting name'');
          delete_finish A share }
      | None \<Rightarrow> do {
          err \<leftarrow> REST_DeleteShareName A (dApiEndpoint v) (dToken v) (nameNamespaceToken share) name;
          case err of
            None \<Rightarrow> delete_finish A share
          | Some e \<Rightarrow>
              if isNameStillAttached e
              then let tok = extractAttachedShareToken e in
                if tok \<noteq> [] \<and> isOurShareToken share tok (dInv v)
                then do {
                  _ \<leftarrow> Agent_ReleaseShare A (dBaseURL v) tok;
                  _ \<leftarrow> (if zid \<noteq> [] then REST_Unshare A (dApiEndpoint v) (dToken v) zid tok else ret None);
                  ret (requeue_after 3, None) }
                else if zid \<noteq> [] \<and> invRemote (dInv v) = None
                then ret (requeue_after 5, None)
                else do {
                  share_record share EventTypeWarning ''NameRetained'' ''Warning''
                    ''reserved name still attached to another share; not deleting name'';
                  delete_finish A share }
              else if IsUnauthorized e
              then do {
                share_record share EventTypeWarning ''NameRetained'' ''Warning''
                  (''cannot delete reserved name '' @ fmt_q name @ '' (unauthorized); leaving it'');
                delete_finish A share }
              else ret (no_requeue, Some e) }
      else delete_finish A share)"

definition delete_unshare :: "api \<Rightarrow> delete_vars \<Rightarrow> string \<Rightarrow> ZrokShare \<Rightarrow> outcome op" where
  \<comment> \<open>release the share's token when it is ours\<close>
  "delete_unshare A v shareToken share =
     (let zid = enEnvZID (EnvStatus (dEnv v)) in
      if shareToken \<noteq> [] \<and> isOurShareToken share shareToken (dInv v)
      then do {
        _ \<leftarrow> Agent_ReleaseShare A (dBaseURL v) shareToken;
        err \<leftarrow> (if zid \<noteq> [] \<and> dToken v \<noteq> []
               then REST_Unshare A (dApiEndpoint v) (dToken v) zid shareToken else ret None);
        case err of
          Some e \<Rightarrow>
            if IsUnauthorized e
            then do { (cerr, share) \<leftarrow> clearShareBinding A share;
                      case cerr of Some ce \<Rightarrow> ret (no_requeue, Some ce)
                                 | None \<Rightarrow> delete_name A v share }
            else do {
              share_record share EventTypeWarning ''ReleaseError'' ''Error'' (Error e);
              ret (no_requeue, Some e) }
        | None \<Rightarrow> do { (cerr, share) \<leftarrow> clearShareBinding A share;
                       case cerr of Some ce \<Rightarrow> ret (no_requeue, Some ce)
                                  | None \<Rightarrow> delete_name A v share } }
      else delete_name A v share)"

definition delete_token :: "ZrokShare \<Rightarrow> string \<Rightarrow> ZrokShare option \<Rightarrow> shareInventory \<Rightarrow> string" where
  \<comment> \<open>the status token, or one discovered by name when no other share claims it\<close>
  "delete_token share name other iv =
     (let tok = shShareToken (ShareStatus share) in
      if tok = [] \<and> other = None
      then (let t = (case agentByName iv name of Some d \<Rightarrow> sdToken d | None \<Rightarrow> []) in
            if t \<noteq> [] then t
            else case remoteByName iv name of
                   Some rem \<Rightarrow> if TargetsEqual (rsTarget rem) (shUpstreamURL (ShareSpec share))
                               then rsToken rem else []
                 | None \<Rightarrow> [])
      else tok)"

definition delete_with_env ::
  "api \<Rightarrow> ZrokEnvironment \<Rightarrow> string \<Rightarrow> string \<Rightarrow> ZrokShare \<Rightarrow> outcome op" where
  \<comment> \<open>from the inventory on; a listing of shares that fails counts as no other claimant\<close>
  "delete_with_env A env apiEndpoint enableToken share =
     (let baseURL = AgentBaseURL env in
      do {
        (iv, _) \<leftarrow> loadInventory A env apiEndpoint enableToken baseURL;
        let name = reservedFrontendName share;
        r \<leftarrow> otherShareClaimingName A share;
        let other = (case r of Inl _ \<Rightarrow> None | Inr o' \<Rightarrow> o');
        delete_unshare A
          \<lparr>dEnv = env, dApiEndpoint = apiEndpoint, dToken = enableToken, dBaseURL = baseURL,
           dInv = iv, dOther = other, dName = name\<rparr>
          (delete_token share name other iv) share })"

definition share_reconcileDelete :: "api \<Rightarrow> ZrokShare \<Rightarrow> outcome op" where
  "share_reconcileDelete A share =
     (if \<not> ContainsFinalizer share ShareFinalizer then ret (no_requeue, None)
      else do {
        r \<leftarrow> getEnvironment A share;
        case r of
          Inl e \<Rightarrow>
            if \<not> IsNotFound e then ret (no_requeue, Some e)
            else delete_with_env A zero_env DefaultAPIEndpoint [] share
        | Inr env \<Rightarrow>
            let apiEndpoint = (if enApiEndpoint (EnvSpec env) = [] then DefaultAPIEndpoint
                               else enApiEndpoint (EnvSpec env)) in
            if skName (enEnableTokenSecretRef (EnvSpec env)) = []
            then delete_with_env A env apiEndpoint [] share
            else do {
              t \<leftarrow> share_readEnableToken A env;
              case t of
                Inl e \<Rightarrow> if IsNotFound e then delete_with_env A env apiEndpoint [] share
                         else ret (no_requeue, Some e)
              | Inr enableToken \<Rightarrow> delete_with_env A env apiEndpoint enableToken share } })"

definition share_Reconcile :: "api \<Rightarrow> bool \<Rightarrow> key \<Rightarrow> outcome op" where
  "share_Reconcile A restrictUpstream req =
     do {
       r \<leftarrow> getShare A req;
       case r of
         Inl e \<Rightarrow> ret (no_requeue, IgnoreNotFound e)
       | Inr share \<Rightarrow>
           if DeletionTimestamp share \<noteq> None then share_reconcileDelete A share
           else Reconcile_live A restrictUpstream share }"

definition mapEnvToShares :: "api \<Rightarrow> 'a ObjectMeta_scheme \<Rightarrow> key list op" where
  "mapEnvToShares A obj =
     do { r \<leftarrow> listZrokShares A (InNamespaceForEnv (Namespace obj) (Name obj));
          case r of Inl _ \<Rightarrow> ret [] | Inr items \<Rightarrow> ret (map object_key items) }"

end
