(* ===== verification/ShareHelpers.thy ===== *)
theory ShareHelpers
  imports ShareReconcile
begin

text \<open>
  The helper methods of the ZrokShare reconciler, each with the events it can add to the
  history and what it hands back: the facts with which the stages of \<open>Reconcile\<close> and of the
  deletion are stepped through in \<open>ShareSafety\<close> and \<open>ShareDelete\<close>.
\<close>

section \<open>Views of the history\<close>

fun released_token :: "event \<Rightarrow> string option" where
  \<comment> \<open>the share token a call takes down, in the agent or at the zrok controller\<close>
  "released_token (AgentReleaseShare addr tok r) = Some tok"
| "released_token (RestUnshare ep acc zid tok r) = Some tok"
| "released_token _ = None"

fun inventory_step :: "event \<Rightarrow> shareInventory \<Rightarrow> shareInventory" where
  "inventory_step (RestListShares ep acc zid r) iv =
     iv\<lparr>invRemote := (case r of Inl _ \<Rightarrow> None | Inr shares \<Rightarrow> shares)\<rparr>"
| "inventory_step (AgentStatus addr r) iv =
     iv\<lparr>invAgent := (case r of Inr (Some resp) \<Rightarrow> stShares resp | _ \<Rightarrow> [])\<rparr>"
| "inventory_step _ iv = iv"

definition inventory_from :: "event list \<Rightarrow> shareInventory" where
  \<comment> \<open>the last listing of each side\<close>
  "inventory_from h = fold inventory_step h empty_inventory"

abbreviation known :: "ZrokShare \<Rightarrow> event list \<Rightarrow> ZrokShare set" where
  \<comment> \<open>the states of the ZrokShare that a reconcile started on \<open>share\<close> has seen\<close>
  "known \<equiv> states ShareObj"

lemmas known_mono = states_mono [where wrap = ShareObj]
lemmas known_shown = states_shown [where wrap = ShareObj]

lemma inventory_from_simps [simp]:
  "inventory_from [] = empty_inventory"
  "inventory_from (h @ [e]) = inventory_step e (inventory_from h)"
  by (simp_all add: inventory_from_def)

section \<open>The helper methods\<close>

lemmas mutation_defs =
  not_ready_mutation_def name_condition_mutation_def waiting_mutation_def
  clear_binding_mutation_def mark_ready_mutation_def

lemma total_mutations [simp]:
  "total_mutation (not_ready_mutation rsn msg)"
  "total_mutation (name_condition_mutation rsn msg)"
  "total_mutation waiting_mutation"
  "total_mutation clear_binding_mutation"
  "total_mutation (mark_ready_mutation mode token eps url)"
  by (simp_all add: total_mutation_def mutation_defs Let_def)

definition share_ready :: "ZrokShare \<Rightarrow> bool" where
  "share_ready s \<longleftrightarrow> IsTrue (shConditions (ShareStatus s)) ConditionReady"

lemma share_ready_condition [simp]:
  "share_ready (share_condition t ty st rsn msg s) \<longleftrightarrow>
   (if ty = ConditionReady then st = ConditionTrue else share_ready s)"
  by (auto simp: share_ready_def share_condition_def share_set_status_def)

lemma mutations_not_ready [simp]:
  "\<not> share_ready (snd (not_ready_mutation rsn msg t s))"
  "\<not> share_ready (snd (name_condition_mutation rsn msg t s))"
  "\<not> share_ready (snd (waiting_mutation t s))"
  "\<not> share_ready (snd (clear_binding_mutation t s))"
  by (simp_all add: mutation_defs)

fun downgrade :: "event \<Rightarrow> bool" where
  \<comment> \<open>reads, status patches that leave \<open>Ready\<close> false, and reports of that\<close>
  "downgrade (Get kd k r) = True"
| "downgrade (StatusPatch before obj r) = (case obj of ShareObj s \<Rightarrow> \<not> share_ready s | _ \<Rightarrow> False)"
| "downgrade (SetShareReady ns n b) = (\<not> b)"
| "downgrade ShareReconcileErrors_Inc = True"
| "downgrade (Recorded kd k ty rsn action note) = True"
| "downgrade _ = False"

lemma patch_event_downgrade:
  "patch_event KShare ShareObj m e \<Longrightarrow> (\<And>t s. \<not> share_ready (snd (m t s))) \<Longrightarrow> downgrade e"
  by (auto simp: patch_event_def)

lemma PatchShareStatus_downgrade:
  assumes "total_mutation m" and "\<And>t s. \<not> share_ready (snd (m t s))"
  shows "yields downgrade (\<lambda>x. shown_or ShareObj share (snd x)) (PatchShareStatus A share m)"
  by (rule yields_conseq [OF PatchStatus_yields [OF assms(1)]])
     (erule patch_event_downgrade, rule assms(2), assumption)

lemma setNotReady_yields:
  "yields downgrade (\<lambda>s. shown_or ShareObj share s) (share_setNotReady A share rsn msg)"
  unfolding share_setNotReady_def
  by (rule yields_bind [OF PatchShareStatus_downgrade])
     (auto intro!: yields_intros yields_bind [OF yields_emit [where R = "\<lambda>_ _. True"]]
       split: prod.split simp: shown_or_append)

lemma setNameConflict_emits: "emits downgrade (setNameConflict A share msg)"
  unfolding setNameConflict_def Let_def share_record_def
  by (auto intro!: emits_intros emits_yields [OF PatchShareStatus_downgrade] split: prod.split)

lemma clearShareBinding_yields:
  "yields downgrade (\<lambda>x. shown_or ShareObj share (snd x)) (clearShareBinding A share)"
  unfolding clearShareBinding_def
  by (auto intro!: yields_intros PatchShareStatus_downgrade)

fun share_patch :: "event \<Rightarrow> bool" where
  "share_patch (Patch before obj r) = True"
| "share_patch _ = False"

lemma patchShareAnnotation_yields:
  "yields share_patch (\<lambda>x. shown_or ShareObj share (snd x)) (patchShareAnnotation A share k v)"
  unfolding patchShareAnnotation_def
  by (auto intro!: yields_intros simp: shown_or_def sent_def split: sum.split)

fun reserve_event :: "event \<Rightarrow> bool" where
  "reserve_event (RestCreateShareName ep acc ns n r) = True"
| "reserve_event (RestUpdateShareName ep acc ns n reserved r) = True"
| "reserve_event e = downgrade e"

lemma downgrade_reserve: "downgrade e \<Longrightarrow> reserve_event e"
  by (cases e) auto

lemma reserve_failure_yields:
  "yields reserve_event (\<lambda>x es. fst x \<noteq> None \<and> shown_or ShareObj share (snd x) es)
     (PatchShareStatus A share (name_condition_mutation rsn (Error e)) \<bind> (\<lambda>(_, share).
        emit (SetShareReady (Namespace share) (Name share) False) \<bind> (\<lambda>_.
        emit ShareReconcileErrors_Inc \<bind> (\<lambda>_. ret (Some e, share)))))"
  by (rule yields_conseq [where E = downgrade and R = "\<lambda>x es. fst x \<noteq> None \<and> shown_or ShareObj share (snd x) es"])
     (auto intro!: yields_bind [OF PatchShareStatus_downgrade] yields_intros
        yields_bind [OF yields_emit [where R = "\<lambda>_ _. True"]]
        split: prod.split simp: shown_or_append intro: downgrade_reserve)

definition name_reserved :: "ZrokShare \<Rightarrow> event list \<Rightarrow> bool" where
  \<comment> \<open>the share asks for no name, or the controller confirmed the reservation of it\<close>
  "name_reserved s h \<longleftrightarrow>
     reservedFrontendName s = [] \<or>
     (\<exists>ep acc. RestUpdateShareName ep acc (nameNamespaceToken s) (reservedFrontendName s) True None \<in> set h)"

lemma ensureReservedName_yields:
  "yields reserve_event
     (\<lambda>x es. shown_or ShareObj share (snd x) es \<and> (fst x = None \<longrightarrow> snd x = share \<and> name_reserved share es))
     (ensureReservedName A share ep tok)"
proof -
  have fail: "(\<And>x es. fst x \<noteq> None \<Longrightarrow> shown_or ShareObj share (snd x) es \<Longrightarrow> R x es) \<Longrightarrow>
    yields reserve_event R
      (PatchShareStatus A share (name_condition_mutation rsn (Error e)) \<bind> (\<lambda>(_, share).
        emit (SetShareReady (Namespace share) (Name share) False) \<bind> (\<lambda>_.
        emit ShareReconcileErrors_Inc \<bind> (\<lambda>_. ret (Some e, share)))))" for R rsn e
    by (rule yields_conseq [OF reserve_failure_yields]) auto
  show ?thesis
    unfolding ensureReservedName_def Let_def call_defs
    by (intro yields_if yields_return yields_case_option fail yields_perform
          yields_bind [OF yields_perform [where R = "\<lambda>r es. es = [RestCreateShareName a b c d r]" for a b c d]]
          yields_bind [OF yields_perform [where R = "\<lambda>r es. es = [RestUpdateShareName a b c d f r]" for a b c d f]])
       (auto simp: name_reserved_def shown_or_def)
qed

lemma releaseOurs_yields:
  "emits (\<lambda>e. released_token e = Some tok) (releaseOurs A env ep acc url tok)"
  unfolding releaseOurs_def call_defs by (auto intro!: emits_intros)

definition releases_only :: "string \<Rightarrow> event \<Rightarrow> bool" where
  "releases_only tok e \<longleftrightarrow> downgrade e \<or> released_token e = Some tok"

lemma releaseAndClear_yields:
  "yields (releases_only tok) (\<lambda>x. shown_or ShareObj share (snd x))
     (releaseAndClear A share env ep acc url tok)"
proof -
  have down: "yields (releases_only tok) R m" if "yields downgrade R m" for R and m :: "'b op"
    using that by (rule yields_conseq) (auto simp: releases_only_def)
  have rel: "yields (releases_only tok) (\<lambda>_ _. True) (releaseOurs A env ep acc url tok)"
    using releaseOurs_yields unfolding emits_def
    by (rule yields_conseq) (auto simp: releases_only_def)
  have snr: "yields (releases_only tok) (\<lambda>x es'. shown_or ShareObj share (snd x) (es @ es'))
      (share_setNotReady A share rsn msg \<bind> (\<lambda>share. ret (Some e, share)))" for es rsn msg e
    by (rule yields_bind [OF down [OF setNotReady_yields]])
       (auto intro!: yields_return simp: shown_or_def)
  have clr: "yields (releases_only tok) (\<lambda>x es'. shown_or ShareObj share (snd x) (es @ es'))
      (clearShareBinding A share)" for es
    by (rule down, rule yields_conseq [OF clearShareBinding_yields]) (auto simp: shown_or_def)
  show ?thesis
    unfolding releaseAndClear_def
    by (rule yields_bind [OF rel], rule yields_case_option) (rule clr snr)+
qed

definition ready_event :: "string \<Rightarrow> string \<Rightarrow> string list \<Rightarrow> string \<Rightarrow> event \<Rightarrow> bool" where
  \<comment> \<open>what \<open>markShareReady\<close> does\<close>
  "ready_event mode token endpoints url e \<longleftrightarrow>
     patch_event KShare ShareObj (mark_ready_mutation mode token endpoints url) e \<or> share_patch e
     \<or> (\<exists>ns n. e = SetShareReady ns n True)
     \<or> (\<exists>kd k ty rsn action note. e = Recorded kd k ty rsn action note)"

definition assigned_url :: "ZrokShare \<Rightarrow> string \<Rightarrow> string list \<Rightarrow> string" where
  "assigned_url share token endpoints =
     (case endpoints of
        ep # _ \<Rightarrow> ep
      | [] \<Rightarrow> if token \<noteq> [] \<and> shShareMode (ShareSpec share) = ShareModePrivate then token else [])"

lemma markShareReady_emits:
  "emits (ready_event (desiredShareMode share) token endpoints (assigned_url share token endpoints))
     (markShareReady A share token endpoints digest)"
proof -
  have p: "emits (ready_event m t eps u) (patchShareAnnotation A s k v)" for m t eps u s k v
    by (rule emits_mono [OF emits_yields [OF patchShareAnnotation_yields]])
       (simp add: ready_event_def)
  show ?thesis
    unfolding markShareReady_def Let_def share_record_def assigned_url_def [symmetric]
    by (intro emits_intros p PatchStatus_emits total_mutations) (auto simp: ready_event_def)
qed

definition inv_quiet :: "event \<Rightarrow> bool" where
  "inv_quiet e \<longleftrightarrow> (\<forall>iv. inventory_step e iv = iv)"

lemma inventory_from_quiet:
  "list_all E es \<Longrightarrow> (\<And>e. E e \<Longrightarrow> inv_quiet e) \<Longrightarrow> inventory_from (h @ es) = inventory_from h"
proof (induction es rule: rev_induct)
  case Nil
  then show ?case by simp
next
  case (snoc e es)
  then have "inv_quiet e" and "inventory_from (h @ es) = inventory_from h" by auto
  then show ?case using inventory_from_simps(2) [of "h @ es" e] by (simp add: inv_quiet_def)
qed

lemma inventory_from_inv_quiet: "list_all inv_quiet es \<Longrightarrow> inventory_from (h @ es) = inventory_from h"
  by (rule inventory_from_quiet)

section \<open>Calm events\<close>

text \<open>
  Most calls need no justification: they neither take down nor start a share, give no name
  back and do not declare the ZrokShare ready.
\<close>

fun calm :: "event \<Rightarrow> bool" where
  "calm (AgentReleaseShare addr tok r) = False"
| "calm (RestUnshare ep acc zid tok r) = False"
| "calm (AgentSharePublic addr req r) = False"
| "calm (AgentSharePrivate addr req r) = False"
| "calm (RestDeleteShareName ep acc ns n r) = False"
| "calm (StatusPatch before obj r) = (case obj of ShareObj s \<Rightarrow> \<not> share_ready s | _ \<Rightarrow> True)"
| "calm _ = True"

lemma share_patch_quiet: "share_patch e \<Longrightarrow> calm e \<and> inv_quiet e"
  by (cases e) (auto simp: inv_quiet_def)

lemma downgrade_quiet: "downgrade e \<Longrightarrow> calm e \<and> inv_quiet e"
  by (cases e) (auto simp: inv_quiet_def split: object.splits)

lemma reserve_quiet: "reserve_event e \<Longrightarrow> calm e \<and> inv_quiet e"
  by (cases e) (auto simp: inv_quiet_def split: object.splits)

lemma released_inv_quiet: "released_token e = Some tok \<Longrightarrow> inv_quiet e"
  by (cases e) (auto simp: inv_quiet_def)

lemma releases_only_quiet: "releases_only tok e \<Longrightarrow> inv_quiet e"
  by (auto simp: releases_only_def dest: downgrade_quiet released_inv_quiet)

lemma list_all_quiet:
  "list_all E es \<Longrightarrow> (\<And>e. E e \<Longrightarrow> inv_quiet e) \<Longrightarrow> list_all inv_quiet es"
  by (auto elim: list.pred_mono_strong)

fun listing :: "event \<Rightarrow> bool" where
  "listing (RestListShares ep acc zid r) = True"
| "listing (AgentStatus addr r) = True"
| "listing _ = False"

lemma listing_calm: "listing e \<Longrightarrow> calm e"
  by (cases e) auto

lemma loadInventory_yields:
  "yields listing
     (\<lambda>x es. (enEnvZID (EnvStatus env) = [] \<longrightarrow> invRemote (fst x) = None) \<and> (\<forall>h. (enEnvZID (EnvStatus env) = [] \<longrightarrow> invRemote (inventory_from h) = None)
        \<longrightarrow> inventory_from (h @ es) = fst x))
     (loadInventory A env ep acc url)"
proof -
  let ?zid = "enEnvZID (EnvStatus env)"
  have l: "yields listing
      (\<lambda>(remote, err) es. (?zid = [] \<longrightarrow> remote = None) \<and> (\<forall>iv. (?zid = [] \<longrightarrow> invRemote iv = None)
         \<longrightarrow> fold inventory_step es iv = iv\<lparr>invRemote := remote\<rparr>))
      (if ?zid \<noteq> [] then REST_ListShares A ep acc ?zid \<bind>
         (\<lambda>r. case r of Inl e \<Rightarrow> ret (None, Some e) | Inr shares \<Rightarrow> ret (shares, None))
       else ret (None, None))"
    unfolding call_defs
    by (auto intro!: yields_return yields_case_sum
          yields_bind [OF yields_perform [where R = "\<lambda>r es. es = [RestListShares a b c r]" for a b c]])
  show ?thesis
    unfolding loadInventory_def Let_def
    by (rule yields_bind [OF l])
       (auto simp: Agent_Status_def inventory_from_def split: prod.split sum.split option.split
          intro!: yields_return
            yields_bind [OF yields_perform [where R = "\<lambda>r es. es = [AgentStatus a r]" for a]])
qed

section \<open>Reading the inputs\<close>

lemma share_readEnableToken_emits [emits_intros]:
  "(\<And>k r. E (Get KSecret k r)) \<Longrightarrow> emits E (share_readEnableToken A env)"
  unfolding share_readEnableToken_def Let_def call_defs by (auto intro!: emits_intros)

lemma readBasicAuth_emits [emits_intros]:
  "(\<And>k r. E (Get KSecret k r)) \<Longrightarrow> emits E (readBasicAuth A share)"
  unfolding readBasicAuth_def Let_def call_defs by (auto intro!: emits_intros)

lemma otherShareClaimingName_emits [emits_intros]:
  "(\<And>r. E (ListZrokShares AllNamespaces r)) \<Longrightarrow> emits E (otherShareClaimingName A share)"
  unfolding otherShareClaimingName_def call_defs by (auto intro!: emits_intros)

lemma dom_ShareLabels: "ShareLabels s k = Some v \<Longrightarrow> k \<in> set share_label_keys"
  by (auto simp: ShareLabels_def share_label_keys_def Let_def split: if_splits option.splits)

lemma merge_unchanged:
  assumes "\<not> labels_changed cur (ShareLabels s)"
  shows "merge_labels cur (ShareLabels s) = cur"
proof
  fix k
  show "merge_labels cur (ShareLabels s) k = cur k"
  proof (cases "ShareLabels s k")
    case None
    then show ?thesis by (simp add: merge_labels_def)
  next
    case (Some v)
    have "lookup_str cur k = lookup_str (ShareLabels s) k"
      using assms dom_ShareLabels [OF Some] Some unfolding labels_changed_def list_ex_iff by blast
    then have "lookup_str cur k = v" using Some by (simp add: lookup_str_def)
    then show ?thesis using Some by (simp add: merge_labels_def)
  qed
qed

fun finalizer_event :: "event \<Rightarrow> bool" where
  "finalizer_event (Update obj r) = (case obj of ShareObj s \<Rightarrow> ShareFinalizer \<in> Finalizers s | _ \<Rightarrow> False)"
| "finalizer_event _ = False"

lemma finalizer_quiet: "finalizer_event e \<Longrightarrow> calm e \<and> inv_quiet e"
  by (cases e) (auto simp: inv_quiet_def)

lemma ensureFinalizerAndLabels_yields:
  "yields finalizer_event (\<lambda>x. shown_or ShareObj share (snd (snd x))) (ensureFinalizerAndLabels A share)"
proof -
  have "\<not> labels_changed (Labels share) (ShareLabels share) \<Longrightarrow>
        share\<lparr>Labels := merge_labels (Labels share) (ShareLabels share)\<rparr> = share"
    by (simp add: merge_unchanged)
  then show ?thesis
    unfolding ensureFinalizerAndLabels_def Let_def
    by (auto intro!: yields_intros yields_bind [OF yields_k8s(3) [where R' = "\<lambda>x. shown_or ShareObj obj (snd x)" for obj]]
        simp: shown_or_def sent_def AddFinalizer_def ContainsFinalizer_def split: sum.split prod.split)
qed

end
