(* ===== verification/ShareSafety.thy ===== *)
theory ShareSafety
  imports ShareHelpers
begin

text \<open>
  What the reconciler of a live ZrokShare may do. The properties are guards on the history
  of a reconcile (\<open>guarded\<close>): at each call of interest they name the earlier replies that
  allow it. One pass over the stages of \<open>Reconcile\<close> establishes all guards together.
\<close>

section \<open>The guards\<close>

definition name_held_by_other :: "ZrokShare \<Rightarrow> string \<Rightarrow> shareInventory \<Rightarrow> bool" where
  \<comment> \<open>a remote share with another target and not our token carries the reserved name\<close>
  "name_held_by_other s desired iv \<longleftrightarrow>
     (case remoteByName iv (reservedFrontendName s) of
        None \<Rightarrow> False
      | Some holder \<Rightarrow> \<not> TargetsEqual (rsTarget holder) desired
                       \<and> rsToken holder \<noteq> shShareToken (ShareStatus s))"

definition owned_token :: "ZrokShare \<Rightarrow> string \<Rightarrow> shareInventory \<Rightarrow> string \<Rightarrow> bool" where
  "owned_token s desired iv tok \<longleftrightarrow>
     list_ex (\<lambda>d. sdToken d = tok \<and> agent_tied s d) (agents iv) \<or>
     list_ex (\<lambda>r. rsToken r = tok \<and> remote_tied s desired r) (remotes iv)"

definition release_allowed :: "ZrokShare \<Rightarrow> event list \<Rightarrow> event \<Rightarrow> bool" where
  \<comment> \<open>a share is taken down only if the last inventory ties it to the ZrokShare\<close>
  "release_allowed share h e \<longleftrightarrow>
     (case released_token e of
        None \<Rightarrow> True
      | Some tok \<Rightarrow>
          \<exists>s \<in> known share h. \<exists>s0 \<in> known share h.
            (let desired = shUpstreamURL (ShareSpec s0); iv = inventory_from h in
             owned_token s desired iv tok \<and> \<not> name_held_by_other s desired iv))"

definition takes_or_starts :: "event \<Rightarrow> bool" where
  "takes_or_starts e \<longleftrightarrow>
     released_token e \<noteq> None
     \<or> (\<exists>addr req r. e = AgentSharePublic addr req r) \<or> (\<exists>addr req r. e = AgentSharePrivate addr req r)"

definition selected_names :: "ZrokShare \<Rightarrow> NameSelection list" where
  \<comment> \<open>the name that a spec selects, in its name space or the default one\<close>
  "selected_names s =
     (case shNameSelection (ShareSpec s) of
        None \<Rightarrow> []
      | Some sel \<Rightarrow>
          if nsName sel = [] then []
          else [\<lparr>nselNamespaceToken = (if nsNamespace sel = [] then ''public'' else nsNamespace sel),
                 nselName = nsName sel\<rparr>])"

definition reservation_confirmed :: "ZrokShare \<Rightarrow> event list \<Rightarrow> bool" where
  \<comment> \<open>the controller confirmed that every name the spec selects is reserved\<close>
  "reservation_confirmed s h \<longleftrightarrow>
     list_all (\<lambda>sel. \<exists>ep acc.
         RestUpdateShareName ep acc (nselNamespaceToken sel) (nselName sel) True None \<in> set h)
       (selected_names s)"

definition asks_for :: "ZrokShare \<Rightarrow> event list \<Rightarrow> ZrokShare \<Rightarrow> bool" where
  \<comment> \<open>\<open>s\<close> is a state whose name is reserved, or one that was seen after such a state\<close>
  "asks_for share h s \<longleftrightarrow>
     (\<exists>h1 h2 s0. h = h1 @ h2 \<and> s0 \<in> known share h1 \<and> reservation_confirmed s0 h1 \<and> shown_or ShareObj s0 s h2)"

definition reserved_first :: "ZrokShare \<Rightarrow> event list \<Rightarrow> event \<Rightarrow> bool" where
  \<comment> \<open>no share is taken down or started before the name in the spec is reserved, and the agent is
     asked for that name, or for the one of a state that was seen since\<close>
  "reserved_first share h e \<longleftrightarrow>
     (takes_or_starts e \<longrightarrow> (\<exists>s \<in> known share h. reservation_confirmed s h))
     \<and> (\<forall>addr req r. e = AgentSharePublic addr req r \<longrightarrow>
          (\<exists>s. asks_for share h s \<and> spubNameSelections req = selected_names s))"

definition token_backed :: "ZrokShare \<Rightarrow> event list \<Rightarrow> string \<Rightarrow> bool" where
  \<comment> \<open>the agent created a share with the token, or lists one that matches the spec\<close>
  "token_backed share h tok \<longleftrightarrow>
     (\<exists>addr req resp. AgentSharePublic addr req (Inr resp) \<in> set h \<and> sprToken resp = tok)
     \<or> (\<exists>addr req. AgentSharePrivate addr req (Inr tok) \<in> set h)
     \<or> (\<exists>s \<in> known share h. \<exists>s0 \<in> known share h. \<exists>d. Some d \<in> set (invAgent (inventory_from h))
          \<and> sdToken d = tok \<and> agentShareMatchesSpec s d (shUpstreamURL (ShareSpec s0)))"

definition ready_backed :: "ZrokShare \<Rightarrow> event list \<Rightarrow> event \<Rightarrow> bool" where
  "ready_backed share h e \<longleftrightarrow>
     (\<forall>before s r. e = StatusPatch before (ShareObj s) r \<longrightarrow> share_ready s
        \<longrightarrow> token_backed share h (shShareToken (ShareStatus s)))"

definition only_old_names :: "ZrokShare \<Rightarrow> event list \<Rightarrow> event \<Rightarrow> bool" where
  \<comment> \<open>the only name given back is the one the annotation remembers, and not the current one\<close>
  "only_old_names share h e \<longleftrightarrow>
     (\<forall>ep acc ns n r. e = RestDeleteShareName ep acc ns n r \<longrightarrow>
        (\<exists>s \<in> known share h. n \<noteq> [] \<and> n \<noteq> reservedFrontendName s
           \<and> lookup_str (Annotations s) annotationReclaimName = n))"

definition share_guard :: "ZrokShare \<Rightarrow> event list \<Rightarrow> event \<Rightarrow> bool" where
  "share_guard share h e \<longleftrightarrow>
     release_allowed share h e \<and> reserved_first share h e \<and> ready_backed share h e
     \<and> only_old_names share h e"

lemma share_guard_calm: "calm e \<Longrightarrow> share_guard share h e"
  by (cases e)
     (auto simp: share_guard_def release_allowed_def reserved_first_def ready_backed_def
        only_old_names_def takes_or_starts_def)

section \<open>Facts that survive quiet events\<close>

text \<open>What a stage of \<open>Reconcile\<close> can rely on when it starts at history \<open>h\<close>.\<close>

definition stage_ok :: "ZrokShare \<Rightarrow> reconcile_vars \<Rightarrow> event list \<Rightarrow> bool" where
  "stage_ok base v h \<longleftrightarrow>
     (\<exists>s0 \<in> known base h. vDesired v = shUpstreamURL (ShareSpec s0)) \<and>
     (enEnvZID (EnvStatus (vEnv v)) = [] \<longrightarrow> invRemote (inventory_from h) = None)"

definition some_reserved :: "ZrokShare \<Rightarrow> event list \<Rightarrow> bool" where
  "some_reserved base h \<longleftrightarrow> (\<exists>s \<in> known base h. reservation_confirmed s h)"

lemma name_reserved_confirmed: "name_reserved s h \<Longrightarrow> reservation_confirmed s h"
  by (auto simp: name_reserved_def reservation_confirmed_def selected_names_def reservedFrontendName_def
      nameNamespaceToken_def split: option.splits) blast+

lemma reservation_confirmed_mono: "reservation_confirmed s h \<Longrightarrow> reservation_confirmed s (h @ es)"
  unfolding reservation_confirmed_def by (erule list.pred_mono_strong) auto

lemma some_reserved_mono: "some_reserved base h \<Longrightarrow> some_reserved base (h @ es)"
  unfolding some_reserved_def using known_mono reservation_confirmed_mono by blast

lemma asks_for_known: "asks_for base h s \<Longrightarrow> s \<in> known base h"
  using known_shown unfolding asks_for_def by blast

lemma asks_for_reserved: "asks_for base h s \<Longrightarrow> some_reserved base h"
  unfolding asks_for_def using some_reserved_mono by (fastforce simp: some_reserved_def)

lemma asks_for_shown: "asks_for base h s \<Longrightarrow> shown_or ShareObj s s' es \<Longrightarrow> asks_for base (h @ es) s'"
  unfolding asks_for_def using shown_or_trans by (metis append.assoc)

lemma asks_for_mono: "asks_for base h s \<Longrightarrow> asks_for base (h @ es) s"
  by (erule asks_for_shown) (simp add: shown_or_def)

lemma shown_or_later: "shown_or ShareObj a b es' \<Longrightarrow> shown_or ShareObj a b (es @ es')"
  by (auto simp: shown_or_def)

lemma shown_or_Cons:
  "shown_or ShareObj a b es \<Longrightarrow> shown_or ShareObj b c es' \<Longrightarrow> shown_or ShareObj a c (es @ e # es')"
  using shown_or_trans [of ShareObj a b es c "e # es'"] shown_or_later [of b c es' "[e]"] by simp

lemma asks_forI: "s \<in> known base h \<Longrightarrow> name_reserved s h \<Longrightarrow> asks_for base h s"
  unfolding asks_for_def
  by (intro exI [of _ h] exI [of _ "[]"] exI [of _ s]) (simp add: shown_or_def name_reserved_confirmed)

lemma public_request_names: "spubNameSelections (public_request v share) = selected_names share"
  by (simp add: public_request_def selected_names_def reservedFrontendName_def nameNamespaceToken_def Let_def
      split: option.split)

lemma stage_ok_quiet: "stage_ok base v h \<Longrightarrow> list_all inv_quiet es \<Longrightarrow> stage_ok base v (h @ es)"
  unfolding stage_ok_def using inventory_from_inv_quiet [of es h] known_mono by fastforce

lemma stage_ok_snoc: "stage_ok base v h \<Longrightarrow> inv_quiet e \<Longrightarrow> stage_ok base v (h @ [e])"
  using stage_ok_quiet [of base v h "[e]"] by simp

lemma token_backed_quiet:
  assumes "token_backed base h tok" and "list_all inv_quiet es"
  shows "token_backed base (h @ es) tok"
proof -
  have "inventory_from (h @ es) = inventory_from h" using assms(2) by (rule inventory_from_inv_quiet)
  then show ?thesis using assms(1) known_mono unfolding token_backed_def by fastforce
qed

section \<open>Releasing what the inventory ties to the share\<close>

lemma classified_owned:
  assumes "\<not> foreignName (classifyShare s desired iv)"
  shows "\<not> name_held_by_other s desired iv"
    and "clsAgent (classifyShare s desired iv) = Some d \<Longrightarrow> owned_token s desired iv (sdToken d)"
    and "clsRemote (classifyShare s desired iv) = Some r \<Longrightarrow> owned_token s desired iv (rsToken r)"
proof -
  show "\<not> name_held_by_other s desired iv"
    using assms by (auto simp: name_held_by_other_def classify_foreign split: option.splits)
  show "owned_token s desired iv (sdToken d)" if "clsAgent (classifyShare s desired iv) = Some d"
    using classify_agent_mem [OF that] by (auto simp: owned_token_def list_ex_iff set_agents)
  show "owned_token s desired iv (rsToken r)" if "clsRemote (classifyShare s desired iv) = Some r"
    using classify_remote_mem [OF that] classify_remote_tied [OF that assms]
    by (auto simp: owned_token_def list_ex_iff)
qed

lemma heal_token_owned:
  "heal_token s' (classifyShare s desired iv) desired' = Some tok \<Longrightarrow>
   \<not> foreignName (classifyShare s desired iv) \<Longrightarrow> owned_token s desired iv tok"
  using classified_owned(2,3) [of s desired iv]
  by (fastforce simp: heal_token_def split: option.splits if_splits)

lemma release_guardI:
  assumes "stage_ok base v h" and "some_reserved base h" and "s \<in> known base h"
    and "\<not> foreignName (classifyShare s (vDesired v) (inventory_from h))"
    and "owned_token s (vDesired v) (inventory_from h) tok"
    and "list_all inv_quiet es" and "released_token e = Some tok"
  shows "share_guard base (h @ es) e"
proof -
  obtain s0 where s0: "s0 \<in> known base h" "vDesired v = shUpstreamURL (ShareSpec s0)"
    using assms(1) by (auto simp: stage_ok_def)
  moreover have "inventory_from (h @ es) = inventory_from h"
    using assms(6) by (rule inventory_from_inv_quiet)
  moreover note classified_owned(1) [OF assms(4)]
  ultimately have "owned_token s (shUpstreamURL (ShareSpec s0)) (inventory_from (h @ es)) tok"
    and "\<not> name_held_by_other s (shUpstreamURL (ShareSpec s0)) (inventory_from (h @ es))"
    using assms(5) by auto
  then have "release_allowed base (h @ es) e"
    using assms(3,7) s0(1) known_mono unfolding release_allowed_def Let_def by fastforce
  moreover have "reserved_first base (h @ es) e"
    using some_reserved_mono [OF assms(2)] assms(7) by (auto simp: reserved_first_def some_reserved_def)
  moreover have "ready_backed base (h @ es) e" "only_old_names base (h @ es) e"
    using assms(7) by (auto simp: ready_backed_def only_old_names_def)
  ultimately show ?thesis by (simp add: share_guard_def)
qed

section \<open>Stepping over the helper methods\<close>

lemma guard_tail: "emits downgrade m \<Longrightarrow> gwp (share_guard base) m any_end h"
  by (erule gwp_emits) (auto dest: downgrade_quiet intro: share_guard_calm)

lemma setNotReady_emits [emits_intros]: "emits downgrade (share_setNotReady A share rsn msg)"
  by (rule emits_yields [OF setNotReady_yields])

lemma share_record_emits [emits_intros]: "emits downgrade (share_record share ty rsn action note)"
  by (simp add: share_record_def emits_intros)

lemmas guard_ends = setNameConflict_emits [THEN guard_tail]

lemma guard_error:
  "emits downgrade m \<Longrightarrow>
   gwp (share_guard base) (share_setNotReady A share rsn msg \<bind> (\<lambda>_. m)) any_end h"
  by (rule guard_tail) (auto intro!: emits_intros)

text \<open>\<open>markShareReady\<close> may run where its token is backed.\<close>

lemma mark_ready_token [simp]:
  "shShareToken (ShareStatus (snd (mark_ready_mutation mode token eps url t s))) = token"
  by (auto simp: mark_ready_mutation_def share_condition_def share_set_status_def Let_def)

lemma ready_inv_quiet: "ready_event m t eps u e \<Longrightarrow> inv_quiet e"
  unfolding ready_event_def patch_event_def using share_patch_quiet
  by (elim disjE exE conjE) (simp_all add: inv_quiet_def)

lemma guard_ready:
  assumes "token_backed base h token"
  shows "gwp (share_guard base) (markShareReady A share token eps digest) any_end h"
proof (rule gwp_emits [OF markShareReady_emits])
  fix es e
  let ?E = "ready_event (desiredShareMode share) token eps (assigned_url share token eps)"
  assume "list_all ?E es" and e: "?E e"
  then have "list_all inv_quiet es" by (auto elim!: list_all_quiet intro: ready_inv_quiet)
  then have "token_backed base (h @ es) token" using token_backed_quiet [OF assms] by simp
  then show "share_guard base (h @ es) e"
    using e
    by (auto simp: ready_event_def patch_event_def intro: share_guard_calm dest: share_patch_quiet)
       (auto simp: share_guard_def release_allowed_def reserved_first_def ready_backed_def
          only_old_names_def takes_or_starts_def)
qed auto

lemma guard_adopt:
  assumes ok: "stage_ok base v h" and s: "s \<in> known base h"
    and a: "adoptableAgentShare s (classifyShare s' (vDesired v) (inventory_from h)) (vDesired v) dig = Some d"
  shows "gwp (share_guard base) (markShareReady A share (sdToken d) eps digest) any_end h"
proof (rule guard_ready)
  obtain s0 where "s0 \<in> known base h" "vDesired v = shUpstreamURL (ShareSpec s0)"
    using ok by (auto simp: stage_ok_def)
  moreover have "Some d \<in> set (invAgent (inventory_from h))" "agentShareMatchesSpec s d (vDesired v)"
    using a classify_agent_mem by (auto simp: adoptable_Some_iff)
  ultimately show "token_backed base h (sdToken d)" using s unfolding token_backed_def by metis
qed

text \<open>A quiet helper that hands the share on.\<close>

lemma gwp_handover:
  fixes m :: "('a \<times> ZrokShare) op"
  assumes "yields E (\<lambda>x. shown_or ShareObj share (snd x)) m"
    and "\<And>e. E e \<Longrightarrow> calm e \<and> inv_quiet e"
    and "\<And>x es. list_all inv_quiet es \<Longrightarrow> shown_or ShareObj share (snd x) es \<Longrightarrow> Q x (h @ es)"
  shows "gwp (share_guard base) m Q h"
proof (rule gwp_yields [OF assms(1)])
  show "share_guard base (h @ es) e" if "E e" for es e using assms(2) [OF that] share_guard_calm by simp
next
  fix x :: "'a \<times> ZrokShare" and es
  assume "list_all E es" and "shown_or ShareObj share (snd x) es"
  then show "Q x (h @ es)"
    using assms(2) by (intro assms(3)) (auto elim: list_all_quiet)
qed

lemmas gwp_annotate = gwp_handover [OF patchShareAnnotation_yields share_patch_quiet]

lemma guard_flush:
  assumes k: "share \<in> known base h"
    and q: "\<And>x es. list_all inv_quiet es \<Longrightarrow> shown_or ShareObj share (snd x) es \<Longrightarrow> Q x (h @ es)"
  shows "gwp (share_guard base) (flushReclaimName A share ep acc) Q h"
proof -
  let ?old = "lookup_str (Annotations share) annotationReclaimName"
  have forget: "gwp (share_guard base) (patchShareAnnotation A share key v \<bind>
      (\<lambda>(err, share). ret ((no_requeue, err), share))) Q (h @ es)"
    if es: "list_all inv_quiet es" for es key v
  proof (rule gwp_bind, rule gwp_annotate, assumption)
    fix x :: "go_error option \<times> ZrokShare" and es'
    assume "list_all inv_quiet es'" "shown_or ShareObj share (snd x) es'"
    then show "gwp (share_guard base) (case x of (err, share) \<Rightarrow> ret ((no_requeue, err), share)) Q
        ((h @ es) @ es')"
      using q [of "es @ es'" "((no_requeue, fst x), snd x)"] es shown_or_later
      by (cases x) (auto intro!: gwp_return)
  qed
  have del: "share_guard base h (RestDeleteShareName ep acc ns ?old r)"
    if "?old \<noteq> []" "?old \<noteq> reservedFrontendName share" for ns r
    using that k
    by (auto simp: share_guard_def release_allowed_def reserved_first_def ready_backed_def
        only_old_names_def takes_or_starts_def)
  have one: "list_all inv_quiet [RestDeleteShareName ep acc ns n r]" for ns n r
    by (simp add: inv_quiet_def)
  show ?thesis
    unfolding flushReclaimName_def Let_def call_defs
    using forget [of "[]"] forget [OF one] q [of "[]"] q [OF one] k known_mono [OF k] del
    by (intro gwp_if gwp_bind [OF gwp_perform] gwp_case_option gwp_return) auto
qed

lemma guard_reclaim:
  assumes k: "share \<in> known base h"
    and q: "\<And>x es. list_all inv_quiet es \<Longrightarrow> shown_or ShareObj share (snd x) es \<Longrightarrow> Q x (h @ es)"
  shows "gwp (share_guard base) (reclaimPreviousName A share ep acc old b) Q h"
proof -
  have rcd: "gwp (share_guard base) (share_record s ty rsn action msg \<bind> (\<lambda>_. m)) Q' h'"
    if "\<And>e. inv_quiet e \<Longrightarrow> gwp (share_guard base) m Q' (h' @ [e])" for s ty rsn action msg m Q' h'
    using that unfolding share_record_def
    by (intro gwp_bind gwp_emit share_guard_calm) (simp_all add: inv_quiet_def)
  have flush: "gwp (share_guard base) (case x of (err, share) \<Rightarrow> case err of
        None \<Rightarrow> share_record share ty rsn action (msg share) \<bind> (\<lambda>_. flushReclaimName A share ep acc)
      | Some e \<Rightarrow> ret ((no_requeue, Some e), share)) Q (h @ es)"
    if "list_all inv_quiet es" "shown_or ShareObj share (snd x) es" for x es ty rsn action msg
    using that q [of es "((no_requeue, Some e), snd x)" for e] q [of "es @ e # es'" for e es']
      known_mono [OF known_shown [OF k that(2)]] shown_or_Cons [OF that(2)]
    by (cases x) (auto intro!: gwp_return rcd guard_flush split: option.split)
  show ?thesis
    unfolding reclaimPreviousName_def Let_def
    using q [of "[]" "((no_requeue, None), share)"] q [of "[e]" "((no_requeue, None), share)" for e]
    by (intro gwp_if gwp_return rcd gwp_bind [OF gwp_annotate] flush) (auto simp: shown_or_def)
qed

section \<open>The stages\<close>

lemma gwp_inventory:
  assumes "stage_ok base v h" and "share \<in> known base h"
    and "\<And>iv err es. stage_ok base v (h @ es) \<Longrightarrow> share \<in> known base (h @ es)
           \<Longrightarrow> iv = inventory_from (h @ es) \<Longrightarrow> Q (iv, err) (h @ es)"
  shows "gwp (share_guard base) (inventory_of A v) Q h"
  unfolding inventory_of_def
proof (rule gwp_yields [OF loadInventory_yields])
  show "listing e \<Longrightarrow> share_guard base (h @ es) e" for es e
    by (rule share_guard_calm [OF listing_calm])
next
  fix x :: "shareInventory \<times> go_error option" and es
  assume *: "(enEnvZID (EnvStatus (vEnv v)) = [] \<longrightarrow> invRemote (fst x) = None) \<and>
      (\<forall>h. (enEnvZID (EnvStatus (vEnv v)) = [] \<longrightarrow> invRemote (inventory_from h) = None)
        \<longrightarrow> inventory_from (h @ es) = fst x)"
  obtain iv err where x: "x = (iv, err)" by (cases x)
  have iv: "iv = inventory_from (h @ es)" using * assms(1) x by (auto simp: stage_ok_def)
  show "Q x (h @ es)" unfolding x
  proof (rule assms(3) [OF _ _ iv])
    show "share \<in> known base (h @ es)" using assms(2) by (rule known_mono)
    have "enEnvZID (EnvStatus (vEnv v)) = [] \<longrightarrow> invRemote (inventory_from (h @ es)) = None"
      using * x iv by simp
    moreover have "\<exists>s0 \<in> known base (h @ es). vDesired v = shUpstreamURL (ShareSpec s0)"
      using assms(1) known_mono unfolding stage_ok_def by blast
    ultimately show "stage_ok base v (h @ es)" by (simp add: stage_ok_def)
  qed
qed

lemma gwp_releaseOurs:
  assumes "stage_ok base v h" and "some_reserved base h" and "s \<in> known base h"
    and "\<not> foreignName (classifyShare s (vDesired v) (inventory_from h))"
    and "owned_token s (vDesired v) (inventory_from h) tok"
    and "\<And>r es. list_all inv_quiet es \<Longrightarrow> Q r (h @ es)"
  shows "gwp (share_guard base) (releaseOurs A env ep acc url tok) Q h"
proof (rule gwp_emits [OF releaseOurs_yields])
  fix es e assume "list_all (\<lambda>e. released_token e = Some tok) es" "released_token e = Some tok"
  then show "share_guard base (h @ es) e"
    by (intro release_guardI [OF assms(1-5)]) (auto elim: list_all_quiet dest: released_inv_quiet)
next
  fix r es assume "list_all (\<lambda>e. released_token e = Some tok) es"
  then show "Q r (h @ es)" by (intro assms(6)) (auto elim: list_all_quiet dest: released_inv_quiet)
qed

lemma handleShareConflict_guard:
  assumes ok: "stage_ok base v h" and r: "some_reserved base h" and k: "share \<in> known base h"
  shows "gwp (share_guard base) (handleShareConflict A v share) any_end h"
  unfolding handleShareConflict_def Let_def
  by (rule gwp_bind, rule gwp_inventory [OF ok k],
      auto intro!: gwp_intros gwp_bind [OF gwp_releaseOurs] guard_ends guard_adopt some_reserved_mono [OF r]
        intro: classified_owned)
     (rule guard_tail; auto intro!: emits_intros)+

lemma start_guard:
  assumes "asks_for base h share"
  shows "share_guard base h (AgentSharePublic addr (public_request v share) r)"
    "share_guard base h (AgentSharePrivate addr preq pr)"
  using assms asks_for_reserved [OF assms] public_request_names [of v share]
  by (auto simp: share_guard_def release_allowed_def reserved_first_def ready_backed_def
      only_old_names_def some_reserved_def)

lemma token_backed_created:
  "token_backed base (h @ [AgentSharePublic addr req (Inr resp)]) (sprToken resp)"
  "token_backed base (h @ [AgentSharePrivate addr preq (Inr tok)]) tok"
  unfolding token_backed_def by (metis in_set_conv_decomp)+

lemma Reconcile_create_guard:
  assumes ok: "stage_ok base v h" and a: "asks_for base h share"
  shows "gwp (share_guard base) (Reconcile_create A v share) any_end h"
  unfolding Reconcile_create_def call_defs
proof (intro gwp_if gwp_bind [OF gwp_perform] gwp_case_sum)
  show "gwp (share_guard base) (handleShareConflict A v share) any_end
      (h @ [AgentSharePublic (vBaseURL v) (public_request v share) x])" for x
    by (intro handleShareConflict_guard stage_ok_snoc some_reserved_mono known_mono ok asks_for_known [OF a]
        asks_for_reserved [OF a]) (simp add: inv_quiet_def)
qed (auto intro!: start_guard [OF a] guard_ready token_backed_created,
     (rule guard_tail; auto intro!: emits_intros)+)

lemma Reconcile_heal_guard:
  assumes ok: "stage_ok base v h" and a: "asks_for base h share"
    and s: "s \<in> known base h" and cls: "cls = classifyShare s (vDesired v) (inventory_from h)"
    and nf: "\<not> foreignName cls"
  shows "gwp (share_guard base) (Reconcile_heal A v cls share) any_end h"
proof (cases "heal_token share cls (vDesired v)")
  case None
  then show ?thesis by (simp add: Reconcile_heal_def Reconcile_create_guard ok a)
next
  case (Some tok)
  have owned: "owned_token s (vDesired v) (inventory_from h) tok"
    using heal_token_owned [of share s "vDesired v" "inventory_from h"] Some cls nf by simp
  have reclaim: "gwp (share_guard base) (reclaimPreviousName A share' ep acc old b \<bind>
      (\<lambda>((res, err), share). if \<not> Result_IsZero res \<or> err \<noteq> None then ret (res, err)
        else Reconcile_create A v share)) any_end (h @ es)"
    if es: "list_all inv_quiet es" and k': "asks_for base (h @ es) share'" for share' ep acc old b es
    using asks_for_shown [OF k']
    by (intro gwp_bind guard_reclaim [OF asks_for_known [OF k']])
       (auto intro!: gwp_intros Reconcile_create_guard stage_ok_quiet [OF ok] es split: prod.split)
  show ?thesis
    unfolding Reconcile_heal_def Let_def Some option.case
  proof (rule gwp_bind, rule gwp_yields [OF releaseAndClear_yields])
    fix es e assume "list_all (releases_only tok) es" and e: "releases_only tok e"
    then have "list_all inv_quiet es" by (auto elim: list_all_quiet dest: releases_only_quiet)
    then show "share_guard base (h @ es) e"
      using e release_guardI [OF ok asks_for_reserved [OF a] s _ owned] nf cls
      by (auto simp: releases_only_def dest: downgrade_quiet intro: share_guard_calm)
  next
    fix x :: "go_error option \<times> ZrokShare" and es
    assume "list_all (releases_only tok) es" and "shown_or ShareObj share (snd x) es"
    then have "list_all inv_quiet es" "asks_for base (h @ es) (snd x)"
      using asks_for_shown [OF a] by (auto elim: list_all_quiet dest: releases_only_quiet)
    then show "gwp (share_guard base)
        (case x of (err, share') \<Rightarrow> case err of
            None \<Rightarrow> reclaimPreviousName A share' (vApiEndpoint v) (vToken v) (liveFrontendName share cls)
                (shReservation (ShareStatus share) = ReservationReserved) \<bind>
              (\<lambda>((res, err), share). if \<not> Result_IsZero res \<or> err \<noteq> None then ret (res, err)
                 else Reconcile_create A v share)
          | Some e \<Rightarrow> ret (no_requeue, Some e)) any_end (h @ es)"
      by (auto intro!: gwp_intros reclaim split: prod.split)
  qed
qed

lemma Reconcile_name_guard:
  assumes ok: "stage_ok base v h" and k: "share \<in> known base h"
    and cls: "cls = classifyShare share (vDesired v) (inventory_from h)" and nf: "\<not> foreignName cls"
  shows "gwp (share_guard base) (Reconcile_name A v cls share) any_end h"
proof -
  have flush: "gwp (share_guard base) (flushReclaimName A share ep acc \<bind>
      (\<lambda>((res, err), share'). if \<not> Result_IsZero res \<or> err \<noteq> None then ret (res, err)
        else case adoptableAgentShare share' cls (vDesired v) (vDigest v) of
          None \<Rightarrow> Reconcile_heal A v cls share'
        | Some d \<Rightarrow> markShareReady A share' (sdToken d) (sdFrontendEndpoint d) (vDigest v))) any_end (h @ es)"
    if es: "list_all inv_quiet es" and nr: "name_reserved share es" for es ep acc
  proof (rule gwp_bind, rule guard_flush [OF known_mono [OF k]])
    fix x :: "outcome \<times> ZrokShare" and es'
    assume "list_all inv_quiet es'" and sh: "shown_or ShareObj share (snd x) es'"
    then have q: "list_all inv_quiet (es @ es')" using es by simp
    have iv: "inventory_from (h @ es @ es') = inventory_from h" using inventory_from_inv_quiet [OF q] .
    have "name_reserved share (h @ es)" using nr by (auto simp: name_reserved_def)
    then have a: "asks_for base ((h @ es) @ es') (snd x)"
      using asks_for_shown [OF asks_forI [OF known_mono [OF k]] sh] by blast
    note k' = asks_for_known [OF a]
    have heal: "gwp (share_guard base) (Reconcile_heal A v cls (snd x)) any_end ((h @ es) @ es')"
      using k a cls nf stage_ok_quiet [OF ok q] iv
      by (intro Reconcile_heal_guard [where s = share]) (auto intro: known_mono)
    have adopt: "gwp (share_guard base) (markShareReady A share2 (sdToken d) eps dig) any_end ((h @ es) @ es')"
      if "adoptableAgentShare (snd x) cls (vDesired v) (vDigest v) = Some d" for share2 d eps dig
      using that k' cls iv stage_ok_quiet [OF ok q]
      by (intro guard_adopt [where s = "snd x" and s' = share and v = v]) auto
    show "gwp (share_guard base) (case x of (xa, share') \<Rightarrow> (case xa of (res, err) \<Rightarrow> \<lambda>share'.
        if \<not> Result_IsZero res \<or> err \<noteq> None then ret (res, err)
        else case adoptableAgentShare share' cls (vDesired v) (vDigest v) of
          None \<Rightarrow> Reconcile_heal A v cls share'
        | Some d \<Rightarrow> markShareReady A share' (sdToken d) (sdFrontendEndpoint d) (vDigest v)) share')
        any_end ((h @ es) @ es')"
      using heal adopt by (cases x) (auto intro!: gwp_intros)
  qed
  show ?thesis
    unfolding Reconcile_name_def
  proof (rule gwp_bind, rule gwp_yields [OF ensureReservedName_yields])
    fix x :: "go_error option \<times> ZrokShare" and es
    assume "list_all reserve_event es"
      and x: "shown_or ShareObj share (snd x) es \<and>
              (fst x = None \<longrightarrow> snd x = share \<and> name_reserved share es)"
    then have "list_all inv_quiet es" by (auto elim: list_all_quiet dest: reserve_quiet)
    with x show "gwp (share_guard base) (case x of (err, share) \<Rightarrow> case err of
          None \<Rightarrow> flushReclaimName A share (vApiEndpoint v) (vToken v) \<bind>
            (\<lambda>((res, err), share'). if \<not> Result_IsZero res \<or> err \<noteq> None then ret (res, err)
              else case adoptableAgentShare share' cls (vDesired v) (vDigest v) of
                None \<Rightarrow> Reconcile_heal A v cls share'
              | Some d \<Rightarrow> markShareReady A share' (sdToken d) (sdFrontendEndpoint d) (vDigest v))
        | Some e \<Rightarrow> if IsUnauthorized e then setNameConflict A share
              (''reserved name '' @ fmt_q (reservedFrontendName share)
               @ '' is owned by another zrok account; pick a different nameSelection.name'')
            else ret (no_requeue, Some e)) any_end (h @ es)"
      by (cases x) (auto intro!: gwp_intros flush guard_ends)
  qed (auto dest: reserve_quiet intro: share_guard_calm)
qed

lemma Reconcile_inventory_guard:
  assumes "stage_ok base v h" and "share \<in> known base h"
  shows "gwp (share_guard base) (Reconcile_inventory A v share) any_end h"
  unfolding Reconcile_inventory_def Let_def
  by (rule gwp_bind, rule gwp_inventory [OF assms])
     (auto intro!: gwp_intros guard_ends guard_error guard_adopt Reconcile_name_guard emits_intros)

text \<open>Up to the inventory nothing needs a justification and nothing is listed.\<close>

lemma gwp_prologue:
  assumes "emits (\<lambda>e. calm e \<and> inv_quiet e) m" and "\<And>x es. list_all inv_quiet es \<Longrightarrow> Q x (h @ es)"
  shows "gwp (share_guard base) m Q h"
  using assms(1) by (rule gwp_emits) (auto intro!: assms(2) share_guard_calm elim: list_all_quiet)

lemma Reconcile_inputs_guard:
  assumes h: "inventory_from h = empty_inventory" and k: "share \<in> known base h"
  shows "gwp (share_guard base) (Reconcile_inputs A mode env share) any_end h"
proof -
  have inv: "gwp (share_guard base) (Reconcile_inventory A
        \<lparr>vEnv = env, vApiEndpoint = a, vToken = b, vBaseURL = c, vMode = d, vBackendMode = e,
         vBasicAuth = f, vDesired = shUpstreamURL (ShareSpec share), vDigest = g\<rparr> share) any_end
        (((h @ es1) @ es2) @ es3)"
    if "list_all inv_quiet es1" "list_all inv_quiet es2" "list_all inv_quiet es3" for es1 es2 es3 a b c d e f g
    using that h k
    by (intro Reconcile_inventory_guard)
       (auto simp: stage_ok_def inventory_from_inv_quiet simp del: append_assoc intro!: known_mono)
  show ?thesis
    unfolding Reconcile_inputs_def Let_def
    apply (rule gwp_bind, rule gwp_prologue [OF share_readEnableToken_emits], simp add: inv_quiet_def)
    apply (rule gwp_case_sum, (rule guard_error, (intro emits_intros; simp)))
    apply (rule gwp_bind, rule gwp_prologue [OF readBasicAuth_emits], simp add: inv_quiet_def)
    apply (rule gwp_case_sum, (rule guard_error, (intro emits_intros; simp)))
    apply (rule gwp_bind, rule gwp_prologue [OF otherShareClaimingName_emits], simp add: inv_quiet_def)
    apply (intro gwp_case_sum gwp_case_option)
      apply (rule gwp_return, simp)
     apply (rule inv; assumption)
    apply (rule guard_ends)
    done
qed

lemma Reconcile_env_guard:
  assumes h: "inventory_from h = empty_inventory" and k: "share \<in> known base h"
  shows "gwp (share_guard base) (Reconcile_env A mode share) any_end h"
proof -
  have get: "emits (\<lambda>e. calm e \<and> inv_quiet e) (getEnvironment A share)"
    unfolding getEnvironment_def call_defs by (auto intro!: emits_intros simp: inv_quiet_def)
  have waiting: "emits downgrade (PatchShareStatus A share waiting_mutation \<bind>
      (\<lambda>(_, share). emit (SetShareReady (Namespace share) (Name share) False) \<bind>
        (\<lambda>_. ret (requeue_after 10, None :: go_error option))))"
    by (intro emits_intros emits_yields [OF PatchShareStatus_downgrade]) auto
  have inputs: "gwp (share_guard base) (Reconcile_inputs A mode env share) any_end (h @ es)"
    if "list_all inv_quiet es" for env es
    using inventory_from_inv_quiet [OF that, of h] h k by (intro Reconcile_inputs_guard known_mono) simp_all
  show ?thesis
    unfolding Reconcile_env_def
    by (rule gwp_bind, rule gwp_prologue [OF get], intro gwp_case_sum gwp_if)
       (auto intro!: guard_error guard_tail [OF waiting] guard_tail [OF emits_bind [OF emits_emit]]
          inputs emits_return)
qed

lemma Reconcile_live_guard:
  "gwp (share_guard share) (Reconcile_live A restrictUpstream share) any_end []"
  unfolding Reconcile_live_def
proof (rule gwp_bind, rule gwp_yields [OF ensureFinalizerAndLabels_yields])
  fix x :: "bool \<times> go_error option \<times> ZrokShare" and es
  assume "list_all finalizer_event es" and s: "shown_or ShareObj share (snd (snd x)) es"
  then have "list_all inv_quiet es" by (auto elim: list_all_quiet dest: finalizer_quiet)
  then have "inventory_from ([] @ es) = empty_inventory"
    using inventory_from_inv_quiet [of es "[]"] by simp
  moreover have "snd (snd x) \<in> known share ([] @ es)" using s by (auto simp: states_def shown_or_def)
  ultimately show "gwp (share_guard share) (case x of (requeue, err, share) \<Rightarrow>
       if err \<noteq> None then ret (no_requeue, err)
       else if requeue then ret (no_requeue, None)
       else case share_spec_error restrictUpstream share of
          None \<Rightarrow> Reconcile_env A (desiredShareMode share) share
        | Some (rsn, msg) \<Rightarrow> share_setNotReady A share rsn msg \<bind> (\<lambda>_. ret (no_requeue, None)))
     any_end ([] @ es)"
    by (cases x) (auto intro!: gwp_intros Reconcile_env_guard guard_error emits_return)
qed (auto dest: finalizer_quiet intro: share_guard_calm)

lemma live_trace_guard: "guarded (share_guard share) (trace_of (Reconcile_live A restrictUpstream share))"
  by (rule gwp_trace [OF Reconcile_live_guard])

section \<open>Properties of the live reconcile\<close>

text \<open>C1: A reconcile of a live ZrokShare takes down a share, in the agent or at the zrok
  controller, only if the last inventory it read ties that share's token to the ZrokShare
  (by its status token, its private token, or its reserved name together with its target, or
  an active agent share under the reserved name), and only if in that inventory the reserved
  name is not held by a share with another target. This holds for every behaviour of the API
  server, the zrok controller and the agent.\<close>

theorem live_reconcile_releases_only_own_shares:
  "guarded (release_allowed share) (trace_of (Reconcile_live A restrictUpstream share))"
  using live_trace_guard by (rule guarded_mono) (simp add: share_guard_def)

text \<open>C18: A reconcile of a live ZrokShare takes no share down and asks the agent for no new
  share before the zrok controller has confirmed the reservation of the name that a state of the
  ZrokShare selects, in the selected name space or the default one, unless that state selects none:
  a rename first secures the new name. A public share is asked for under exactly the name of such
  a state, or, as every patch of the ZrokShare reads it again, of a state read since.\<close>

theorem live_reconcile_reserves_name_first:
  "guarded (reserved_first share) (trace_of (Reconcile_live A restrictUpstream share))"
  using live_trace_guard by (rule guarded_mono) (simp add: share_guard_def)

text \<open>C3: The status is patched to \<open>Ready\<close> with a share token only if the agent returned
  that token for a share it has just created, or listed it for an active share that matches
  the spec (target, modes, \<open>closed\<close>, private token and reserved name).\<close>

theorem live_reconcile_ready_is_backed:
  "guarded (ready_backed share) (trace_of (Reconcile_live A restrictUpstream share))"
  using live_trace_guard by (rule guarded_mono) (simp add: share_guard_def)

text \<open>C21: A reconcile of a live ZrokShare gives back a reserved name only if the
  \<open>reclaim-name\<close> annotation of a state it has seen holds that name and the spec of that
  state selects another one: the name in use is never deleted.\<close>

theorem live_reconcile_deletes_only_old_names:
  "guarded (only_old_names share) (trace_of (Reconcile_live A restrictUpstream share))"
  using live_trace_guard by (rule guarded_mono) (simp add: share_guard_def)

end
