(* ===== verification/ShareDelete.thy ===== *)
theory ShareDelete
  imports ShareHelpers
begin

text \<open>
  Deleting a ZrokShare, against every reply of the agent, the controller and the cluster: which
  remote shares and names may be taken down, and what must have been done before the finalizer
  goes.
\<close>

section \<open>What the deletion knows\<close>

text \<open>Everything is read off the replies so far: the environment, the enable token, the inventory
  and the other claimants of the name.\<close>

definition environment_read :: "event list \<Rightarrow> ZrokEnvironment \<Rightarrow> bool" where
  "environment_read h env \<longleftrightarrow> (\<exists>k. Get KEnv k (Inr (EnvObj env)) \<in> set h)"

definition enable_token_read :: "ZrokEnvironment \<Rightarrow> event list \<Rightarrow> string \<Rightarrow> bool" where
  \<comment> \<open>the Secret that the environment names was read, and holds the token\<close>
  "enable_token_read env h acc \<longleftrightarrow>
     (let ref = enEnableTokenSecretRef (EnvSpec env) in
      skName ref \<noteq> [] \<and> acc \<noteq> [] \<and>
      (\<exists>secret. Get KSecret (Namespace env, skName ref) (Inr (SecretObj secret)) \<in> set h
         \<and> Data secret (if skKey ref = [] then DefaultEnableTokenKey else skKey ref) = Some acc))"

definition api_of :: "ZrokEnvironment \<Rightarrow> string" where
  "api_of env = (if enApiEndpoint (EnvSpec env) = [] then DefaultAPIEndpoint else enApiEndpoint (EnvSpec env))"

definition claimed :: "ZrokShare \<Rightarrow> event list \<Rightarrow> bool" where
  \<comment> \<open>a listing of the ZrokShares shows another live one that selects the name\<close>
  "claimed share h \<longleftrightarrow>
     (\<exists>items. ListZrokShares AllNamespaces (Inr items) \<in> set h \<and> otherShareWithFrontendName share items \<noteq> None)"

definition name_unclaimed :: "ZrokShare \<Rightarrow> event list \<Rightarrow> bool" where
  \<comment> \<open>the ZrokShares were listed, and no live one but this one selects the name (a listing that
     fails counts)\<close>
  "name_unclaimed share h \<longleftrightarrow>
     (\<exists>r. ListZrokShares AllNamespaces r \<in> set h
        \<and> (case r of Inl _ \<Rightarrow> True | Inr items \<Rightarrow> otherShareWithFrontendName share items = None))"

definition token_ours :: "ZrokShare \<Rightarrow> shareInventory \<Rightarrow> string \<Rightarrow> bool" where
  \<comment> \<open>the status token; or a listed remote share with our target; or a share that the agent knows and
     no listing shows\<close>
  "token_ours s iv tok \<longleftrightarrow>
     tok \<noteq> [] \<and>
     (tok = shShareToken (ShareStatus s)
      \<or> (case List.find (\<lambda>r. rsToken r = tok) (remotes iv) of
           Some r \<Rightarrow> TargetsEqual (rsTarget r) (shUpstreamURL (ShareSpec s))
         | None \<Rightarrow> list_ex (\<lambda>d. sdToken d = tok) (agents iv)))"

definition found_by_name :: "ZrokShare \<Rightarrow> shareInventory \<Rightarrow> string" where
  \<comment> \<open>the first active agent share under the reserved name; failing that, the remote share under it, if
     it has our target\<close>
  "found_by_name s iv =
     (let name = reservedFrontendName s;
          live = List.find (\<lambda>d. (sdStatus d = [] \<or> sdStatus d = ''active'')
                   \<and> list_ex (\<lambda>ep. FrontendEndpointMatchesName ep name) (sdFrontendEndpoint d)) (agents iv);
          far = List.find (\<lambda>r. MatchesFrontendName r name) (remotes iv) in
      case (live, far) of
        (Some d, _) \<Rightarrow> if sdToken d \<noteq> [] then sdToken d
           else (case far of Some r \<Rightarrow> if TargetsEqual (rsTarget r) (shUpstreamURL (ShareSpec s))
                                      then rsToken r else [] | None \<Rightarrow> [])
      | (None, Some r) \<Rightarrow> if TargetsEqual (rsTarget r) (shUpstreamURL (ShareSpec s)) then rsToken r else []
      | (None, None) \<Rightarrow> [])"

definition its_token :: "ZrokShare \<Rightarrow> event list \<Rightarrow> string" where
  \<comment> \<open>the token in the status; without one, that of the share found under the name, if nobody else
     claims the name\<close>
  "its_token share h =
     (if shShareToken (ShareStatus share) \<noteq> [] then shShareToken (ShareStatus share)
      else if reservedFrontendName share = [] \<or> claimed share h then []
      else found_by_name share (inventory_from h))"

section \<open>The guards\<close>

definition reported_attached :: "ZrokShare \<Rightarrow> event list \<Rightarrow> string \<Rightarrow> bool" where
  \<comment> \<open>the controller refused to delete the name because the share with this token holds it\<close>
  "reported_attached share h tok \<longleftrightarrow>
     (\<exists>ep acc ns e. RestDeleteShareName ep acc ns (reservedFrontendName share) (Some e) \<in> set h
        \<and> isNameStillAttached e \<and> extractAttachedShareToken e = tok)"

definition delete_release_ok :: "ZrokShare \<Rightarrow> event list \<Rightarrow> event \<Rightarrow> bool" where
  "delete_release_ok share h e \<longleftrightarrow>
     (case released_token e of
        None \<Rightarrow> True
      | Some tok \<Rightarrow>
          tok = its_token share h \<and> token_ours share (inventory_from h) tok
          \<or> reported_attached share h tok \<and> (\<exists>s \<in> known share h. token_ours s (inventory_from h) tok))"

definition delete_name_ok :: "ZrokShare \<Rightarrow> event list \<Rightarrow> event \<Rightarrow> bool" where
  "delete_name_ok share h e \<longleftrightarrow>
     (\<forall>ep acc ns n r. e = RestDeleteShareName ep acc ns n r \<longrightarrow>
        n = reservedFrontendName share \<and> name_unclaimed share h
        \<and> (\<exists>s \<in> known share h. shReclaimPolicy (ShareSpec s) \<noteq> ReclaimRetain))"

fun blocking :: "event \<Rightarrow> bool" where
  \<comment> \<open>a failure after which the remote share or the name may still be ours to remove\<close>
  "blocking (RestUnshare ep acc zid tok r) =
     (case r of None \<Rightarrow> False | Some e \<Rightarrow> \<not> IsUnauthorized e)"
| "blocking (RestDeleteShareName ep acc ns n r) =
     (case r of None \<Rightarrow> False | Some e \<Rightarrow> \<not> isNameStillAttached e \<and> \<not> IsUnauthorized e)"
| "blocking _ = False"

definition share_taken_down :: "ZrokShare \<Rightarrow> event list \<Rightarrow> bool" where
  \<comment> \<open>the share's token was released by the agent and, with an enabled environment and an enable
     token, unshared by the controller\<close>
  "share_taken_down share h \<longleftrightarrow>
     (let tok = its_token share h in
      token_ours share (inventory_from h) tok \<longrightarrow>
        list_ex (\<lambda>e. \<exists>addr r. e = AgentReleaseShare addr tok r) h
        \<and> (\<forall>env acc. environment_read h env \<longrightarrow> enable_token_read env h acc \<longrightarrow> enEnvZID (EnvStatus env) \<noteq> [] \<longrightarrow>
             (\<exists>r. RestUnshare (api_of env) acc (enEnvZID (EnvStatus env)) tok r \<in> set h)))"

definition held_by_another :: "ZrokShare \<Rightarrow> ZrokEnvironment \<Rightarrow> event list \<Rightarrow> string \<Rightarrow> bool" where
  \<comment> \<open>the inventory could be read, and the share with the token is not ours\<close>
  "held_by_another share env h tok \<longleftrightarrow>
     (\<exists>s \<in> known share h. \<not> token_ours s (inventory_from h) tok)
     \<and> (enEnvZID (EnvStatus env) = [] \<or> invRemote (inventory_from h) \<noteq> None)"

definition name_given_back :: "ZrokShare \<Rightarrow> event list \<Rightarrow> bool" where
  \<comment> \<open>with an enable token, a name that nobody else claims and that is not retained was deleted, or
     is held by a share that is not ours\<close>
  "name_given_back share h \<longleftrightarrow>
     (\<forall>env acc. environment_read h env \<longrightarrow> enable_token_read env h acc \<longrightarrow>
        reservedFrontendName share \<noteq> [] \<longrightarrow> \<not> claimed share h \<longrightarrow>
        (\<exists>s \<in> known share h. shReclaimPolicy (ShareSpec s) = ReclaimRetain)
        \<or> (\<exists>ns r. RestDeleteShareName (api_of env) acc ns (reservedFrontendName share) r \<in> set h
             \<and> (\<forall>e. r = Some e \<longrightarrow> isNameStillAttached e \<longrightarrow>
                  held_by_another share env h (extractAttachedShareToken e))))"

definition cleaned_up :: "ZrokShare \<Rightarrow> event list \<Rightarrow> bool" where
  "cleaned_up share h \<longleftrightarrow> \<not> list_ex blocking h \<and> share_taken_down share h \<and> name_given_back share h"

definition finalizer_ok :: "ZrokShare \<Rightarrow> event list \<Rightarrow> event \<Rightarrow> bool" where
  "finalizer_ok share h e \<longleftrightarrow>
     (\<forall>s r. e = Update (ShareObj s) r \<longrightarrow> ShareFinalizer \<notin> Finalizers s \<longrightarrow> cleaned_up share h)"

definition delete_guard :: "ZrokShare \<Rightarrow> event list \<Rightarrow> event \<Rightarrow> bool" where
  "delete_guard share h e \<longleftrightarrow>
     delete_release_ok share h e \<and> delete_name_ok share h e \<and> finalizer_ok share h e"

lemmas delete_guard_defs =
  delete_guard_def delete_release_ok_def delete_name_ok_def finalizer_ok_def

section \<open>Events on which no judgement rests\<close>

fun premise_event :: "event \<Rightarrow> bool" where
  "premise_event (Get kd k r) = (kd = KEnv \<or> kd = KSecret)"
| "premise_event (ListZrokShares sel r) = True"
| "premise_event e = (\<not> inv_quiet e)"

abbreviation neutral :: "event \<Rightarrow> bool" where "neutral e \<equiv> \<not> premise_event e"

lemma neutral_quiet: "neutral e \<Longrightarrow> inv_quiet e"
  by (cases e) (simp_all add: inv_quiet_def)

lemma neutral_views:
  assumes "list_all neutral es"
  shows "inventory_from (h @ es) = inventory_from h"
    and "environment_read (h @ es) env = environment_read h env"
    and "enable_token_read env (h @ es) acc = enable_token_read env h acc"
    and "claimed share (h @ es) = claimed share h"
    and "its_token share (h @ es) = its_token share h"
proof -
  show i: "inventory_from (h @ es) = inventory_from h"
    using assms by (intro inventory_from_inv_quiet) (auto elim!: list.pred_mono_strong neutral_quiet)
  show "environment_read (h @ es) env = environment_read h env"
    using assms by (auto simp: environment_read_def list_all_iff)
  show "enable_token_read env (h @ es) acc = enable_token_read env h acc"
    using assms by (auto simp: enable_token_read_def list_all_iff Let_def)
  show c: "claimed share (h @ es) = claimed share h"
    using assms by (auto simp: claimed_def list_all_iff)
  show "its_token share (h @ es) = its_token share h"
    by (simp add: its_token_def i c)
qed

definition harmless :: "event \<Rightarrow> bool" where
  "harmless e \<longleftrightarrow> calm e \<and> neutral e \<and> (\<forall>obj r. e \<noteq> Update obj r)"

lemma calm_not_blocking: "calm e \<Longrightarrow> \<not> blocking e"
  by (cases e) auto

lemma harmless_guard: "harmless e \<Longrightarrow> delete_guard share h e"
  by (cases e) (auto simp: harmless_def delete_guard_defs)

lemma Recorded_harmless: "harmless (Recorded kd k ty rsn action msg)"
  by (simp add: harmless_def inv_quiet_def)

lemma clear_harmless: "emits harmless (clearShareBinding A share)"
  unfolding clearShareBinding_def
  by (intro emits_intros PatchStatus_emits)
     (auto simp: patch_event_def harmless_def inv_quiet_def)

lemma clear_yields: "yields harmless (\<lambda>x. shown_or ShareObj share (snd x)) (clearShareBinding A share)"
  using clear_harmless [of A share] clearShareBinding_yields [of share A] unfolding yields_def emits_def
  by (metis prod.inject same_append_eq)

section \<open>Facts along the way\<close>

lemma list_ex_find: "list_ex P xs \<longleftrightarrow> List.find P xs \<noteq> None"
  by (induction xs) auto

lemma isOurShareToken_iff: "isOurShareToken s tok iv \<longleftrightarrow> token_ours s iv tok"
  by (auto simp: isOurShareToken_def token_ours_def remoteByToken_def FindByToken_def agentByToken_def
      list_ex_find split: option.split)

lemma token_ours_Nil [simp]: "\<not> token_ours s iv []"
  by (simp add: token_ours_def)

lemma delete_token_its_token:
  assumes "iv = inventory_from h" and "name = reservedFrontendName share" and "other \<noteq> None \<longleftrightarrow> claimed share h"
  shows "delete_token share name other iv = its_token share h"
  using assms
  by (auto simp: delete_token_def its_token_def found_by_name_def agentByName_def remoteByName_def
      FindByFrontendName_def isAgentShareActive_def Let_def split: option.split)

definition delete_ok :: "ZrokShare \<Rightarrow> delete_vars \<Rightarrow> event list \<Rightarrow> bool" where
  "delete_ok base v h \<longleftrightarrow>
     dInv v = inventory_from h \<and> dName v = reservedFrontendName base
     \<and> (dOther v \<noteq> None \<longleftrightarrow> claimed base h)
     \<and> (dOther v = None \<longrightarrow> dName v \<noteq> [] \<longrightarrow> name_unclaimed base h)
     \<and> (\<forall>env. environment_read h env \<longrightarrow> env = dEnv v)
     \<and> (\<forall>acc. enable_token_read (dEnv v) h acc \<longrightarrow> acc = dToken v)
     \<and> dApiEndpoint v = api_of (dEnv v)"

lemma delete_ok_neutral: "delete_ok base v h \<Longrightarrow> list_all neutral es \<Longrightarrow> delete_ok base v (h @ es)"
  unfolding delete_ok_def name_unclaimed_def using neutral_views [of es] by auto

lemma taken_down_neutral:
  "share_taken_down base h \<Longrightarrow> list_all neutral es \<Longrightarrow> share_taken_down base (h @ es)"
  unfolding share_taken_down_def Let_def using neutral_views [of es] by auto blast

lemma not_blocking_append:
  "\<not> list_ex blocking h \<Longrightarrow> list_all (\<lambda>e. \<not> blocking e) es \<Longrightarrow> \<not> list_ex blocking (h @ es)"
  by (auto simp: list_ex_iff list_all_iff)

lemma delete_finish_guard:
  assumes "cleaned_up base h"
  shows "gwp (delete_guard base) (delete_finish A share) any_end h"
  unfolding delete_finish_def call_defs
  using assms
  by (auto intro!: gwp_intros gwp_bind [OF gwp_perform] gwp_bind [OF gwp_emit] gwp_bind [OF gwp_return]
      simp: delete_guard_defs split: prod.split)

lemma recorded_guard:
  assumes "\<And>e. harmless e \<Longrightarrow> gwp (delete_guard base) m Q (h @ [e])"
  shows "gwp (delete_guard base) (share_record s ty rsn action msg \<bind> (\<lambda>_. m)) Q h"
  unfolding share_record_def
  by (intro gwp_bind gwp_emit harmless_guard assms) (simp_all add: Recorded_harmless)

lemma delete_name_guard:
  assumes ok: "delete_ok base v h" and nb: "\<not> list_ex blocking h" and td: "share_taken_down base h"
    and k: "share \<in> known base h"
  shows "gwp (delete_guard base) (delete_name A v share) any_end h"
proof -
  note o = ok [unfolded delete_ok_def]
  let ?zid = "enEnvZID (EnvStatus (dEnv v))"
  have fin: "gwp (delete_guard base) (delete_finish A share) any_end (h @ es)"
    if "list_all neutral es" "list_all (\<lambda>e. \<not> blocking e) es" "name_given_back base (h @ es)" for es
    using that taken_down_neutral [OF td that(1)] not_blocking_append [OF nb that(2)]
    by (intro delete_finish_guard) (simp add: cleaned_up_def)
  have kept: "name_given_back base (h @ es)"
    if "list_all neutral es"
      "dToken v = [] \<or> shReclaimPolicy (ShareSpec share) = ReclaimRetain \<or> dName v = [] \<or> dOther v \<noteq> None" for es
    unfolding name_given_back_def neutral_views [OF that(1)]
  proof (intro allI impI disjI1)
    fix env acc
    assume "environment_read h env" "enable_token_read env h acc" "reservedFrontendName base \<noteq> []" "\<not> claimed base h"
    then have "acc = dToken v" "acc \<noteq> []" "dName v \<noteq> []" "dOther v = None"
      using o by (auto simp: enable_token_read_def Let_def)
    then show "\<exists>s \<in> known base (h @ es). shReclaimPolicy (ShareSpec s) = ReclaimRetain"
      using that(2) known_mono [OF k] by blast
  qed
  have deleted: "name_given_back base (h @ RestDeleteShareName (dApiEndpoint v) (dToken v) ns (dName v) r # es)"
    if "list_all neutral es"
      "\<And>e. r = Some e \<Longrightarrow> isNameStillAttached e \<Longrightarrow>
         held_by_another base (dEnv v) (h @ RestDeleteShareName (dApiEndpoint v) (dToken v) ns (dName v) r # es)
           (extractAttachedShareToken e)" for ns r es
  proof -
    have "list_all neutral (RestDeleteShareName (dApiEndpoint v) (dToken v) ns (dName v) r # es)"
      using that(1) by (simp add: inv_quiet_def)
    note views = neutral_views [OF this]
    show ?thesis
      unfolding name_given_back_def
    proof (intro allI impI disjI2)
      fix env acc
      let ?h = "h @ RestDeleteShareName (dApiEndpoint v) (dToken v) ns (dName v) r # es"
      assume "environment_read ?h env" and "enable_token_read env ?h acc"
      then have "environment_read h env" and "enable_token_read env h acc" by (simp_all only: views)
      then have "env = dEnv v" "acc = dToken v" using o by blast+
      then show "\<exists>ns r. RestDeleteShareName (api_of env) acc ns (reservedFrontendName base) r \<in> set ?h
          \<and> (\<forall>e. r = Some e \<longrightarrow> isNameStillAttached e \<longrightarrow> held_by_another base env ?h (extractAttachedShareToken e))"
        using o that(2) by (intro exI [of _ ns] exI [of _ r]) auto
    qed
  qed
  have other: "held_by_another base (dEnv v) (h @ es) tok"
    if "list_all neutral es" "\<not> token_ours share (inventory_from h) tok" "?zid = [] \<or> invRemote (dInv v) \<noteq> None" for es tok
    using that(2,3) known_mono [OF k] o unfolding held_by_another_def neutral_views(1) [OF that(1)] by auto
  have del: "delete_guard base h (RestDeleteShareName ep acc ns (dName v) r)"
    if "dOther v = None" "dName v \<noteq> []" "shReclaimPolicy (ShareSpec share) \<noteq> ReclaimRetain" for ep acc ns r
    using o k that by (auto simp: delete_guard_defs)
  have rel: "delete_guard base (h @ es) e"
    if "token_ours share (inventory_from h) tok" "list_all neutral es" "released_token e = Some tok"
      "reported_attached base (h @ es) tok" for es e tok
    using that(1,3,4) known_mono [OF k] unfolding delete_guard_defs neutral_views(1) [OF that(2)] by auto
  let ?del = "\<lambda>ns r. RestDeleteShareName (dApiEndpoint v) (dToken v) ns (dName v) r"
  have d: "list_all neutral [?del ns r]" for ns r by (simp add: inv_quiet_def)
  have fin_kept: "gwp (delete_guard base) (delete_finish A share) any_end (h @ es)"
    if "list_all harmless es"
      "dToken v = [] \<or> shReclaimPolicy (ShareSpec share) = ReclaimRetain \<or> dName v = [] \<or> dOther v \<noteq> None" for es
    using that by (intro fin kept) (auto elim!: list.pred_mono_strong simp: harmless_def calm_not_blocking)
  have fin_del: "gwp (delete_guard base) (delete_finish A share) any_end (h @ ?del ns r # es)"
    if es: "list_all harmless es" and nb: "\<not> blocking (?del ns r)"
      and e: "\<And>e. r = Some e \<Longrightarrow> isNameStillAttached e \<Longrightarrow>
        \<not> token_ours share (inventory_from h) (extractAttachedShareToken e) \<and> (?zid = [] \<or> invRemote (dInv v) \<noteq> None)"
    for ns r es
  proof -
    have q: "list_all neutral es" "list_all (\<lambda>e. \<not> blocking e) es"
      using es by (auto elim!: list.pred_mono_strong simp: harmless_def calm_not_blocking)
    have n: "list_all neutral (?del ns r # es)" using q(1) by (simp add: inv_quiet_def)
    show ?thesis using n q nb e by (intro fin deleted other) auto
  qed
  have fin1: "gwp (delete_guard base) (delete_finish A share) any_end (h @ [?del ns None])" for ns
    using fin_del [of "[]" ns None] by simp
  have fin2: "gwp (delete_guard base) (delete_finish A share) any_end (h @ [?del ns (Some e), c])"
    if "harmless c" "\<not> blocking (?del ns (Some e))"
      "isNameStillAttached e \<longrightarrow>
        \<not> token_ours share (inventory_from h) (extractAttachedShareToken e) \<and> (?zid = [] \<or> invRemote (dInv v) \<noteq> None)"
    for ns e c
    using fin_del [of "[c]" ns "Some e"] that by auto
  have rep: "reported_attached base (h @ ?del ns (Some e) # es) (extractAttachedShareToken e)"
    if "isNameStillAttached e" for ns e es
    using that o unfolding reported_attached_def by (metis in_set_conv_decomp)
  have rel1: "delete_guard base (h @ [?del ns (Some e)]) (AgentReleaseShare addr (extractAttachedShareToken e) r)"
    if "token_ours share (inventory_from h) (extractAttachedShareToken e)" "isNameStillAttached e" for ns e addr r
    by (rule rel [OF that(1) d]) (simp_all add: rep [OF that(2)])
  have rel2: "delete_guard base (h @ [?del ns (Some e), AgentReleaseShare addr (extractAttachedShareToken e) r])
      (RestUnshare ep acc zid (extractAttachedShareToken e) r')"
    if "token_ours share (inventory_from h) (extractAttachedShareToken e)" "isNameStillAttached e" for ns e addr r ep acc zid r'
    by (rule rel [OF that(1)]) (simp_all add: rep [OF that(2)] inv_quiet_def)
  have inv: "inventory_from h = dInv v" using o by simp
  show ?thesis
    unfolding delete_name_def Let_def call_defs isOurShareToken_iff inv [symmetric]
    using fin_kept [of "[]"] fin_kept [of "[c]" for c]
    by (auto intro!: gwp_intros gwp_bind [OF gwp_perform] recorded_guard fin1 fin2 del rel1 rel2
        simp: inv)
qed

lemma share_taken_downI:
  assumes "tok = its_token base h" and "AgentReleaseShare addr tok r \<in> set h"
    and "\<And>env acc. environment_read h env \<Longrightarrow> enable_token_read env h acc \<Longrightarrow> enEnvZID (EnvStatus env) \<noteq> [] \<Longrightarrow>
           \<exists>r. RestUnshare (api_of env) acc (enEnvZID (EnvStatus env)) tok r \<in> set h"
  shows "share_taken_down base h"
  using assms unfolding share_taken_down_def Let_def list_ex_iff by blast

lemma delete_unshare_guard:
  assumes ok: "delete_ok base v h" and b: "\<not> list_ex blocking h" and tok: "tok = its_token base h"
  shows "gwp (delete_guard base) (delete_unshare A v tok base) any_end h"
proof (cases "token_ours base (dInv v) tok")
  case False
  then have "delete_unshare A v tok base = delete_name A v base"
    unfolding delete_unshare_def Let_def isOurShareToken_iff by simp
  moreover have "share_taken_down base h"
    using False ok tok by (auto simp: share_taken_down_def delete_ok_def Let_def)
  ultimately show ?thesis using ok b by (simp add: delete_name_guard)
next
  case True
  note o = ok [unfolded delete_ok_def]
  have ours: "token_ours base (inventory_from h) tok" and tok0: "tok \<noteq> []"
    using True o by (auto simp: token_ours_def)
  let ?zid = "enEnvZID (EnvStatus (dEnv v))"
  let ?rel = "\<lambda>r. AgentReleaseShare (dBaseURL v) tok r"
  let ?uns = "\<lambda>r. RestUnshare (dApiEndpoint v) (dToken v) ?zid tok r"
  have rel: "delete_guard base (h @ es) e" if "list_all neutral es" "released_token e = Some tok" for es e
    using that(2) tok ours neutral_views(1,5) [OF that(1)] by (auto simp: delete_guard_defs)
  have r1: "delete_guard base h (?rel r)" for r using rel [of "[]"] by simp
  have r2: "delete_guard base (h @ [?rel r]) (?uns r')" for r r'
    using rel [of "[?rel r]"] by (simp add: inv_quiet_def)
  have go: "gwp (delete_guard base) (clearShareBinding A base \<bind> (\<lambda>(cerr, share).
        case cerr of None \<Rightarrow> delete_name A v share | Some ce \<Rightarrow> ret (no_requeue, Some ce))) any_end (h @ ?rel r # es)"
    if es: "list_all neutral es" "list_all (\<lambda>e. \<not> blocking e) es"
      and u: "?zid \<noteq> [] \<Longrightarrow> dToken v \<noteq> [] \<Longrightarrow> \<exists>r. ?uns r \<in> set es" for r es
  proof (rule gwp_bind, rule gwp_yields [OF clear_yields])
    show "harmless e \<Longrightarrow> delete_guard base ((h @ ?rel r # es) @ es') e" for es' e by (rule harmless_guard)
  next
    fix x :: "go_error option \<times> ZrokShare" and es'
    assume d: "list_all harmless es'" and s: "shown_or ShareObj base (snd x) es'"
    let ?h = "h @ ?rel r # es @ es'"
    have n: "list_all neutral (?rel r # es @ es')" and nb: "list_all (\<lambda>e. \<not> blocking e) (?rel r # es @ es')"
      using es d by (auto elim!: list.pred_mono_strong simp: harmless_def calm_not_blocking inv_quiet_def)
    have "share_taken_down base ?h"
    proof (rule share_taken_downI)
      show "tok = its_token base ?h" using neutral_views(5) [OF n] tok by simp
      show "?rel r \<in> set ?h" by simp
    next
      fix env acc assume "environment_read ?h env" "enable_token_read env ?h acc" and z: "enEnvZID (EnvStatus env) \<noteq> []"
      then have "environment_read h env" "enable_token_read env h acc" by (simp_all only: neutral_views [OF n])
      moreover from this have "acc \<noteq> []" by (simp add: enable_token_read_def Let_def)
      ultimately have "env = dEnv v" "acc = dToken v" "acc \<noteq> []" using o by blast+
      then show "\<exists>r. RestUnshare (api_of env) acc (enEnvZID (EnvStatus env)) tok r \<in> set ?h"
        using u z o by auto
    qed
    moreover have "snd x \<in> known base ?h" using s by (auto simp: states_def shown_or_def)
    moreover note delete_ok_neutral [OF ok n] not_blocking_append [OF b nb]
    ultimately show "gwp (delete_guard base) (case x of (cerr, share) \<Rightarrow>
        case cerr of None \<Rightarrow> delete_name A v share | Some ce \<Rightarrow> ret (no_requeue, Some ce)) any_end
        ((h @ ?rel r # es) @ es')"
      by (cases x) (auto intro!: gwp_intros delete_name_guard)
  qed
  note go0 = go [of "[]", simplified]
  have go1: "gwp (delete_guard base) (clearShareBinding A base \<bind> (\<lambda>(cerr, share).
        case cerr of None \<Rightarrow> delete_name A v share | Some ce \<Rightarrow> ret (no_requeue, Some ce))) any_end
        (h @ [?rel r, ?uns r'])" if "\<not> blocking (?uns r')" for r r'
    using go [of "[?uns r']"] that by (simp add: inv_quiet_def)
  show ?thesis
    unfolding delete_unshare_def Let_def call_defs isOurShareToken_iff
    using True tok0
    by (auto intro!: gwp_bind [OF gwp_perform] gwp_bind [OF gwp_if] gwp_perform gwp_return
        gwp_case_option gwp_if recorded_guard r1 r2 go0 go1)
qed

section \<open>The deletion\<close>

lemma listing_delete: "listing e \<Longrightarrow> delete_guard share h e \<and> \<not> blocking e"
  by (cases e) (auto simp: delete_guard_defs)

lemma reads_delete: "delete_guard share h (Get kd k r)" "delete_guard share h (ListZrokShares sel x)"
  by (simp_all add: delete_guard_defs)

text \<open>The listing of the other claimants, if it is needed at all.\<close>

lemma otherShareClaimingName_yields:
  "yields (\<lambda>e. \<exists>sel r. e = ListZrokShares sel r)
     (\<lambda>r es. ((case r of Inl _ \<Rightarrow> None | Inr o' \<Rightarrow> o') \<noteq> None \<longleftrightarrow> claimed share es)
        \<and> (reservedFrontendName share \<noteq> [] \<longrightarrow> (case r of Inl _ \<Rightarrow> None | Inr o' \<Rightarrow> o') = None \<longrightarrow> name_unclaimed share es))
     (otherShareClaimingName A share)"
  unfolding otherShareClaimingName_def call_defs
  by (intro yields_if yields_return yields_case_sum
        yields_bind [OF yields_perform [where R = "\<lambda>r es. es = [ListZrokShares AllNamespaces r]"]])
     (auto simp: name_unclaimed_def claimed_def split: sum.split)

definition delete_start :: "ZrokEnvironment \<Rightarrow> string \<Rightarrow> string \<Rightarrow> event list \<Rightarrow> bool" where
  \<comment> \<open>only the environment and the enable token have been read, with these results\<close>
  "delete_start env ep acc h \<longleftrightarrow>
     list_all (\<lambda>e. \<exists>kd k r. e = Get kd k r) h \<and> ep = api_of env
     \<and> (\<forall>env'. environment_read h env' \<longrightarrow> env' = env)
     \<and> (\<forall>acc'. enable_token_read env h acc' \<longrightarrow> acc' = acc)"

lemma delete_with_env_guard:
  assumes st: "delete_start env ep acc h"
  shows "gwp (delete_guard share) (delete_with_env A env ep acc share) any_end h"
  unfolding delete_with_env_def Let_def
proof (rule gwp_bind, rule gwp_yields [OF loadInventory_yields])
  show "listing e \<Longrightarrow> delete_guard share (h @ es) e" for es e using listing_delete by blast
next
  fix x :: "shareInventory \<times> go_error option" and es
  assume l: "list_all listing es"
    and inv: "(enEnvZID (EnvStatus env) = [] \<longrightarrow> invRemote (fst x) = None) \<and>
      (\<forall>h. (enEnvZID (EnvStatus env) = [] \<longrightarrow> invRemote (inventory_from h) = None)
         \<longrightarrow> inventory_from (h @ es) = fst x)"
  note s = st [unfolded delete_start_def]
  have gets: "list_all inv_quiet h" using s by (auto elim!: list.pred_mono_strong simp: inv_quiet_def)
  then have iv: "inventory_from (h @ es) = fst x"
    using inv inventory_from_inv_quiet [OF gets, of "[]"] by simp
  have nb: "\<not> list_ex blocking (h @ es)"
    using s l by (auto simp: list_all_iff list_ex_iff) (force dest: listing_delete)+
  have reads: "environment_read (h @ es @ es') = environment_read h"
      "enable_token_read env (h @ es @ es') = enable_token_read env h"
      "claimed share (h @ es @ es') = claimed share es'"
    if "list_all (\<lambda>e. \<exists>sel r. e = ListZrokShares sel r) es'" for es'
    using l that s
    by (auto simp: fun_eq_iff environment_read_def enable_token_read_def claimed_def list_all_iff Let_def; fastforce)+
  show "gwp (delete_guard share) (case x of (iv, uu) \<Rightarrow> otherShareClaimingName A share \<bind> (\<lambda>r.
      delete_unshare A
        \<lparr>dEnv = env, dApiEndpoint = ep, dToken = acc, dBaseURL = AgentBaseURL env, dInv = iv,
         dOther = (case r of Inl _ \<Rightarrow> None | Inr o' \<Rightarrow> o'), dName = reservedFrontendName share\<rparr>
        (delete_token share (reservedFrontendName share) (case r of Inl _ \<Rightarrow> None | Inr o' \<Rightarrow> o') iv)
        share)) any_end (h @ es)"
    unfolding split_beta
  proof (rule gwp_bind, rule gwp_yields [OF otherShareClaimingName_yields])
    show "\<exists>sel r. e = ListZrokShares sel r \<Longrightarrow> delete_guard share ((h @ es) @ es') e" for es' e
      using reads_delete by blast
  next
    fix r :: "go_error + ZrokShare option" and es'
    let ?other = "case r of Inl _ \<Rightarrow> None | Inr o' \<Rightarrow> o'"
    assume l': "list_all (\<lambda>e. \<exists>sel r. e = ListZrokShares sel r) es'"
      and u: "(?other \<noteq> None \<longleftrightarrow> claimed share es') \<and>
        (reservedFrontendName share \<noteq> [] \<longrightarrow> ?other = None \<longrightarrow> name_unclaimed share es')"
    have "list_all inv_quiet es'" using l' by (auto elim!: list.pred_mono_strong simp: inv_quiet_def)
    then have iv': "inventory_from (h @ es @ es') = fst x" using iv inventory_from_inv_quiet [of es' "h @ es"] by simp
    moreover have "\<not> list_ex blocking (h @ es @ es')"
      using nb l' by (auto simp: list_ex_iff list_all_iff)
    moreover have "name_unclaimed share es' \<Longrightarrow> name_unclaimed share (h @ es @ es')"
      by (auto simp: name_unclaimed_def)
    moreover note tok = delete_token_its_token [of "fst x" "h @ es @ es'" "reservedFrontendName share" share ?other]
    ultimately show "gwp (delete_guard share) (delete_unshare A
        \<lparr>dEnv = env, dApiEndpoint = ep, dToken = acc, dBaseURL = AgentBaseURL env, dInv = fst x,
         dOther = ?other, dName = reservedFrontendName share\<rparr>
        (delete_token share (reservedFrontendName share) ?other (fst x)) share) any_end ((h @ es) @ es')"
      using u s unfolding append_assoc
      by (intro delete_unshare_guard) (auto simp: delete_ok_def reads [OF l'])
  qed
qed

lemma readEnableToken_start:
  "yields (\<lambda>e. \<exists>k r. e = Get KSecret k r)
     (\<lambda>r es. (\<forall>env'. \<not> environment_read es env') \<and>
        (case r of Inl e \<Rightarrow> IsNotFound e \<longrightarrow> (\<forall>acc. \<not> enable_token_read env es acc)
         | Inr acc \<Rightarrow> \<forall>acc'. enable_token_read env es acc' \<longrightarrow> acc' = acc))
     (share_readEnableToken A env)"
  unfolding share_readEnableToken_def Let_def k8s_get_def
  by (intro yields_bind [OF yields_perform [where R = "\<lambda>r es. es = [Get KSecret k (map_sum id SecretObj r)]" for k]])
     (auto intro!: yields_case_sum yields_return yields_case_option yields_if
       simp: environment_read_def enable_token_read_def IsNotFound_def errorf_def Let_def split: sum.splits)

lemma reconcileDelete_guard:
  "gwp (delete_guard share) (share_reconcileDelete A share) any_end []"
proof -
  let ?g = "Get KEnv (Namespace share, shEnvironmentRef (ShareSpec share))"
  have none: "delete_start env (api_of env) [] [?g (Inr (EnvObj env))]"
    if "skName (enEnableTokenSecretRef (EnvSpec env)) = []" for env
    using that by (simp add: delete_start_def environment_read_def enable_token_read_def Let_def)
  have zero: "delete_start zero_env DefaultAPIEndpoint [] [?g (Inl e)]" for e
    by (auto simp: delete_start_def environment_read_def enable_token_read_def Let_def zero_env_def api_of_def)
  have start: "delete_start env (api_of env) acc ([?g (Inr (EnvObj env))] @ es)"
    if "list_all (\<lambda>e. \<exists>k r. e = Get KSecret k r) es" "\<forall>env'. \<not> environment_read es env'"
      "\<forall>acc'. enable_token_read env es acc' \<longrightarrow> acc' = acc" for env es acc
    using that
    by (auto simp: delete_start_def environment_read_def enable_token_read_def list_all_iff Let_def)
  have tok: "gwp (delete_guard share) (share_readEnableToken A env \<bind> (\<lambda>t. case t of
        Inl e \<Rightarrow> if IsNotFound e then delete_with_env A env (api_of env) [] share else ret (no_requeue, Some e)
      | Inr acc \<Rightarrow> delete_with_env A env (api_of env) acc share)) any_end [?g (Inr (EnvObj env))]" for env
  proof (rule gwp_bind, rule gwp_yields [OF readEnableToken_start])
    show "\<exists>k r. e = Get KSecret k r \<Longrightarrow> delete_guard share ([?g (Inr (EnvObj env))] @ es) e" for es e
      using reads_delete by blast
  qed (auto intro!: gwp_intros delete_with_env_guard start [simplified] split: sum.splits)
  show ?thesis
    unfolding share_reconcileDelete_def getEnvironment_def k8s_get_def Let_def api_of_def [symmetric]
    by (intro gwp_if gwp_return TrueI gwp_bind [OF gwp_perform] reads_delete gwp_case_sum)
       (auto intro!: delete_with_env_guard none zero tok)
qed

lemma delete_trace_guard: "guarded (delete_guard share) (trace_of (share_reconcileDelete A share))"
  by (rule gwp_trace [OF reconcileDelete_guard])

section \<open>Properties of the deletion\<close>


text \<open>C17: Deleting a ZrokShare gives back only its own reserved name, only after it has
  listed the ZrokShares and, if the listing succeeded, found no other live one that selects
  the name, and only if a state it has seen does not retain names.\<close>

theorem deletion_deletes_only_unclaimed_name:
  "guarded (delete_name_ok share) (trace_of (share_reconcileDelete A share))"
  using delete_trace_guard by (rule guarded_mono) (simp add: delete_guard_def)


end
