(* ===== verification/AccessReconcile.thy ===== *)
theory AccessReconcile
  imports World Conditions
begin

text \<open>
  \<open>internal/controller/access_controller.go\<close>: the reconciler of ZrokAccesses, which binds a
  private share of another account to an address of the environment's agent.
\<close>

section \<open>Status\<close>

definition access_set_status ::
  "(ZrokAccessStatus \<Rightarrow> ZrokAccessStatus) \<Rightarrow> ZrokAccess \<Rightarrow> ZrokAccess" where
  "access_set_status f a = a\<lparr>AccessStatus := f (AccessStatus a)\<rparr>"

definition access_condition ::
  "time \<Rightarrow> string \<Rightarrow> string \<Rightarrow> string \<Rightarrow> string \<Rightarrow> ZrokAccess \<Rightarrow> ZrokAccess" where
  "access_condition t ty st rsn msg a =
     access_set_status (\<lambda>x. x\<lparr>acConditions := SetCondition t (acConditions x) ty st rsn msg (Generation a)\<rparr>) a"

definition access_not_ready_mutation :: "string \<Rightarrow> string \<Rightarrow> ZrokAccess mutation" where
  "access_not_ready_mutation rsn msg t a =
     (None, access_condition (t 0) ConditionReady ConditionFalse rsn msg
              (access_set_status (\<lambda>x. x\<lparr>acObservedGeneration := Generation a\<rparr>) a))"

definition access_setNotReady ::
  "api \<Rightarrow> ZrokAccess \<Rightarrow> string \<Rightarrow> string \<Rightarrow> (go_error option \<times> ZrokAccess) op" where
  "access_setNotReady A access rsn msg =
     PatchAccessStatus A access (access_not_ready_mutation rsn msg)"

definition access_ready_mutation :: "string \<Rightarrow> string \<Rightarrow> ZrokAccess mutation" where
  "access_ready_mutation token endpoint t a =
     (None, access_condition (t 0) ConditionReady ConditionTrue ''Ready'' ''access active''
              (access_set_status (\<lambda>x. x\<lparr>acAccessToken := token, acFrontendEndpoint := endpoint,
                                        acObservedGeneration := Generation a\<rparr>) a))"

definition markAccessReady :: "api \<Rightarrow> ZrokAccess \<Rightarrow> string \<Rightarrow> string \<Rightarrow> outcome op" where
  "markAccessReady A access token bindAddress =
     (let wasReady = IsTrue (acConditions (AccessStatus access)) ConditionReady;
          endpoint = (if bindAddress = [] then token else bindAddress) in
      do {
        (err, access) \<leftarrow> PatchAccessStatus A access (access_ready_mutation token endpoint);
        case err of
          Some e \<Rightarrow> ret (no_requeue, Some e)
        | None \<Rightarrow> do {
            (if \<not> wasReady
             then emit (Recorded KAccess (object_key access) EventTypeNormal ''Ready'' ''Ready''
                          ''private access ready'')
             else ret ());
            ret (requeue_after 120, None) } })"

section \<open>The live access\<close>

definition isAgentAccessActive :: "AccessDetail \<Rightarrow> bool" where
  "isAgentAccessActive a \<longleftrightarrow> adStatus a = [] \<or> adStatus a = ''active''"

definition wanted_bind :: "ZrokAccess \<Rightarrow> string" where
  "wanted_bind access =
     (if acBindAddress (AccessSpec access) = [] then ''0.0.0.0:0'' else acBindAddress (AccessSpec access))"

definition accessSpecDrifted :: "ZrokAccess \<Rightarrow> AccessDetail \<Rightarrow> bool" where
  "accessSpecDrifted access live =
     (let tok = adToken live in
      if tok \<noteq> [] \<and> tok \<noteq> acShareToken (AccessSpec access) then True
      else let want = wanted_bind access in
        if HasSuffix want '':0'' then False
        else let got = adBindAddress live in got \<noteq> [] \<and> got \<noteq> want)"

fun live_access :: "ZrokAccess \<Rightarrow> AccessDetail option list \<Rightarrow> AccessDetail option" where
  \<comment> \<open>the loop over the agent's accesses: the first active one with the status token decides;
     on drift it breaks. A nil element has an empty token and is inactive.\<close>
  "live_access access [] = None"
| "live_access access (None # as) = live_access access as"
| "live_access access (Some a # as) =
     (if adFrontendToken a \<noteq> acAccessToken (AccessStatus access) \<or> \<not> isAgentAccessActive a
      then live_access access as
      else if accessSpecDrifted access a then None
      else Some a)"

definition reply_accesses :: "StatusResponse option \<Rightarrow> AccessDetail option list" where
  \<comment> \<open>\<open>st.GetAccesses()\<close> on a reply that may be nil\<close>
  "reply_accesses st = (case st of Some r \<Rightarrow> stAccesses r | None \<Rightarrow> [])"

fun bound_address :: "string \<Rightarrow> AccessDetail option list \<Rightarrow> string" where
  \<comment> \<open>the bind address the agent lists for a frontend token\<close>
  "bound_address frontend [] = []"
| "bound_address frontend (a # as) =
     (if (case a of Some x \<Rightarrow> adFrontendToken x | None \<Rightarrow> []) = frontend
      then (case a of Some x \<Rightarrow> adBindAddress x | None \<Rightarrow> [])
      else bound_address frontend as)"

section \<open>Reconcile\<close>

definition access_clear_mutation :: "ZrokAccess mutation" where
  "access_clear_mutation t a =
     (None, access_condition (t 0) ConditionReady ConditionFalse ''Healing'' ''recreating inactive access''
              (access_set_status (\<lambda>x. x\<lparr>acAccessToken := [], acFrontendEndpoint := []\<rparr>) a))"

definition access_create :: "api \<Rightarrow> string \<Rightarrow> ZrokAccess \<Rightarrow> outcome op" where
  \<comment> \<open>\<open>AccessPrivate\<close> and the status after it\<close>
  "access_create A addr access =
     do {
       r \<leftarrow> Agent_AccessPrivate A addr (acShareToken (AccessSpec access)) (wanted_bind access);
       case r of
         Inl e \<Rightarrow> do {
           (_, access) \<leftarrow> access_setNotReady A access ''AccessError'' (Error e);
           emit AccessReconcileErrors_Inc;
           emit (Recorded KAccess (object_key access) EventTypeWarning ''AccessError'' ''Error'' (Error e));
           ret (no_requeue, Some e) }
       | Inr frontend \<Rightarrow> do {
           st \<leftarrow> Agent_Status A addr;
           let bindAddr = (case st of Inr s \<Rightarrow> bound_address frontend (reply_accesses s) | Inl _ \<Rightarrow> []);
           markAccessReady A access frontend bindAddr } }"

definition access_ensure :: "api \<Rightarrow> string \<Rightarrow> ZrokAccess \<Rightarrow> outcome op" where
  \<comment> \<open>create the access unless the status has a token\<close>
  "access_ensure A addr access =
     (if acAccessToken (AccessStatus access) = [] then access_create A addr access
      else ret (requeue_after 120, None))"

definition access_refresh :: "api \<Rightarrow> string \<Rightarrow> ZrokAccess \<Rightarrow> outcome op" where
  \<comment> \<open>a known access is confirmed, or released and forgotten, before \<open>access_ensure\<close>\<close>
  "access_refresh A addr access =
     (let token = acAccessToken (AccessStatus access) in
      if token = [] then access_ensure A addr access
      else do {
        st \<leftarrow> Agent_Status A addr;
        case st of
          Inl _ \<Rightarrow> access_ensure A addr access
        | Inr s \<Rightarrow>
            (case live_access access (reply_accesses s) of
               Some a \<Rightarrow> markAccessReady A access (adFrontendToken a) (adBindAddress a)
             | None \<Rightarrow> do {
                 _ \<leftarrow> Agent_ReleaseAccess A addr token;
                 (err, access) \<leftarrow> PatchAccessStatus A access access_clear_mutation;
                 case err of
                   Some e \<Rightarrow> ret (no_requeue, Some e)
                 | None \<Rightarrow> access_ensure A addr access }) })"

definition access_live :: "api \<Rightarrow> ZrokAccess \<Rightarrow> outcome op" where
  "access_live A access =
     (if \<not> ContainsFinalizer access AccessFinalizer
      then do { (err, _) \<leftarrow> k8s_update AccessObj (apiAccesses A) (AddFinalizer access AccessFinalizer);
                ret (no_requeue, err) }
      else do {
        r \<leftarrow> getEnv A (Namespace access, acEnvironmentRef (AccessSpec access));
        case r of
          Inl e \<Rightarrow>
            if IsNotFound e
            then do { _ \<leftarrow> access_setNotReady A access ''EnvironmentMissing'' (Error e);
                      ret (requeue_after 15, None) }
            else ret (no_requeue, Some e)
        | Inr env \<Rightarrow>
            if \<not> IsTrue (enConditions (EnvStatus env)) ConditionReady
            then do { _ \<leftarrow> access_setNotReady A access ''WaitingForEnvironment'' ''environment not ready'';
                      ret (requeue_after 10, None) }
            else access_refresh A (AgentDialAddr env) access })"

definition access_reconcileDelete :: "api \<Rightarrow> ZrokAccess \<Rightarrow> outcome op" where
  "access_reconcileDelete A access =
     (if \<not> ContainsFinalizer access AccessFinalizer then ret (no_requeue, None)
      else do {
        r \<leftarrow> getEnv A (Namespace access, acEnvironmentRef (AccessSpec access));
        _ \<leftarrow> (case r of
                Inr env \<Rightarrow> if acAccessToken (AccessStatus access) \<noteq> []
                           then Agent_ReleaseAccess A (AgentDialAddr env) (acAccessToken (AccessStatus access))
                           else ret None
              | Inl _ \<Rightarrow> ret None);
        (err, _) \<leftarrow> k8s_update AccessObj (apiAccesses A) (RemoveFinalizer access AccessFinalizer);
        ret (no_requeue, err) })"

definition access_Reconcile :: "api \<Rightarrow> key \<Rightarrow> outcome op" where
  "access_Reconcile A req =
     do {
       r \<leftarrow> getAccess A req;
       case r of
         Inl e \<Rightarrow> ret (no_requeue, IgnoreNotFound e)
       | Inr access \<Rightarrow>
           if DeletionTimestamp access \<noteq> None then access_reconcileDelete A access
           else access_live A access }"

definition mapEnvToAccesses :: "api \<Rightarrow> 'a ObjectMeta_scheme \<Rightarrow> key list op" where
  "mapEnvToAccesses A obj =
     do { r \<leftarrow> listZrokAccesses A (InNamespaceForEnv (Namespace obj) (Name obj));
          case r of Inl _ \<Rightarrow> ret [] | Inr items \<Rightarrow> ret (map object_key items) }"

section \<open>Guards\<close>

definition access_ready :: "ZrokAccess \<Rightarrow> bool" where
  "access_ready a \<longleftrightarrow> IsTrue (acConditions (AccessStatus a)) ConditionReady"

definition access_told_released :: "string \<Rightarrow> event list \<Rightarrow> bool" where
  "access_told_released tok h \<longleftrightarrow>
     tok = [] \<or> list_ex (\<lambda>e. case e of AgentReleaseAccess addr t r \<Rightarrow> t = tok | _ \<Rightarrow> False) h"

definition access_start_ok :: "ZrokAccess \<Rightarrow> event list \<Rightarrow> event \<Rightarrow> bool" where
  \<comment> \<open>a new access is asked for what a seen spec wants, and the old one was released\<close>
  "access_start_ok base h e \<longleftrightarrow>
     (\<forall>addr tok bnd r. e = AgentAccessPrivate addr tok bnd r \<longrightarrow>
        (\<exists>a \<in> states AccessObj base h. tok = acShareToken (AccessSpec a) \<and> bnd = wanted_bind a)
        \<and> access_told_released (acAccessToken (AccessStatus base)) h)"

definition access_token_backed :: "ZrokAccess \<Rightarrow> event list \<Rightarrow> string \<Rightarrow> bool" where
  "access_token_backed base h tok \<longleftrightarrow>
     (\<exists>addr t b. AgentAccessPrivate addr t b (Inr tok) \<in> set h)
     \<or> (\<exists>addr st d. AgentStatus addr (Inr (Some st)) \<in> set h \<and> Some d \<in> set (stAccesses st)
          \<and> adFrontendToken d = tok \<and> isAgentAccessActive d \<and> \<not> accessSpecDrifted base d)"

definition access_ready_ok :: "ZrokAccess \<Rightarrow> event list \<Rightarrow> event \<Rightarrow> bool" where
  "access_ready_ok base h e \<longleftrightarrow>
     (\<forall>before a r. e = StatusPatch before (AccessObj a) r \<longrightarrow> access_ready a \<longrightarrow>
        access_token_backed base h (acAccessToken (AccessStatus a)))"

definition access_let_go :: "ZrokAccess \<Rightarrow> event list \<Rightarrow> bool" where
  \<comment> \<open>the agent of its environment was asked to release the access, or the read of the environment failed\<close>
  "access_let_go base h \<longleftrightarrow>
     (let tok = acAccessToken (AccessStatus base); k = (Namespace base, acEnvironmentRef (AccessSpec base)) in
      tok = []
      \<or> (\<exists>env r. Get KEnv k (Inr (EnvObj env)) \<in> set h \<and> AgentReleaseAccess (AgentDialAddr env) tok r \<in> set h)
      \<or> (\<exists>e. Get KEnv k (Inl e) \<in> set h))"

definition access_finalizer_ok :: "ZrokAccess \<Rightarrow> event list \<Rightarrow> event \<Rightarrow> bool" where
  "access_finalizer_ok base h e \<longleftrightarrow>
     (\<forall>a r. e = Update (AccessObj a) r \<longrightarrow> AccessFinalizer \<notin> Finalizers a \<longrightarrow> access_let_go base h)"

definition access_guard :: "ZrokAccess \<Rightarrow> event list \<Rightarrow> event \<Rightarrow> bool" where
  "access_guard base h e \<longleftrightarrow>
     access_start_ok base h e \<and> access_ready_ok base h e \<and> access_finalizer_ok base h e"

lemmas access_guard_defs =
  access_guard_def access_start_ok_def access_ready_ok_def access_finalizer_ok_def

fun access_calm :: "event \<Rightarrow> bool" where
  "access_calm (AgentAccessPrivate addr tok bnd r) = False"
| "access_calm (Update obj r) = (case obj of AccessObj a \<Rightarrow> AccessFinalizer \<in> Finalizers a | _ \<Rightarrow> True)"
| "access_calm (StatusPatch before obj r) = (case obj of AccessObj a \<Rightarrow> \<not> access_ready a | _ \<Rightarrow> True)"
| "access_calm _ = True"

lemma access_guard_calm: "access_calm e \<Longrightarrow> access_guard base h e"
  by (cases e) (auto simp: access_guard_defs)

lemma access_token_backed_mono: "access_token_backed base h tok \<Longrightarrow> access_token_backed base (h @ es) tok"
  unfolding access_token_backed_def by (metis Un_iff set_append)

lemma access_told_released_mono: "access_told_released tok h \<Longrightarrow> access_told_released tok (h @ es)"
  by (auto simp: access_told_released_def list_ex_iff)

section \<open>Stepping over the helper methods\<close>

lemma access_total [simp]:
  "total_mutation (access_not_ready_mutation rsn msg)"
  "total_mutation access_clear_mutation"
  "total_mutation (access_ready_mutation token endpoint)"
  by (simp_all add: total_mutation_def access_not_ready_mutation_def access_clear_mutation_def
      access_ready_mutation_def)

lemma access_mutations_not_ready [simp]:
  "\<not> access_ready (snd (access_not_ready_mutation rsn msg t a))"
  "\<not> access_ready (snd (access_clear_mutation t a))"
  by (simp_all add: access_ready_def access_not_ready_mutation_def access_clear_mutation_def
      access_condition_def access_set_status_def)

lemma access_patch_calm:
  assumes "total_mutation m" and "\<And>t a. \<not> access_ready (snd (m t a))"
  shows "yields access_calm (\<lambda>x. shown_or AccessObj access (snd x)) (PatchAccessStatus A access m)"
  by (rule yields_conseq [OF PatchStatus_yields [OF assms(1)]])
     (use assms(2) in \<open>auto simp: patch_event_def\<close>)

lemma access_setNotReady_emits [emits_intros]: "emits access_calm (access_setNotReady A access rsn msg)"
  unfolding access_setNotReady_def by (rule emits_yields [OF access_patch_calm]) simp_all

lemma access_tail: "emits access_calm m \<Longrightarrow> gwp (access_guard base) m any_end h"
  by (erule gwp_emits) (auto intro: access_guard_calm)

lemma access_error:
  "emits access_calm m \<Longrightarrow>
   gwp (access_guard base) (access_setNotReady A access rsn msg \<bind> (\<lambda>_. m)) any_end h"
  by (rule access_tail) (auto intro!: emits_intros)

definition access_ready_event :: "string \<Rightarrow> string \<Rightarrow> event \<Rightarrow> bool" where
  "access_ready_event token endpoint e \<longleftrightarrow>
     patch_event KAccess AccessObj (access_ready_mutation token endpoint) e
     \<or> (\<exists>kd k ty rsn action msg. e = Recorded kd k ty rsn action msg)"

lemma markAccessReady_emits:
  "emits (access_ready_event token (if b = [] then token else b)) (markAccessReady A access token b)"
  unfolding markAccessReady_def Let_def
  by (intro emits_intros PatchStatus_emits access_total) (auto simp: access_ready_event_def)

lemma access_ready_token [simp]:
  "acAccessToken (AccessStatus (snd (access_ready_mutation token endpoint t a))) = token"
  by (simp add: access_ready_mutation_def access_condition_def access_set_status_def)

lemma access_guard_ready:
  assumes "access_token_backed base h token"
  shows "gwp (access_guard base) (markAccessReady A access token b) any_end h"
proof (rule gwp_emits [OF markAccessReady_emits])
  fix es e
  assume "access_ready_event token (if b = [] then token else b) e"
  then show "access_guard base (h @ es) e"
    using access_token_backed_mono [OF assms]
    by (auto simp: access_ready_event_def patch_event_def access_guard_defs)
qed auto

lemma live_access_Some:
  "live_access access as = Some a \<Longrightarrow>
   Some a \<in> set as \<and> adFrontendToken a = acAccessToken (AccessStatus access)
   \<and> isAgentAccessActive a \<and> \<not> accessSpecDrifted access a"
  by (induction access as rule: live_access.induct) (auto split: if_splits)

lemma access_create_guard:
  assumes rel: "access_told_released (acAccessToken (AccessStatus base)) h"
    and k: "access \<in> states AccessObj base h"
  shows "gwp (access_guard base) (access_create A addr access) any_end h"
proof -
  have start: "access_guard base h (AgentAccessPrivate addr (acShareToken (AccessSpec access)) (wanted_bind access) r)"
    for r using assms by (auto simp: access_guard_defs)
  have ready: "gwp (access_guard base) (markAccessReady A access tok b) any_end
      (h @ [AgentAccessPrivate addr t w (Inr tok), AgentStatus addr st])" for tok b t w st
    by (rule access_guard_ready) (auto simp: access_token_backed_def)
  have error: "gwp (access_guard base) (access_setNotReady A access rsn msg \<bind> (\<lambda>(_, access).
      emit AccessReconcileErrors_Inc \<bind> (\<lambda>_. emit (Recorded KAccess (object_key access) ty rsn action msg) \<bind>
        (\<lambda>_. ret x)))) any_end h'" for rsn msg ty action x h'
    by (rule access_tail) (auto intro!: emits_intros split: prod.split)
  show ?thesis
    unfolding access_create_def call_defs Let_def
    by (intro gwp_bind [OF gwp_perform] gwp_case_sum error start)
       (auto intro!: gwp_bind [OF gwp_perform] ready access_guard_calm)
qed

lemma access_refresh_guard:
  "gwp (access_guard access) (access_refresh A addr access) any_end h"
proof -
  let ?tok = "acAccessToken (AccessStatus access)"
  have ensure: "gwp (access_guard access) (access_ensure A addr a) any_end h'"
    if "access_told_released ?tok h' \<or> acAccessToken (AccessStatus a) \<noteq> []" "a \<in> states AccessObj access h'" for a h'
    unfolding access_ensure_def using that
    by (intro gwp_if access_create_guard gwp_return) auto
  have heal: "gwp (access_guard access) (PatchAccessStatus A access access_clear_mutation \<bind>
      (\<lambda>(err, a). case err of None \<Rightarrow> access_ensure A addr a | Some e \<Rightarrow> ret (no_requeue, Some e))) any_end
      (h @ [AgentStatus addr st, AgentReleaseAccess addr ?tok r])" for st r
  proof (rule gwp_bind, rule gwp_yields [OF access_patch_calm])
    fix x :: "go_error option \<times> ZrokAccess" and es
    let ?h = "h @ [AgentStatus addr st, AgentReleaseAccess addr ?tok r]"
    assume "shown_or AccessObj access (snd x) es"
    then have "snd x \<in> states AccessObj access (?h @ es)" by (rule states_shown [OF states_self])
    moreover have "access_told_released ?tok (?h @ es)" by (simp add: access_told_released_def)
    ultimately show "gwp (access_guard access) (case x of (err, a) \<Rightarrow> case err of
        None \<Rightarrow> access_ensure A addr a | Some e \<Rightarrow> ret (no_requeue, Some e)) any_end (?h @ es)"
      by (cases x) (auto intro!: gwp_intros ensure)
  qed (auto intro: access_guard_calm)
  have keep: "gwp (access_guard access) (markAccessReady A access (adFrontendToken a) b) any_end
      (h @ [AgentStatus addr (Inr s)])" if "live_access access (reply_accesses s) = Some a" for s a b
  proof (rule access_guard_ready)
    note la = live_access_Some [OF that]
    then obtain st where st: "s = Some st" "Some a \<in> set (stAccesses st)"
      by (cases s) (auto simp: reply_accesses_def)
    then show "access_token_backed access (h @ [AgentStatus addr (Inr s)]) (adFrontendToken a)"
      using la unfolding access_token_backed_def
      by (intro disjI2 exI [of _ addr] exI [of _ st] exI [of _ a]) auto
  qed
  show ?thesis
    unfolding access_refresh_def Let_def call_defs
    using heal
    by (intro gwp_if gwp_bind [OF gwp_perform] gwp_case_sum gwp_case_option)
       (auto intro!: ensure keep access_guard_calm gwp_bind [OF gwp_perform] simp: access_told_released_def)
qed

lemma access_guard_Get: "access_guard base h (Get kd k r)"
  by (rule access_guard_calm) simp

lemma access_live_guard: "gwp (access_guard access) (access_live A access) any_end []"
  unfolding access_live_def k8s_get_def
proof (intro gwp_if gwp_bind [OF gwp_perform] access_guard_Get gwp_case_sum access_error access_refresh_guard)
  show "gwp (access_guard access) (k8s_update AccessObj (apiAccesses A) (AddFinalizer access AccessFinalizer) \<bind>
      (\<lambda>(err, uu). ret (no_requeue, err))) any_end []"
    unfolding call_defs
    by (intro access_tail emits_intros) (auto simp: AddFinalizer_def)
qed (auto intro!: gwp_return emits_return)

lemma access_delete_guard: "gwp (access_guard access) (access_reconcileDelete A access) any_end []"
proof -
  have fin: "gwp (access_guard access) (k8s_update AccessObj (apiAccesses A) obj \<bind>
      (\<lambda>(err, uu). ret (no_requeue, err))) any_end h"
    if "access_let_go access h" for obj h
    unfolding k8s_update_def using that
    by (auto intro!: gwp_intros gwp_bind [OF gwp_perform] gwp_bind gwp_perform simp: access_guard_defs split: prod.split)
  show ?thesis
    unfolding access_reconcileDelete_def k8s_get_def Agent_ReleaseAccess_def
    by (intro gwp_if gwp_return TrueI gwp_bind [OF gwp_perform] access_guard_Get gwp_bind [OF gwp_case_sum])
       (auto intro!: fin gwp_intros access_guard_calm simp: access_let_go_def Let_def)
qed

section \<open>Properties\<close>

text \<open>C7: A reconcile of a live ZrokAccess asks the agent for an access only with the share
  token and the bind address (by default \<open>0.0.0.0:0\<close>) of a spec it has seen, and, when the
  status already names an access, only after telling the agent to release that one: accesses
  do not pile up in the agent.\<close>

theorem access_released_before_recreated:
  "guarded (access_start_ok access) (trace_of (access_live A access))"
  using gwp_trace [OF access_live_guard] by (rule guarded_mono) (simp add: access_guard_def)

text \<open>C30: A ZrokAccess is patched to \<open>Ready\<close> with an access token only if the agent returned
  that token for a new access or listed it for an active access that does not deviate from
  the spec.\<close>

theorem access_ready_is_backed:
  "guarded (access_ready_ok access) (trace_of (access_live A access))"
  using gwp_trace [OF access_live_guard] by (rule guarded_mono) (simp add: access_guard_def)

text \<open>C31: The finalizer of a ZrokAccess is removed only after the agent of its environment was asked to
  release the access named in the status (an error of the agent is not looked at), with two
  exceptions: the status names no access, or the read of the environment failed. Any error of that
  read counts, not only that the environment is gone, so a passing one leaves the access on the
  agent.\<close>

theorem access_finalizer_after_release:
  "guarded (access_finalizer_ok access) (trace_of (access_reconcileDelete A access))"
  using gwp_trace [OF access_delete_guard] by (rule guarded_mono) (simp add: access_guard_def)

end
