(* ===== verification/EnvReconcile.thy ===== *)
theory EnvReconcile
  imports World Conditions
begin

text \<open>
  \<open>internal/controller/environment_controller.go\<close>: the reconciler of ZrokEnvironments. It
  enables the remote environment once, keeps its identity in a Secret it owns, and runs the
  agent. The environment is passed along because every patch re-reads it.
\<close>

section \<open>Status\<close>

definition env_set_status ::
  "(ZrokEnvironmentStatus \<Rightarrow> ZrokEnvironmentStatus) \<Rightarrow> ZrokEnvironment \<Rightarrow> ZrokEnvironment" where
  "env_set_status f env = env\<lparr>EnvStatus := f (EnvStatus env)\<rparr>"

definition env_condition ::
  "time \<Rightarrow> string \<Rightarrow> string \<Rightarrow> string \<Rightarrow> string \<Rightarrow> ZrokEnvironment \<Rightarrow> ZrokEnvironment" where
  "env_condition t ty st rsn msg env =
     env_set_status (\<lambda>x. x\<lparr>enConditions := SetCondition t (enConditions x) ty st rsn msg (Generation env)\<rparr>) env"

definition env_not_ready_mutation :: "string \<Rightarrow> string \<Rightarrow> ZrokEnvironment mutation" where
  "env_not_ready_mutation rsn msg t env =
     (None, env_condition (t 0) ConditionReady ConditionFalse rsn msg
              (env_set_status (\<lambda>x. x\<lparr>enObservedGeneration := Generation env, enAgentReady := False\<rparr>) env))"

definition env_setNotReady :: "api \<Rightarrow> ZrokEnvironment \<Rightarrow> string \<Rightarrow> string \<Rightarrow> ZrokEnvironment op" where
  "env_setNotReady A env rsn msg =
     do { (_, env) \<leftarrow> PatchEnvStatus A env (env_not_ready_mutation rsn msg);
          emit (SetEnvironmentReady (Namespace env) (Name env) False);
          ret env }"

definition env_record :: "ZrokEnvironment \<Rightarrow> string \<Rightarrow> string \<Rightarrow> string \<Rightarrow> string \<Rightarrow> unit op" where
  "env_record env ty rsn action msg = emit (Recorded KEnv (object_key env) ty rsn action msg)"

section \<open>Secrets\<close>

definition env_readEnableToken :: "api \<Rightarrow> ZrokEnvironment \<Rightarrow> (go_error + string) op" where
  "env_readEnableToken A env =
     (let ref = enEnableTokenSecretRef (EnvSpec env) in
      do { r \<leftarrow> getSecret A (Namespace env, skName ref);
           case r of
             Inl e \<Rightarrow> ret (Inl (wrap_error (''get enable token secret '' @ skName ref) e))
           | Inr secret \<Rightarrow>
               let k = (if skKey ref = [] then DefaultEnableTokenKey else skKey ref);
                   missing = errorf (''secret '' @ skName ref @ '' missing key '' @ fmt_q k) in
               case Data secret k of
                 Some raw \<Rightarrow> if raw = [] then ret (Inl missing) else ret (Inr raw)
               | None \<Rightarrow> ret (Inl missing) })"

definition json_char :: "char \<Rightarrow> string" where
  \<comment> \<open>\<open>encoding/json\<close> with its HTML escapes, on ASCII\<close>
  "json_char c =
     (let n = (of_char c :: nat); bs = [CHR 0x5C] in
      if n = 34 \<or> n = 92 then bs @ [c]
      else if n = 8 then bs @ ''b'' else if n = 12 then bs @ ''f''
      else if n = 10 then bs @ ''n'' else if n = 13 then bs @ ''r'' else if n = 9 then bs @ ''t''
      else if n < 32 \<or> c \<in> {CHR ''<'', CHR ''>'', CHR ''&''}
      then bs @ ''u00'' @ [hex_digit (n div 16), hex_digit (n mod 16)]
      else [c])"

definition json_string :: "string \<Rightarrow> string" where
  "json_string s = [CHR 0x22] @ concat (map json_char s) @ [CHR 0x22]"

definition json_object :: "(string \<times> string) list \<Rightarrow> string" where
  \<comment> \<open>members in the given order, values already encoded\<close>
  "json_object kvs = ''{'' @ Join (map (\<lambda>(k, v). json_string k @ '':'' @ v) kvs) '','' @ ''}''"

definition identity_data :: "string \<Rightarrow> string \<Rightarrow> string \<Rightarrow> string \<Rightarrow> (string \<rightharpoonup> string)" where
  \<comment> \<open>the contents of the identity Secret; \<open>json.Marshal\<close> sorts the keys of a map\<close>
  "identity_data zid token ep cfg =
     [''envZID'' \<mapsto> zid,
      ''environment.json'' \<mapsto> json_object
        [(''api_endpoint'', json_string ep), (''ziti_identity'', json_string zid),
         (''zrok_token'', json_string token)],
      ''identity'' \<mapsto> cfg,
      ''metadata.json'' \<mapsto> json_object [(''v'', json_string ''v0.4'')],
      ''config.json'' \<mapsto> json_object [(''api_endpoint'', json_string ep), (''headless'', fmt_t True)]]"

definition identity_secret ::
  "ZrokEnvironment \<Rightarrow> string \<Rightarrow> string \<Rightarrow> string \<Rightarrow> string \<Rightarrow> Secret" where
  "identity_secret env zid token ep cfg =
     ObjectMeta.extend (new_meta (IdentitySecretName env) (Namespace env) (agent_Labels env))
       (Secret.fields (identity_data zid token ep cfg))"

section \<open>The remote environment\<close>

definition env_apiEndpoint :: "ZrokEnvironment \<Rightarrow> string" where
  "env_apiEndpoint env =
     (if enApiEndpoint (EnvSpec env) = [] then DefaultAPIEndpoint else enApiEndpoint (EnvSpec env))"

definition set_zid_mutation :: "string \<Rightarrow> ZrokEnvironment mutation" where
  "set_zid_mutation zid t env = (None, env_set_status (\<lambda>x. x\<lparr>enEnvZID := zid\<rparr>) env)"

definition enabled_mutation :: "string \<Rightarrow> string \<Rightarrow> ZrokEnvironment mutation" where
  "enabled_mutation zid uniqueID t env =
     (None, env_condition (t 0) ConditionEnabled ConditionTrue ''Enabled'' ''remote environment enabled''
              (env_set_status (\<lambda>x. x\<lparr>enEnvZID := zid, enStatusUniqueID := uniqueID\<rparr>) env))"

definition resolveUniqueID :: "api \<Rightarrow> ZrokEnvironment \<Rightarrow> (go_error + string) op" where
  "resolveUniqueID A env =
     (if enUniqueID (EnvSpec env) \<noteq> [] then ret (Inr (enUniqueID (EnvSpec env)))
      else do {
        r \<leftarrow> getNamespace A ([], DefaultUniqueIDNamespace);
        case r of
          Inl e \<Rightarrow> ret (Inl (wrap_error
              (''getting '' @ DefaultUniqueIDNamespace @ '' UUID for default uniqueID'') e))
        | Inr ns \<Rightarrow>
            if UID ns = [] then ret (Inl (errorf (DefaultUniqueIDNamespace @ '' namespace has empty UID'')))
            else ret (Inr (UID ns)) })"

definition drop_secret :: "api \<Rightarrow> Secret \<Rightarrow> string \<Rightarrow> (go_error option) op" where
  \<comment> \<open>delete an identity secret that cannot be trusted; always an error, so that Enable is retried\<close>
  "drop_secret A existing what =
     do { err \<leftarrow> k8s_delete KSecret (apiSecrets A) (object_key existing);
          case err of
            Some e \<Rightarrow> ret (Some (wrap_error (''deleting '' @ what @ '' identity secret '' @ Name existing) e))
          | None \<Rightarrow> ret (Some (errorf (''deleted '' @ what @ '' identity secret '' @ Name existing
                                       @ ''; will retry Enable''))) }"

definition adoptIdentitySecret ::
  "api \<Rightarrow> ZrokEnvironment \<Rightarrow> Secret \<Rightarrow> (go_error option \<times> ZrokEnvironment) op" where
  "adoptIdentitySecret A env existing =
     (let zid = lookup_str (Data existing) ''envZID'' in
      if \<not> IsControlledBy existing env
      then do { err \<leftarrow> drop_secret A existing ''unowned''; ret (err, env) }
      else if zid = []
      then do { err \<leftarrow> drop_secret A existing ''incomplete''; ret (err, env) }
      else if enEnvZID (EnvStatus env) = [] then PatchEnvStatus A env (set_zid_mutation zid)
      else if enEnvZID (EnvStatus env) \<noteq> zid
      then ret (Some (errorf ''identity secret envZID does not match status''), env)
      else ret (None, env))"

definition enable_environment ::
  "api \<Rightarrow> ZrokEnvironment \<Rightarrow> string \<Rightarrow> string \<Rightarrow> (go_error option \<times> ZrokEnvironment) op" where
  \<comment> \<open>the part of \<open>ensureEnabled\<close> after the identity Secret turned out to be missing\<close>
  "enable_environment A env token ep =
     do {
       u \<leftarrow> resolveUniqueID A env;
       case u of
         Inl e \<Rightarrow> ret (Some e, env)
       | Inr uniqueID \<Rightarrow> do {
           r \<leftarrow> REST_Enable A ep token (EnvironmentHost env uniqueID) (EnvironmentDescription env uniqueID);
           case r of
             Inl e \<Rightarrow> ret (Some e, env)
           | Inr (zid, cfg) \<Rightarrow>
               (case SetControllerReference A env (identity_secret env zid token ep cfg) of
                  Inl e \<Rightarrow> ret (Some e, env)
                | Inr secret \<Rightarrow> do {
                    (err, _) \<leftarrow> k8s_create SecretObj (apiSecrets A) secret;
                    case err of
                      Some e \<Rightarrow> do { _ \<leftarrow> REST_Disable A ep token zid; ret (Some e, env) }
                    | None \<Rightarrow> do {
                        (err, env) \<leftarrow> PatchEnvStatus A env (enabled_mutation zid uniqueID);
                        case err of
                          Some e \<Rightarrow> ret (Some e, env)
                        | None \<Rightarrow> do {
                            env_record env EventTypeNormal ''Enabled'' ''Enable''
                              (''enabled remote environment '' @ zid);
                            ret (None, env) } } }) } }"

definition ensureEnabled :: "api \<Rightarrow> ZrokEnvironment \<Rightarrow> string \<Rightarrow> (go_error option \<times> ZrokEnvironment) op" where
  "ensureEnabled A env token =
     (let ep = env_apiEndpoint env in
      do {
        r \<leftarrow> getSecret A (Namespace env, IdentitySecretName env);
        case r of
          Inr existing \<Rightarrow> adoptIdentitySecret A env existing
        | Inl e \<Rightarrow>
            if \<not> IsNotFound e then ret (Some e, env)
            else do {
              (_, env) \<leftarrow> (if enEnvZID (EnvStatus env) \<noteq> []
                          then PatchEnvStatus A env (set_zid_mutation []) else ret (None, env));
              enable_environment A env token ep } })"

section \<open>The agent's objects\<close>

definition ignoreAlreadyExists :: "go_error option \<Rightarrow> go_error option" where
  "ignoreAlreadyExists err =
     (case err of Some e \<Rightarrow> if IsAlreadyExists e then None else Some e | None \<Rightarrow> None)"

definition create_if_absent ::
  "('o \<Rightarrow> object) \<Rightarrow> 'o client \<Rightarrow> 'o \<Rightarrow> (go_error option) op" where
  \<comment> \<open>\<open>return ignoreAlreadyExists(r.Create(ctx, desired))\<close>\<close>
  "create_if_absent wrap c desired =
     do { (err, _) \<leftarrow> k8s_create wrap c desired; ret (ignoreAlreadyExists err) }"

definition ensurePVC :: "api \<Rightarrow> ZrokEnvironment \<Rightarrow> (go_error option) op" where
  "ensurePVC A env =
     (case SetControllerReference A env (DesiredPVC env) of
        Inl e \<Rightarrow> ret (Some e)
      | Inr desired \<Rightarrow> do {
          r \<leftarrow> getPVC A (object_key desired);
          case r of
            Inl e \<Rightarrow> if IsNotFound e then create_if_absent PVCObj (apiPVCs A) desired else ret (Some e)
          | Inr _ \<Rightarrow> ret None })"

definition hijackedAgentService :: "Service \<Rightarrow> bool" where
  "hijackedAgentService svc \<longleftrightarrow>
     ssType (SvcSpec svc) \<noteq> ServiceTypeClusterIP \<or> ssExternalName (SvcSpec svc) \<noteq> []"

definition ensureService :: "api \<Rightarrow> ZrokEnvironment \<Rightarrow> (go_error option) op" where
  "ensureService A env =
     (case SetControllerReference A env (DesiredService env) of
        Inl e \<Rightarrow> ret (Some e)
      | Inr desired \<Rightarrow> do {
          r \<leftarrow> getService A (object_key desired);
          case r of
            Inl e \<Rightarrow> if IsNotFound e then create_if_absent ServiceObj (apiServices A) desired
                     else ret (Some e)
          | Inr existing \<Rightarrow>
              if hijackedAgentService existing
              then do {
                err \<leftarrow> k8s_delete KService (apiServices A) (object_key existing);
                case err of
                  Some e \<Rightarrow> ret (Some e)
                | None \<Rightarrow> ret (Some (errorf (''deleted non-ClusterIP agent Service '' @ Name existing
                                            @ ''; will recreate''))) }
              else if ssSelector (SvcSpec existing) = ssSelector (SvcSpec desired)
                      \<and> ssPorts (SvcSpec existing) = ssPorts (SvcSpec desired)
                      \<and> ssType (SvcSpec existing) = ServiceTypeClusterIP
              then ret None
              else do {
                (err, _) \<leftarrow> k8s_update ServiceObj (apiServices A)
                   (existing\<lparr>SvcSpec := \<lparr>ssType = ServiceTypeClusterIP,
                      ssSelector = ssSelector (SvcSpec desired), ssPorts = ssPorts (SvcSpec desired),
                      ssExternalName = []\<rparr>\<rparr>);
                ret err } })"

definition ensureDeployment :: "api \<Rightarrow> ZrokEnvironment \<Rightarrow> (go_error option) op" where
  "ensureDeployment A env =
     (case SetControllerReference A env (DesiredDeployment env) of
        Inl e \<Rightarrow> ret (Some e)
      | Inr desired \<Rightarrow> do {
          r \<leftarrow> getDeployment A (object_key desired);
          case r of
            Inl e \<Rightarrow> if IsNotFound e then create_if_absent DeploymentObj (apiDeployments A) desired
                     else ret (Some e)
          | Inr existing \<Rightarrow>
              if DepSpec existing = DepSpec desired \<and> Labels existing = Labels desired then ret None
              else do {
                (err, _) \<leftarrow> k8s_update DeploymentObj (apiDeployments A)
                   (existing\<lparr>DepSpec := DepSpec desired, Labels := Labels desired\<rparr>);
                ret err } })"

record EnvConfig =
  \<comment> \<open>the fields of \<open>ZrokEnvironmentReconciler\<close> set from the command line\<close>
  ManagerNamespace :: string
  ManagerAppName :: string
  AgentNetworkPolicy :: bool
  AllowedAgentImages :: "string list"

definition ensureNetworkPolicy :: "api \<Rightarrow> EnvConfig \<Rightarrow> ZrokEnvironment \<Rightarrow> (go_error option) op" where
  "ensureNetworkPolicy A cfg env =
     do {
       r \<leftarrow> getNetworkPolicy A (Namespace env, NetworkPolicyName env);
       if \<not> AgentNetworkPolicy cfg
       then (case r of
          Inl e \<Rightarrow> ret (IgnoreNotFound e)
        | Inr existing \<Rightarrow> do {
            err \<leftarrow> k8s_delete KNetworkPolicy (apiNetworkPolicies A) (object_key existing);
            ret (case err of Some e \<Rightarrow> IgnoreNotFound e | None \<Rightarrow> None) })
       else case SetControllerReference A env
                   (DesiredNetworkPolicy env (ManagerNamespace cfg) (ManagerAppName cfg)) of
          Inl e \<Rightarrow> ret (Some e)
        | Inr desired \<Rightarrow>
            (case r of
               Inl e \<Rightarrow> if IsNotFound e then create_if_absent NetworkPolicyObj (apiNetworkPolicies A) desired
                        else ret (Some e)
             | Inr existing \<Rightarrow>
                 if NPSpec existing = NPSpec desired \<and> Labels existing = Labels desired then ret None
                 else do {
                   (err, _) \<leftarrow> k8s_update NetworkPolicyObj (apiNetworkPolicies A)
                      (existing\<lparr>NPSpec := NPSpec desired, Labels := Labels desired\<rparr>);
                   ret err }) }"

definition isAgentReady :: "api \<Rightarrow> ZrokEnvironment \<Rightarrow> (go_error + bool) op" where
  "isAgentReady A env =
     do { r \<leftarrow> getDeployment A (Namespace env, DeploymentName env);
          case r of
            Inl e \<Rightarrow> ret (if IsNotFound e then Inr False else Inl e)
          | Inr dep \<Rightarrow> ret (Inr (depReadyReplicas dep \<ge> 1 \<and> depUpdatedReplicas dep \<ge> 1)) }"

section \<open>Reconcile\<close>

definition env_waiting_mutation :: "string \<Rightarrow> ZrokEnvironment mutation" where
  \<comment> \<open>the Deployment is not ready\<close>
  "env_waiting_mutation service t env =
     (let env' = env_set_status (\<lambda>x. x\<lparr>enObservedGeneration := Generation env, enAgentService := service,
                                       enAgentReady := False\<rparr>) env;
          env' = env_condition (t 0) ConditionAgentReady ConditionFalse ''Waiting'' ''agent Deployment not ready'' env';
          env' = env_condition (t 1) ConditionEnabled ConditionTrue ''Enabled'' ''remote environment enabled'' env'
      in (None, env_condition (t 2) ConditionReady ConditionFalse ''WaitingForAgent'' ''agent not ready'' env'))"

definition env_unreachable_mutation :: "string \<Rightarrow> string \<Rightarrow> ZrokEnvironment mutation" where
  \<comment> \<open>the agent's gRPC does not answer\<close>
  "env_unreachable_mutation service msg t env =
     (let env' = env_set_status (\<lambda>x. x\<lparr>enObservedGeneration := Generation env, enAgentService := service,
                                       enAgentReady := False\<rparr>) env;
          env' = env_condition (t 0) ConditionAgentReady ConditionFalse ''ConsoleUnreachable'' msg env'
      in (None, env_condition (t 1) ConditionReady ConditionFalse ''ConsoleUnreachable'' msg env'))"

definition env_ready_mutation :: "string \<Rightarrow> ZrokEnvironment mutation" where
  "env_ready_mutation service t env =
     (let env' = env_set_status (\<lambda>x. x\<lparr>enObservedGeneration := Generation env, enAgentService := service,
                                       enAgentReady := True\<rparr>) env;
          env' = env_condition (t 0) ConditionAgentReady ConditionTrue ''Ready'' ''agent gRPC reachable'' env';
          env' = env_condition (t 1) ConditionEnabled ConditionTrue ''Enabled'' ''environment enabled'' env'
      in (None, env_condition (t 2) ConditionReady ConditionTrue ''Ready'' ''environment ready'' env'))"

definition env_not_yet :: "api \<Rightarrow> ZrokEnvironment \<Rightarrow> ZrokEnvironment mutation \<Rightarrow> outcome op" where
  \<comment> \<open>patch, report not ready and come back in ten seconds\<close>
  "env_not_yet A env mutate =
     do { (err, env) \<leftarrow> PatchEnvStatus A env mutate;
          case err of
            Some e \<Rightarrow> ret (no_requeue, Some e)
          | None \<Rightarrow> do { emit (SetEnvironmentReady (Namespace env) (Name env) False);
                         ret (requeue_after 10, None) } }"

definition env_readiness :: "api \<Rightarrow> ZrokEnvironment \<Rightarrow> outcome op" where
  \<comment> \<open>from \<open>isAgentReady\<close> on\<close>
  "env_readiness A env =
     do {
       r \<leftarrow> isAgentReady A env;
       case r of
         Inl e \<Rightarrow> do { _ \<leftarrow> env_setNotReady A env ''AgentCheckError'' (Error e);
                       emit EnvironmentReconcileErrors_Inc; ret (no_requeue, Some e) }
       | Inr agentReady \<Rightarrow>
           let agentService = ServiceName env @ ''.'' @ Namespace env @ ''.svc'' in
           if \<not> agentReady then env_not_yet A env (env_waiting_mutation agentService)
           else do {
             st \<leftarrow> Agent_Status A (AgentDialAddr env);
             case st of
               Inl e \<Rightarrow> env_not_yet A env (env_unreachable_mutation agentService (Error e))
             | Inr _ \<Rightarrow> do {
                 let wasReady = IsTrue (enConditions (EnvStatus env)) ConditionReady;
                 (err, env) \<leftarrow> PatchEnvStatus A env (env_ready_mutation agentService);
                 case err of
                   Some e \<Rightarrow> ret (no_requeue, Some e)
                 | None \<Rightarrow> do {
                     emit (SetEnvironmentReady (Namespace env) (Name env) True);
                     (if \<not> wasReady
                      then env_record env EventTypeNormal ''Ready'' ''Ready'' ''ZrokEnvironment is ready''
                      else ret ());
                     ret (requeue_after 120, None) } } } }"

definition env_step :: "api \<Rightarrow> ZrokEnvironment \<Rightarrow> (go_error option) op \<Rightarrow> string \<Rightarrow> outcome op \<Rightarrow> outcome op" where
  \<comment> \<open>\<open>if err = step(); err != nil\<close>: not ready for \<open>reason\<close> and return the error; otherwise go on\<close>
  "env_step A env step reason rest =
     do { err \<leftarrow> step;
          case err of
            Some e \<Rightarrow> do { _ \<leftarrow> env_setNotReady A env reason (Error e);
                          emit EnvironmentReconcileErrors_Inc; ret (no_requeue, Some e) }
          | None \<Rightarrow> rest }"

definition env_ensure_agent :: "api \<Rightarrow> EnvConfig \<Rightarrow> ZrokEnvironment \<Rightarrow> outcome op" where
  "env_ensure_agent A cfg env =
     env_step A env (ensurePVC A env) ''PVCError''
       (env_step A env (ensureService A env) ''ServiceError''
         (env_step A env (ensureDeployment A env) ''DeploymentError''
           (env_step A env (ensureNetworkPolicy A cfg env) ''NetworkPolicyError''
             (env_readiness A env))))"

definition env_live :: "api \<Rightarrow> EnvConfig \<Rightarrow> ZrokEnvironment \<Rightarrow> outcome op" where
  "env_live A cfg env =
     (if \<not> ContainsFinalizer env EnvironmentFinalizer
      then do { (err, _) \<leftarrow> k8s_update EnvObj (apiEnvs A) (AddFinalizer env EnvironmentFinalizer);
                ret (no_requeue, err) }
      else do {
        r \<leftarrow> env_readEnableToken A env;
        case r of
          Inl e \<Rightarrow> do { env \<leftarrow> env_setNotReady A env ''SecretError'' (Error e);
                        emit EnvironmentReconcileErrors_Inc;
                        env_record env EventTypeWarning ''SecretError'' ''Error'' (Error e);
                        ret (no_requeue, Some e) }
        | Inr token \<Rightarrow>
            (case ValidateImage (agImage (enAgent (EnvSpec env))) (AllowedAgentImages cfg) of
               Some e \<Rightarrow> do { _ \<leftarrow> env_setNotReady A env ''ImageNotAllowed'' (Error e);
                             ret (requeue_after 120, None) }
             | None \<Rightarrow> do {
                 (err, env) \<leftarrow> ensureEnabled A env token;
                 case err of
                   Some e \<Rightarrow>
                     if IsEndpointNotAllowed e
                     then do { _ \<leftarrow> env_setNotReady A env ''EndpointNotAllowed'' (Error e);
                               ret (requeue_after 120, None) }
                     else do { env \<leftarrow> env_setNotReady A env ''EnableError'' (Error e);
                               emit EnvironmentReconcileErrors_Inc;
                               env_record env EventTypeWarning ''EnableError'' ''Error'' (Error e);
                               ret (no_requeue, Some e) }
                 | None \<Rightarrow> env_ensure_agent A cfg env }) })"

section \<open>Deletion\<close>

definition blocking_share :: "ZrokEnvironment \<Rightarrow> ZrokShare \<Rightarrow> bool" where
  \<comment> \<open>a share that keeps the environment from being deleted\<close>
  "blocking_share env s \<longleftrightarrow>
     \<not> (shEnvironmentRef (ShareSpec s) \<noteq> Name env \<or> DeletionTimestamp s \<noteq> None)"

definition shares_exist_mutation :: "string \<Rightarrow> ZrokEnvironment mutation" where
  "shares_exist_mutation msg t env =
     (None, env_condition (t 0) ConditionReady ConditionFalse ''SharesExist'' msg env)"

definition env_teardown :: "api \<Rightarrow> ZrokEnvironment \<Rightarrow> outcome op" where
  \<comment> \<open>delete the local objects and give up the finalizer\<close>
  "env_teardown A env =
     do {
       _ \<leftarrow> k8s_delete KDeployment (apiDeployments A) (Namespace env, DeploymentName env);
       _ \<leftarrow> k8s_delete KService (apiServices A) (Namespace env, ServiceName env);
       _ \<leftarrow> k8s_delete KNetworkPolicy (apiNetworkPolicies A) (Namespace env, NetworkPolicyName env);
       _ \<leftarrow> k8s_delete KSecret (apiSecrets A) (Namespace env, IdentitySecretName env);
       _ \<leftarrow> (if enReclaimPolicy (EnvSpec env) \<noteq> ReclaimRetain
             then k8s_delete KPVC (apiPVCs A) (Namespace env, PVCName env) else ret None);
       (err, env) \<leftarrow> k8s_update EnvObj (apiEnvs A) (RemoveFinalizer env EnvironmentFinalizer);
       case err of
         Some e \<Rightarrow> ret (no_requeue, Some e)
       | None \<Rightarrow> do { emit (DeleteEnvironmentReady (Namespace env) (Name env)); ret (no_requeue, None) } }"

definition env_disable :: "api \<Rightarrow> ZrokEnvironment \<Rightarrow> outcome op" where
  \<comment> \<open>disable the remote environment first, unless it is retained\<close>
  "env_disable A env =
     (let zid = enEnvZID (EnvStatus env) in
      if enReclaimPolicy (EnvSpec env) \<noteq> ReclaimRetain \<and> zid \<noteq> []
      then do {
        r \<leftarrow> env_readEnableToken A env;
        case r of
          Inl e \<Rightarrow> ret (no_requeue, Some e)
        | Inr token \<Rightarrow> do {
            err \<leftarrow> REST_Disable A (env_apiEndpoint env) token zid;
            case err of
              Some e \<Rightarrow> do { env_record env EventTypeWarning ''DisableError'' ''Error'' (Error e);
                            ret (no_requeue, Some e) }
            | None \<Rightarrow> do { env_record env EventTypeNormal ''Disabled'' ''Disable''
                             (''disabled remote environment '' @ zid);
                           env_teardown A env } } }
      else env_teardown A env)"

definition env_reconcileDelete :: "api \<Rightarrow> ZrokEnvironment \<Rightarrow> outcome op" where
  "env_reconcileDelete A env =
     (if \<not> ContainsFinalizer env EnvironmentFinalizer then ret (no_requeue, None)
      else do {
        r \<leftarrow> listZrokShares A (InNamespace (Namespace env));
        case r of
          Inl e \<Rightarrow> ret (no_requeue, Some e)
        | Inr items \<Rightarrow>
            (case List.find (blocking_share env) items of
               Some s \<Rightarrow> do {
                 let msg = ''cannot delete environment while share '' @ Name s @ '' exists'';
                 (_, env) \<leftarrow> PatchEnvStatus A env (shares_exist_mutation msg);
                 emit (SetEnvironmentReady (Namespace env) (Name env) False);
                 env_record env EventTypeWarning ''SharesExist'' ''Error'' msg;
                 ret (requeue_after 15, None) }
             | None \<Rightarrow> env_disable A env) })"

definition env_Reconcile :: "api \<Rightarrow> EnvConfig \<Rightarrow> key \<Rightarrow> outcome op" where
  "env_Reconcile A cfg req =
     do {
       r \<leftarrow> getEnv A req;
       case r of
         Inl e \<Rightarrow> ret (no_requeue, IgnoreNotFound e)
       | Inr env \<Rightarrow>
           if DeletionTimestamp env \<noteq> None then env_reconcileDelete A env else env_live A cfg env }"

end
