(* ===== verification/EnvSafety.thy ===== *)
theory EnvSafety
  imports EnvReconcile
begin

text \<open>
  What the reconcile of a live ZrokEnvironment may do: guards on its history, for every behaviour
  of the cluster, the controller and the agent.
\<close>

section \<open>The guards of a live reconcile\<close>

definition env_is_ready :: "ZrokEnvironment \<Rightarrow> bool" where
  "env_is_ready env \<longleftrightarrow> IsTrue (enConditions (EnvStatus env)) ConditionReady"

fun agent_write :: "event \<Rightarrow> bool" where
  \<comment> \<open>a call that creates or changes the remote environment or an object of the agent\<close>
  "agent_write (RestEnable ep tok hst desc r) = True"
| "agent_write (Create obj r) = True"
| "agent_write (Update obj r) = (case obj of EnvObj env \<Rightarrow> False | _ \<Rightarrow> True)"
| "agent_write _ = False"

definition image_checked :: "EnvConfig \<Rightarrow> ZrokEnvironment \<Rightarrow> event \<Rightarrow> bool" where
  "image_checked cfg base e \<longleftrightarrow>
     agent_write e \<longrightarrow> ImageAllowed (agImage (enAgent (EnvSpec base))) (AllowedAgentImages cfg)"

definition identity_missing :: "ZrokEnvironment \<Rightarrow> event list \<Rightarrow> bool" where
  \<comment> \<open>the identity Secret was looked up and does not exist\<close>
  "identity_missing base h \<longleftrightarrow>
     (\<exists>e. IsNotFound e \<and> Get KSecret (Namespace base, IdentitySecretName base) (Inl e) \<in> set h)"

definition enable_ok :: "ZrokEnvironment \<Rightarrow> event list \<Rightarrow> event \<Rightarrow> bool" where
  "enable_ok base h e \<longleftrightarrow> (\<forall>ep tok hst desc r. e = RestEnable ep tok hst desc r \<longrightarrow> identity_missing base h)"

fun enable_reply :: "string \<Rightarrow> event \<Rightarrow> bool" where
  "enable_reply zid (RestEnable ep tok hst desc (Inr (z, cfg))) = (z = zid)"
| "enable_reply zid e = False"

definition zid_trusted :: "ZrokEnvironment \<Rightarrow> event list \<Rightarrow> string \<Rightarrow> bool" where
  \<comment> \<open>from a Secret this environment controls, or from an Enable of this reconcile\<close>
  "zid_trusted base h zid \<longleftrightarrow>
     (\<exists>k s. Get KSecret k (Inr (SecretObj s)) \<in> set h \<and> IsControlledBy s base
        \<and> lookup_str (Data s) ''envZID'' = zid)
     \<or> list_ex (enable_reply zid) h"

definition zid_ok :: "ZrokEnvironment \<Rightarrow> event list \<Rightarrow> event \<Rightarrow> bool" where
  \<comment> \<open>a status patch keeps the environment's identity, drops it, or sets a trusted one\<close>
  "zid_ok base h e \<longleftrightarrow>
     (\<forall>b a r. e = StatusPatch (EnvObj b) (EnvObj a) r \<longrightarrow>
        enEnvZID (EnvStatus a) \<in> {[], enEnvZID (EnvStatus b)} \<or> zid_trusted base h (enEnvZID (EnvStatus a)))"

definition identity_in_place :: "ZrokEnvironment \<Rightarrow> event list \<Rightarrow> bool" where
  \<comment> \<open>the identity Secret was read, is controlled by the environment and holds an identity that its
     status does not contradict; or it was created with the identity that an Enable returned\<close>
  "identity_in_place base h \<longleftrightarrow>
     (\<exists>s. Get KSecret (Namespace base, IdentitySecretName base) (Inr (SecretObj s)) \<in> set h
        \<and> IsControlledBy s base \<and> lookup_str (Data s) ''envZID'' \<noteq> []
        \<and> enEnvZID (EnvStatus base) \<in> {[], lookup_str (Data s) ''envZID''})
     \<or> (\<exists>s s'. Create (SecretObj s) (Inr s') \<in> set h
        \<and> list_ex (enable_reply (lookup_str (Data s) ''envZID'')) h)"

fun serves_agent :: "event \<Rightarrow> bool" where
  \<comment> \<open>a call that runs the agent on the identity, or talks to it\<close>
  "serves_agent (Create obj r) = (case obj of SecretObj s \<Rightarrow> False | _ \<Rightarrow> True)"
| "serves_agent (Update obj r) = (case obj of EnvObj env \<Rightarrow> False | _ \<Rightarrow> True)"
| "serves_agent (AgentStatus addr r) = True"
| "serves_agent _ = False"

definition identity_used :: "ZrokEnvironment \<Rightarrow> event list \<Rightarrow> event \<Rightarrow> bool" where
  \<comment> \<open>the agent is deployed and called only on an identity in place, and the only Secrets written are
     those of an Enable\<close>
  "identity_used base h e \<longleftrightarrow>
     (serves_agent e \<longrightarrow> identity_in_place base h)
     \<and> (\<forall>s r. e = Create (SecretObj s) r \<longrightarrow> list_ex (enable_reply (lookup_str (Data s) ''envZID'')) h)"

definition identity_ok :: "ZrokEnvironment \<Rightarrow> event list \<Rightarrow> event \<Rightarrow> bool" where
  "identity_ok base h e \<longleftrightarrow> zid_ok base h e \<and> enable_ok base h e \<and> identity_used base h e"

definition pod_images :: "Deployment \<Rightarrow> string list" where
  "pod_images d =
     map cnImage (podInitContainers (depPodSpec (DepSpec d)) @ podContainers (depPodSpec (DepSpec d)))"

definition image_known :: "EnvConfig \<Rightarrow> ZrokEnvironment \<Rightarrow> event list \<Rightarrow> string \<Rightarrow> bool" where
  \<comment> \<open>the proxy, an image the operator allows, or that of a state of the environment seen since\<close>
  "image_known cfg base h img \<longleftrightarrow>
     img = DefaultSocatImage \<or> ImageAllowed img (AllowedAgentImages cfg)
     \<or> (\<exists>s. EnvObj s \<in> objects_seen h \<and> img = agImage (enAgent (EnvSpec s)))"

definition image_ok :: "EnvConfig \<Rightarrow> ZrokEnvironment \<Rightarrow> event list \<Rightarrow> event \<Rightarrow> bool" where
  "image_ok cfg base h e \<longleftrightarrow>
     image_checked cfg base e
     \<and> (\<forall>d r. e = Create (DeploymentObj d) r \<or> e = Update (DeploymentObj d) r
          \<longrightarrow> list_all (image_known cfg base h) (pod_images d))"

definition agent_answers :: "event list \<Rightarrow> bool" where
  "agent_answers h \<longleftrightarrow>
     (\<exists>k d. Get KDeployment k (Inr (DeploymentObj d)) \<in> set h \<and> depReadyReplicas d \<ge> 1 \<and> depUpdatedReplicas d \<ge> 1)
     \<and> (\<exists>addr st. AgentStatus addr (Inr st) \<in> set h)"

definition env_ready_ok :: "event list \<Rightarrow> event \<Rightarrow> bool" where
  \<comment> \<open>the environment becomes ready only when the agent runs and answers\<close>
  "env_ready_ok h e \<longleftrightarrow>
     (\<forall>b a r. e = StatusPatch (EnvObj b) (EnvObj a) r \<longrightarrow> env_is_ready a \<longrightarrow>
        env_is_ready b \<or> agent_answers h)"

definition env_guard :: "EnvConfig \<Rightarrow> ZrokEnvironment \<Rightarrow> event list \<Rightarrow> event \<Rightarrow> bool" where
  "env_guard cfg base h e \<longleftrightarrow>
     image_ok cfg base h e \<and> identity_ok base h e \<and> env_ready_ok h e"

lemmas env_guard_defs =
  env_guard_def image_ok_def image_checked_def identity_ok_def identity_used_def enable_ok_def zid_ok_def
  env_ready_ok_def

fun env_calm :: "event \<Rightarrow> bool" where
  "env_calm (StatusPatch b obj r) =
     (\<forall>b' a. b = EnvObj b' \<and> obj = EnvObj a \<longrightarrow>
        (env_is_ready a \<longrightarrow> env_is_ready b') \<and> enEnvZID (EnvStatus a) \<in> {[], enEnvZID (EnvStatus b')})"
| "env_calm (AgentStatus addr r) = False"
| "env_calm e = (\<not> agent_write e)"

lemma env_calm_serves: "env_calm e \<Longrightarrow> \<not> serves_agent e \<and> \<not> agent_write e"
  by (cases e) (auto split: object.splits)

lemma env_guard_calm: "env_calm e \<Longrightarrow> env_guard cfg base h e"
  using env_calm_serves [of e] by (cases e) (auto simp: env_guard_defs)

lemma identity_in_place_mono: "identity_in_place base h \<Longrightarrow> identity_in_place base (h @ es)"
  unfolding identity_in_place_def list_ex_append by auto

section \<open>The helper methods\<close>

lemma env_total [simp]:
  "total_mutation (env_not_ready_mutation rsn msg)"
  "total_mutation (set_zid_mutation zid)"
  "total_mutation (enabled_mutation zid u)"
  "total_mutation (env_waiting_mutation service)"
  "total_mutation (env_unreachable_mutation service msg)"
  "total_mutation (env_ready_mutation service)"
  "total_mutation (shares_exist_mutation msg)"
  by (simp_all add: total_mutation_def env_not_ready_mutation_def set_zid_mutation_def Let_def
      enabled_mutation_def env_waiting_mutation_def env_unreachable_mutation_def env_ready_mutation_def
      shares_exist_mutation_def)

lemma env_condition_simps [simp]:
  "env_is_ready (env_condition t ty st rsn msg env) \<longleftrightarrow>
     (if ty = ConditionReady then st = ConditionTrue else env_is_ready env)"
  "enEnvZID (EnvStatus (env_condition t ty st rsn msg env)) = enEnvZID (EnvStatus env)"
  "EnvStatus (env_set_status f env) = f (EnvStatus env)"
  by (auto simp: env_is_ready_def env_condition_def env_set_status_def)

lemma env_mutations_calm [simp]:
  "\<not> env_is_ready (snd (env_not_ready_mutation rsn msg t env))"
  "\<not> env_is_ready (snd (env_waiting_mutation service t env))"
  "\<not> env_is_ready (snd (env_unreachable_mutation service msg t env))"
  "\<not> env_is_ready (snd (shares_exist_mutation msg t env))"
  "enEnvZID (EnvStatus (snd (env_not_ready_mutation rsn msg t env))) = enEnvZID (EnvStatus env)"
  "enEnvZID (EnvStatus (snd (env_waiting_mutation service t env))) = enEnvZID (EnvStatus env)"
  "enEnvZID (EnvStatus (snd (env_unreachable_mutation service msg t env))) = enEnvZID (EnvStatus env)"
  "enEnvZID (EnvStatus (snd (shares_exist_mutation msg t env))) = enEnvZID (EnvStatus env)"
  "enEnvZID (EnvStatus (snd (env_ready_mutation service t env))) = enEnvZID (EnvStatus env)"
  by (simp_all add: env_not_ready_mutation_def env_waiting_mutation_def env_unreachable_mutation_def
      env_ready_mutation_def shares_exist_mutation_def Let_def)

lemma env_patch_emits:
  assumes "total_mutation m" and "\<And>t env. env_is_ready (snd (m t env)) \<Longrightarrow> env_is_ready env"
    and "\<And>t env. enEnvZID (EnvStatus (snd (m t env))) \<in> {[], enEnvZID (EnvStatus env)}"
  shows "emits env_calm (PatchEnvStatus A env m)"
proof (rule PatchStatus_emits [OF assms(1)])
  fix e assume "patch_event KEnv EnvObj m e"
  then show "env_calm e" using assms(2,3) by (auto simp: patch_event_def)
qed

lemma env_setNotReady_emits [emits_intros]: "emits env_calm (env_setNotReady A env rsn msg)"
  unfolding env_setNotReady_def
  by (intro emits_intros env_patch_emits) simp_all

lemma env_record_emits [emits_intros]: "emits env_calm (env_record env ty rsn action msg)"
  by (simp add: env_record_def emits_intros)

lemma env_tail: "emits env_calm m \<Longrightarrow> gwp (env_guard cfg base) m any_end h"
  by (erule gwp_emits) (auto intro: env_guard_calm)

lemma env_error:
  "emits env_calm m \<Longrightarrow>
   gwp (env_guard cfg base) (env_setNotReady A env rsn msg \<bind> (\<lambda>_. m)) any_end h"
  by (rule env_tail) (auto intro!: emits_intros)

lemma env_error':
  "(\<And>env. emits env_calm (m env)) \<Longrightarrow>
   gwp (env_guard cfg base) (env_setNotReady A env rsn msg \<bind> m) any_end h"
  by (rule env_tail) (auto intro!: emits_intros)

text \<open>
  The agent's objects are written once the image has been checked and the identity is in place.
  The Deployment is the wanted one of the state at hand.
\<close>

fun object_event :: "ZrokEnvironment \<Rightarrow> event \<Rightarrow> bool" where
  "object_event env (Get kd k r) = True"
| "object_event env (Create obj r) =
     (case obj of DeploymentObj d \<Rightarrow> pod_images d = pod_images (DesiredDeployment env)
        | SecretObj s \<Rightarrow> False | _ \<Rightarrow> True)"
| "object_event env (Update obj r) =
     (case obj of DeploymentObj d \<Rightarrow> pod_images d = pod_images (DesiredDeployment env)
        | _ \<Rightarrow> True)"
| "object_event env (Delete kd k r) = True"
| "object_event env _ = False"

definition allowed_base :: "EnvConfig \<Rightarrow> ZrokEnvironment \<Rightarrow> bool" where
  "allowed_base cfg base \<longleftrightarrow> ImageAllowed (agImage (enAgent (EnvSpec base))) (AllowedAgentImages cfg)"

lemma desired_images:
  "pod_images (DesiredDeployment env) = [agent_Image env, agent_Image env, DefaultSocatImage]"
  by (simp add: pod_images_def DesiredDeployment_def Let_def ObjectMeta.defs Deployment.defs seed_container_def
      agent_container_def proxy_container_def)

lemma desired_images_known:
  assumes "allowed_base cfg base" and "env \<in> states EnvObj base h"
  shows "list_all (image_known cfg base h) (pod_images (DesiredDeployment env))"
proof -
  have "image_known cfg base h (agent_Image env)"
    using assms
    by (auto simp: image_known_def agent_Image_def Let_def states_def allowed_base_def ImageAllowed_def)
  then show ?thesis by (simp add: desired_images image_known_def)
qed

lemma object_event_guard:
  assumes "object_event env e" and "allowed_base cfg base" and "identity_in_place base h"
    and "env \<in> states EnvObj base h"
  shows "env_guard cfg base h e"
  using assms(1-3) desired_images_known [OF assms(2,4)]
  by (cases e) (auto simp: env_guard_defs allowed_base_def split: object.splits)

lemma ensure_objects_emit:
  "emits (object_event env) (ensurePVC A env)"
  "emits (object_event env) (ensureService A env)"
  "emits (object_event env) (ensureDeployment A env)"
  "emits (object_event env) (ensureNetworkPolicy A cfg env)"
  unfolding ensurePVC_def ensureService_def ensureDeployment_def ensureNetworkPolicy_def
    create_if_absent_def call_defs
  by (intro emits_intros; simp add: pod_images_def SetControllerReference_def split: option.splits; fastforce)+

lemma isAgentReady_yields:
  "yields env_calm
     (\<lambda>r es. r = Inr True \<longrightarrow> (\<exists>k d. Get KDeployment k (Inr (DeploymentObj d)) \<in> set es
        \<and> depReadyReplicas d \<ge> 1 \<and> depUpdatedReplicas d \<ge> 1))
     (isAgentReady A env)"
  unfolding isAgentReady_def k8s_get_def
  by (rule yields_bind [OF yields_perform [where
          R = "\<lambda>r es. es = [Get KDeployment (Namespace env, DeploymentName env) (map_sum id DeploymentObj r)]"]])
     (auto intro!: yields_case_sum yields_return split: if_splits)

lemma env_not_yet_emits:
  "emits env_calm (PatchEnvStatus A env m) \<Longrightarrow> emits env_calm (env_not_yet A env m)"
  unfolding env_not_yet_def by (intro emits_intros) simp_all

lemma env_ready_patch:
  assumes "agent_answers h" and that: "\<And>x. emits env_calm (m x)"
  shows "gwp (env_guard cfg base) (PatchEnvStatus A env (env_ready_mutation service) \<bind> m) any_end h"
proof (rule gwp_bind, rule gwp_emits [OF PatchStatus_emits [OF env_total(6)]])
  show "patch_event KEnv EnvObj (env_ready_mutation service) e \<Longrightarrow>
      patch_event KEnv EnvObj (env_ready_mutation service) e" for e .
next
  fix es e assume "patch_event KEnv EnvObj (env_ready_mutation service) e"
  then show "env_guard cfg base (h @ es) e"
    using assms by (auto simp: patch_event_def env_guard_defs agent_answers_def)
qed (rule env_tail [OF that])

lemma env_readiness_guard:
  assumes place: "identity_in_place base h"
  shows "gwp (env_guard cfg base) (env_readiness A env) any_end h"
  unfolding env_readiness_def Let_def
proof (rule gwp_bind, rule gwp_yields [OF isAgentReady_yields])
  show "env_calm e \<Longrightarrow> env_guard cfg base (h @ es) e" for es e by (rule env_guard_calm)
next
  fix r :: "go_error + bool" and es
  assume ready: "r = Inr True \<longrightarrow> (\<exists>k d. Get KDeployment k (Inr (DeploymentObj d)) \<in> set es
      \<and> depReadyReplicas d \<ge> 1 \<and> depUpdatedReplicas d \<ge> 1)"
  let ?svc = "ServiceName env @ ''.'' @ Namespace env @ ''.svc''"
  let ?h = "\<lambda>st. (h @ es) @ [AgentStatus (AgentDialAddr env) st]"
  have fin: "gwp (env_guard cfg base) (PatchEnvStatus A env (env_ready_mutation ?svc) \<bind>
      (\<lambda>(err, env). case err of
          None \<Rightarrow> emit (SetEnvironmentReady (Namespace env) (Name env) True) \<bind> (\<lambda>_.
            (if b then env_record env EventTypeNormal ''Ready'' ''Ready'' ''ZrokEnvironment is ready''
             else ret ()) \<bind> (\<lambda>_. ret (requeue_after 120, None)))
        | Some e \<Rightarrow> ret (no_requeue, Some e))) any_end (?h (Inr st))" if "r = Inr True" for st b
    using ready that
    by (intro env_ready_patch emits_intros) (auto simp: agent_answers_def)
  have waiting: "gwp (env_guard cfg base) (env_not_yet A env (env_waiting_mutation s)) any_end h'" for s h'
    by (intro env_tail env_not_yet_emits env_patch_emits) simp_all
  have unreachable: "gwp (env_guard cfg base) (env_not_yet A env (env_unreachable_mutation s msg)) any_end h'"
    for s msg h'
    by (intro env_tail env_not_yet_emits env_patch_emits) simp_all
  show "gwp (env_guard cfg base)
      (case r of
         Inl e \<Rightarrow> env_setNotReady A env ''AgentCheckError'' (Error e) \<bind>
           (\<lambda>_. emit EnvironmentReconcileErrors_Inc \<bind> (\<lambda>_. ret (no_requeue, Some e)))
       | Inr agentReady \<Rightarrow>
           if \<not> agentReady then env_not_yet A env (env_waiting_mutation ?svc)
           else Agent_Status A (AgentDialAddr env) \<bind> (\<lambda>st. case st of
               Inl e \<Rightarrow> env_not_yet A env (env_unreachable_mutation ?svc (Error e))
             | Inr _ \<Rightarrow> PatchEnvStatus A env (env_ready_mutation ?svc) \<bind> (\<lambda>(err, enva). case err of
                 None \<Rightarrow> emit (SetEnvironmentReady (Namespace enva) (Name enva) True) \<bind> (\<lambda>_.
                   (if \<not> IsTrue (enConditions (EnvStatus env)) ConditionReady
                    then env_record enva EventTypeNormal ''Ready'' ''Ready'' ''ZrokEnvironment is ready''
                    else ret ()) \<bind> (\<lambda>_. ret (requeue_after 120, None)))
               | Some e \<Rightarrow> ret (no_requeue, Some e)))) any_end (h @ es)"
    unfolding Agent_Status_def
    apply (intro gwp_case_sum gwp_if env_error waiting gwp_bind [OF gwp_perform] unreachable)
      apply (intro emits_intros; simp)
     apply (use identity_in_place_mono [OF place] in \<open>simp add: env_guard_defs\<close>)
    apply (simp only:, rule fin, simp)
    done
qed

section \<open>Enabling the remote environment\<close>

lemma identity_secret_zid:
  "SetControllerReference A env (identity_secret env zid token ep cfg) = Inr s
    \<Longrightarrow> lookup_str (Data s) ''envZID'' = zid"
  by (auto simp: SetControllerReference_def identity_secret_def identity_data_def lookup_str_def
      ObjectMeta.defs Secret.defs new_meta_def split: option.splits)

lemma zid_trusted_mono: "zid_trusted base h zid \<Longrightarrow> zid_trusted base (h @ es) zid"
  unfolding zid_trusted_def list_ex_append by (metis Un_iff set_append)

lemma resolveUniqueID_emits [emits_intros]: "emits env_calm (resolveUniqueID A env)"
  unfolding resolveUniqueID_def call_defs by (intro emits_intros) simp_all

lemma drop_secret_emits [emits_intros]: "emits env_calm (drop_secret A existing what)"
  unfolding drop_secret_def call_defs by (intro emits_intros) simp_all

text \<open>A patch that sets the identity is allowed once that identity is trusted.\<close>

lemma zid_mutations [simp]:
  "enEnvZID (EnvStatus (snd (set_zid_mutation zid t env))) = zid"
  "enEnvZID (EnvStatus (snd (enabled_mutation zid u t env))) = zid"
  "env_is_ready (snd (set_zid_mutation zid t env)) = env_is_ready env"
  "env_is_ready (snd (enabled_mutation zid u t env)) = env_is_ready env"
  by (simp_all add: set_zid_mutation_def enabled_mutation_def)
     (simp_all add: env_is_ready_def env_set_status_def)

lemma env_zid_patch:
  assumes "zid_trusted base h zid" and "total_mutation m"
    and "\<And>t env. env_is_ready (snd (m t env)) \<Longrightarrow> env_is_ready env"
    and "\<And>t env. enEnvZID (EnvStatus (snd (m t env))) = zid"
    and "\<And>x es. shown_or EnvObj env (snd x) es \<Longrightarrow> Q x (h @ es)"
  shows "gwp (env_guard cfg base) (PatchEnvStatus A env m) Q h"
proof (rule gwp_yields [OF PatchStatus_yields [OF assms(2)]])
  fix es e assume "patch_event KEnv EnvObj m e"
  then show "env_guard cfg base (h @ es) e"
    using assms(1,3,4) by (auto simp: patch_event_def env_guard_defs zid_trusted_mono)
qed (rule assms(5))

definition enabled_end :: "ZrokEnvironment \<Rightarrow> go_error option \<times> ZrokEnvironment \<Rightarrow> event list \<Rightarrow> bool" where
  \<comment> \<open>without an error the identity is in place, and the environment is one that was seen\<close>
  "enabled_end base x h \<longleftrightarrow>
     snd x \<in> states EnvObj base h \<and> (fst x = None \<longrightarrow> identity_in_place base h)"

lemma enabled_end_error: "env \<in> states EnvObj base h \<Longrightarrow> enabled_end base (Some e, env) h"
  by (simp add: enabled_end_def)

lemma adoptIdentitySecret_guard:
  assumes "Get KSecret (Namespace env, IdentitySecretName env) (Inr (SecretObj s)) \<in> set h"
  shows "gwp (env_guard cfg env) (adoptIdentitySecret A env s) (enabled_end env) h"
proof -
  let ?zid = "lookup_str (Data s) ''envZID''"
  have drop: "gwp (env_guard cfg env) (drop_secret A s what \<bind> (\<lambda>err. ret (err, env))) (enabled_end env) h" for what
  proof (rule gwp_bind, rule gwp_yields [where E = env_calm and R = "\<lambda>err _. err \<noteq> None"])
    show "yields env_calm (\<lambda>err _. err \<noteq> None) (drop_secret A s what)"
      unfolding drop_secret_def call_defs
      by (rule yields_bind [OF yields_perform [where R = "\<lambda>_ _. True"]])
         (auto intro!: yields_case_option yields_return)
  qed (auto intro!: gwp_return env_guard_calm simp: enabled_end_def)
  show ?thesis
    unfolding adoptIdentitySecret_def Let_def
  proof (intro gwp_if drop)
    assume c: "\<not> \<not> IsControlledBy s env" "?zid \<noteq> []" and z: "enEnvZID (EnvStatus env) = []"
    have "zid_trusted env h ?zid" using assms c unfolding zid_trusted_def by blast
    moreover have "identity_in_place env h" using assms c z unfolding identity_in_place_def by auto
    ultimately show "gwp (env_guard cfg env) (PatchEnvStatus A env (set_zid_mutation ?zid)) (enabled_end env) h"
      by (intro env_zid_patch)
         (auto simp: enabled_end_def identity_in_place_mono intro: states_shown [OF states_self])
  next
    assume "\<not> \<not> IsControlledBy s env" "?zid \<noteq> []" "\<not> enEnvZID (EnvStatus env) \<noteq> ?zid"
    then show "gwp (env_guard cfg env) (ret (None, env)) (enabled_end env) h"
      using assms by (auto intro!: gwp_return simp: enabled_end_def identity_in_place_def)
  qed (simp add: gwp_return enabled_end_def)
qed

lemma created_in_place:
  "SetControllerReference A env (identity_secret env zid token ep cfg) = Inr s \<Longrightarrow>
   list_ex (enable_reply zid) h \<Longrightarrow> Create (SecretObj s) (Inr s') \<in> set h \<Longrightarrow> identity_in_place base h"
  using identity_secret_zid unfolding identity_in_place_def by blast

lemma enable_environment_guard:
  assumes "allowed_base cfg base" and "identity_missing base h" and "env \<in> states EnvObj base h"
  shows "gwp (env_guard cfg base) (enable_environment A env token ep) (enabled_end base) h"
proof -
  have enable: "env_guard cfg base (h @ es) (RestEnable ep token hst desc r)" for es hst desc r
    using assms by (auto simp: env_guard_defs allowed_base_def identity_missing_def)
  have store: "env_guard cfg base h' (Create (SecretObj s) r)"
    if "list_ex (enable_reply (lookup_str (Data s) ''envZID'')) h'" for h' s r
    using that assms by (auto simp: env_guard_defs allowed_base_def)
  have known: "enabled_end base (Some e, env) (h @ es)" for e es
    using states_mono [OF assms(3)] by (rule enabled_end_error)
  have patch: "gwp (env_guard cfg base) (PatchEnvStatus A env (enabled_mutation zid u) \<bind> (\<lambda>(err, env). case err of
        None \<Rightarrow> env_record env EventTypeNormal ''Enabled'' ''Enable'' msg \<bind> (\<lambda>_. ret (None, env))
      | Some e \<Rightarrow> ret (Some e, env))) (enabled_end base) (h @ es)"
    if "list_ex (enable_reply zid) es" "identity_in_place base (h @ es)" for zid u msg es
  proof (rule gwp_bind, rule env_zid_patch)
    show "zid_trusted base (h @ es) zid" using that(1) by (simp add: zid_trusted_def)
    fix x :: "go_error option \<times> ZrokEnvironment" and es'
    assume "shown_or EnvObj env (snd x) es'"
    then have "enabled_end base (y, snd x) (((h @ es) @ es') @ es'')" for y es''
      using states_shown [OF states_mono [OF assms(3), of es]] identity_in_place_mono [OF that(2), of "es' @ es''"]
      by (auto simp: enabled_end_def intro: states_mono [where h = "h @ es @ es'", simplified])
    from this [of _ "[]"] this show "gwp (env_guard cfg base) (case x of (err, env) \<Rightarrow> case err of
        None \<Rightarrow> env_record env EventTypeNormal ''Enabled'' ''Enable'' msg \<bind> (\<lambda>_. ret (None, env))
      | Some e \<Rightarrow> ret (Some e, env)) (enabled_end base) ((h @ es) @ es')"
      unfolding env_record_def
      by (cases x) (auto intro!: gwp_intros gwp_bind [OF gwp_emit] env_guard_calm)
  qed simp_all
  have stored: "gwp (env_guard cfg base) (k8s_create SecretObj (apiSecrets A) secret \<bind> (\<lambda>(err, uu). case err of
        None \<Rightarrow> PatchEnvStatus A env (enabled_mutation zid u) \<bind> (\<lambda>(err, env). case err of
          None \<Rightarrow> env_record env EventTypeNormal ''Enabled'' ''Enable''
              (''enabled remote environment '' @ zid) \<bind> (\<lambda>_. ret (None, env))
        | Some e \<Rightarrow> ret (Some e, env))
      | Some e \<Rightarrow> REST_Disable A ep token zid \<bind> (\<lambda>_. ret (Some e, env)))) (enabled_end base) (h @ es)"
    if s: "SetControllerReference A env (identity_secret env zid token ep c) = Inr secret"
      and r: "list_ex (enable_reply zid) es" for secret zid u c es
    unfolding k8s_create_def
  proof (intro gwp_bind gwp_perform store)
    show "list_ex (enable_reply (lookup_str (Data secret) ''envZID'')) (h @ es)"
      using r identity_secret_zid [OF s] by simp
    fix r' :: "go_error + Secret"
    let ?e = "Create (SecretObj secret) (map_sum id SecretObj r')"
    have "identity_in_place base (h @ es @ [?e])" if "r' = Inr s'" for s'
      using created_in_place [OF s, of "h @ es @ [?e]" "SecretObj s'"] r that by simp
    then show "gwp (env_guard cfg base) (ret (sent secret r')) (\<lambda>x. gwp (env_guard cfg base) (case x of (err, uu) \<Rightarrow> case err of
        None \<Rightarrow> PatchEnvStatus A env (enabled_mutation zid u) \<bind> (\<lambda>(err, env). case err of
          None \<Rightarrow> env_record env EventTypeNormal ''Enabled'' ''Enable''
              (''enabled remote environment '' @ zid) \<bind> (\<lambda>_. ret (None, env))
        | Some e \<Rightarrow> ret (Some e, env))
      | Some e \<Rightarrow> REST_Disable A ep token zid \<bind> (\<lambda>_. ret (Some e, env))) (enabled_end base))
      ((h @ es) @ [?e])"
      using patch [of zid "es @ [?e]" u] r known [of _ "es @ ?e # _"] unfolding REST_Disable_def
      by (cases r') (auto intro!: gwp_intros gwp_bind [OF gwp_perform] env_guard_calm)
  qed
  show ?thesis
    unfolding enable_environment_def
  proof (rule gwp_bind, rule gwp_emits [OF resolveUniqueID_emits])
    show "gwp (env_guard cfg base) (case u of
        Inl e \<Rightarrow> ret (Some e, env)
      | Inr uniqueID \<Rightarrow>
          REST_Enable A ep token (EnvironmentHost env uniqueID) (EnvironmentDescription env uniqueID) \<bind>
          (\<lambda>r. case r of Inl e \<Rightarrow> ret (Some e, env)
            | Inr (zid, cfg) \<Rightarrow> (case SetControllerReference A env (identity_secret env zid token ep cfg) of
                Inl e \<Rightarrow> ret (Some e, env)
              | Inr secret \<Rightarrow> k8s_create SecretObj (apiSecrets A) secret \<bind> (\<lambda>(err, uu). case err of
                  None \<Rightarrow> PatchEnvStatus A env (enabled_mutation zid uniqueID) \<bind> (\<lambda>(err, env). case err of
                    None \<Rightarrow> env_record env EventTypeNormal ''Enabled'' ''Enable''
                        (''enabled remote environment '' @ zid) \<bind> (\<lambda>_. ret (None, env))
                  | Some e \<Rightarrow> ret (Some e, env))
                | Some e \<Rightarrow> REST_Disable A ep token zid \<bind> (\<lambda>_. ret (Some e, env))))))
        (enabled_end base) (h @ es)" for u es
      unfolding REST_Enable_def
      by (auto intro!: gwp_intros gwp_bind [OF gwp_perform] enable known stored split: prod.split)
  qed (auto intro: env_guard_calm)
qed

lemma ensureEnabled_guard:
  assumes "allowed_base cfg env"
  shows "gwp (env_guard cfg env) (ensureEnabled A env token) (enabled_end env) h"
proof -
  let ?get = "Get KSecret (Namespace env, IdentitySecretName env)"
  have drop: "gwp (env_guard cfg env) (PatchEnvStatus A env (set_zid_mutation []) \<bind>
        (\<lambda>(_, e). enable_environment A e token ep)) (enabled_end env) h'" if "identity_missing env h'" for ep h'
  proof (rule gwp_bind, rule gwp_yields [OF PatchStatus_yields [OF env_total(2)]])
    show "patch_event KEnv EnvObj (set_zid_mutation []) e \<Longrightarrow> env_guard cfg env (h' @ es) e" for es e
      by (rule env_guard_calm) (auto simp: patch_event_def)
    show "gwp (env_guard cfg env) (case x of (_, e) \<Rightarrow> enable_environment A e token ep) (enabled_end env) (h' @ es)"
      if "shown_or EnvObj env (snd x) es" for x :: "go_error option \<times> ZrokEnvironment" and es
      using \<open>identity_missing env h'\<close> assms that
      by (cases x)
         (auto intro!: enable_environment_guard states_shown [OF states_self] simp: identity_missing_def)
  qed
  have missing: "identity_missing env (h @ [?get (Inl e)])" if "IsNotFound e" for e
    using that by (auto simp: identity_missing_def)
  show ?thesis
    unfolding ensureEnabled_def Let_def k8s_get_def
    using assms missing drop [OF missing]
    by (intro gwp_bind [OF gwp_perform] gwp_case_sum gwp_if)
       (auto intro!: env_guard_calm gwp_return adoptIdentitySecret_guard enable_environment_guard enabled_end_error)
qed

lemma env_ensure_agent_guard:
  assumes "allowed_base cfg base" and "identity_in_place base h" and "env \<in> states EnvObj base h"
  shows "gwp (env_guard cfg base) (env_ensure_agent A cfg env) any_end h"
proof -
  let ?P = "\<lambda>h. identity_in_place base h \<and> env \<in> states EnvObj base h"
  have step: "gwp (env_guard cfg base) (env_step A env m rsn rest) any_end h"
    if "?P h" and "emits (object_event env) m" and "\<And>h. ?P h \<Longrightarrow> gwp (env_guard cfg base) rest any_end h"
    for m rsn rest h
  proof -
    have ext: "?P (h @ es)" for es
      using identity_in_place_mono [of base h es] states_mono [of env EnvObj base h es] that(1) by auto
    show ?thesis
      unfolding env_step_def
      by (rule gwp_bind, rule gwp_emits [OF that(2)])
         (use that(3) [OF ext] assms(1) ext in
           \<open>auto intro!: gwp_case_option env_error emits_intros object_event_guard\<close>)
  qed
  show ?thesis
    unfolding env_ensure_agent_def using assms(2,3)
    by (intro step ensure_objects_emit env_readiness_guard) auto
qed

lemma ValidateImage_None: "ValidateImage img allowed = None \<longleftrightarrow> ImageAllowed img allowed"
  by (simp add: ValidateImage_def)

lemma env_readEnableToken_emits [emits_intros]: "emits env_calm (env_readEnableToken A env)"
  unfolding env_readEnableToken_def call_defs Let_def by (intro emits_intros) simp_all

lemma env_live_guard: "gwp (env_guard cfg env) (env_live A cfg env) any_end h"
proof -
  have enabled: "gwp (env_guard cfg env) (ensureEnabled A env token \<bind> (\<lambda>(err, env). case err of
        Some e \<Rightarrow>
          if IsEndpointNotAllowed e
          then env_setNotReady A env ''EndpointNotAllowed'' (Error e) \<bind> (\<lambda>_. ret (requeue_after 120, None))
          else env_setNotReady A env ''EnableError'' (Error e) \<bind> (\<lambda>env. emit EnvironmentReconcileErrors_Inc \<bind>
            (\<lambda>_. env_record env EventTypeWarning ''EnableError'' ''Error'' (Error e) \<bind>
            (\<lambda>_. ret (no_requeue, Some e))))
      | None \<Rightarrow> env_ensure_agent A cfg env)) any_end h'"
    if "allowed_base cfg env" for token h'
    by (rule gwp_bind, rule gwp_conseq [OF ensureEnabled_guard [OF that]])
       (auto intro!: gwp_intros env_error env_error' emits_intros env_ensure_agent_guard [OF that]
         simp: enabled_end_def split: prod.split)
  show ?thesis
    unfolding env_live_def
  proof (intro gwp_if)
    show "gwp (env_guard cfg env) (k8s_update EnvObj (apiEnvs A) (AddFinalizer env EnvironmentFinalizer) \<bind>
        (\<lambda>(err, uu). ret (no_requeue, err))) any_end h"
      unfolding call_defs by (intro env_tail emits_intros) simp_all
  next
    show "gwp (env_guard cfg env) (env_readEnableToken A env \<bind> (\<lambda>r. case r of
        Inl e \<Rightarrow> env_setNotReady A env ''SecretError'' (Error e) \<bind> (\<lambda>env. emit EnvironmentReconcileErrors_Inc \<bind>
          (\<lambda>_. env_record env EventTypeWarning ''SecretError'' ''Error'' (Error e) \<bind> (\<lambda>_. ret (no_requeue, Some e))))
      | Inr token \<Rightarrow> (case ValidateImage (agImage (enAgent (EnvSpec env))) (AllowedAgentImages cfg) of
          Some e \<Rightarrow> env_setNotReady A env ''ImageNotAllowed'' (Error e) \<bind> (\<lambda>_. ret (requeue_after 120, None))
        | None \<Rightarrow> ensureEnabled A env token \<bind> (\<lambda>(err, env). case err of
            Some e \<Rightarrow>
              if IsEndpointNotAllowed e
              then env_setNotReady A env ''EndpointNotAllowed'' (Error e) \<bind> (\<lambda>_. ret (requeue_after 120, None))
              else env_setNotReady A env ''EnableError'' (Error e) \<bind> (\<lambda>env. emit EnvironmentReconcileErrors_Inc \<bind>
                (\<lambda>_. env_record env EventTypeWarning ''EnableError'' ''Error'' (Error e) \<bind>
                (\<lambda>_. ret (no_requeue, Some e))))
          | None \<Rightarrow> env_ensure_agent A cfg env)))) any_end h"
      by (rule gwp_seq [OF env_tail [OF env_readEnableToken_emits]])
         (auto intro!: gwp_case_sum gwp_case_option env_error env_error' emits_intros enabled
            simp: ValidateImage_None allowed_base_def)
  qed
qed

section \<open>Properties\<close>

lemma env_live_guarded: "guarded (env_guard cfg env) (trace_of (env_live A cfg env))"
  by (rule gwp_trace [OF env_live_guard])

text \<open>C5: An identity Secret that was planted is never used. The status takes its identity only from
  a Secret that this environment controls or from an Enable of the same reconcile. The agent's
  objects are created or changed, and the agent is called, only when the identity Secret was
  read, is controlled by this environment and holds an identity that the status does not
  contradict, or was created in this reconcile with what an Enable returned. A Secret is created
  with nothing else, and an Enable is sent only if the identity Secret was found missing.\<close>

theorem env_identity_is_trusted:
  "guarded (identity_ok env) (trace_of (env_live A cfg env))"
  using env_live_guarded by (rule guarded_mono) (simp add: env_guard_def)


text \<open>C29: Unless the agent image of the environment that was read is the default one or on the
  allowlist, a reconcile enables nothing and creates or changes no object other than the
  environment itself. Every image in a Deployment it writes is that of the proxy, or allowed, or
  that of a state of the environment which came up later in the same reconcile: a report on the
  status reads the environment again, and its image is not checked a second time.\<close>

theorem env_writes_only_for_allowed_image:
  "guarded (image_ok cfg env) (trace_of (env_live A cfg env))"
  using env_live_guarded by (rule guarded_mono) (simp add: env_guard_def)

end
