(* ===== verification/Lab.thy ===== *)
theory Lab
  imports World
begin

text \<open>
  A concrete world in which the witnesses run the handlers: objects are found by name in
  fixed lists, updates and patches are accepted, creations are refused, and the zrok
  controller and the agent answer.
\<close>

definition lab_missing :: go_error where
  "lab_missing = GoError NotFound ''not found''"

definition lab_client :: "'o ObjectMeta_scheme list \<Rightarrow> 'o ObjectMeta_scheme client" where
  "lab_client objs =
     \<lparr>cGet = (\<lambda>h k. case List.find (\<lambda>x. Namespace x = fst k \<and> Name x = snd k) objs of
                      Some x \<Rightarrow> Inr x | None \<Rightarrow> Inl lab_missing),
      cCreate = (\<lambda>h x. Inl (errorf ''quota exceeded'')),
      cUpdate = (\<lambda>h x. Inr x),
      cPatch = (\<lambda>h b x. Inr x),
      cStatusPatch = (\<lambda>h b x. Inr x),
      cDelete = (\<lambda>h k. None)\<rparr>"

definition lab :: "ZrokShare list \<Rightarrow> ZrokEnvironment list \<Rightarrow> Secret list \<Rightarrow> ObjectMeta list \<Rightarrow>
    StatusResponse \<Rightarrow> RemoteShare list \<Rightarrow> api" where
  "lab shares envs secrets nss agent remotes =
     \<lparr>now = (\<lambda>h n. 0), retrySteps = 4, setRefErr = (\<lambda>owner obj. None),
      apiShares = lab_client shares, apiEnvs = lab_client envs, apiAccesses = lab_client [],
      apiIngresses = lab_client [], apiSecrets = lab_client secrets, apiPVCs = lab_client [],
      apiServices = lab_client [], apiDeployments = lab_client [], apiNetworkPolicies = lab_client [],
      apiNamespaces = lab_client nss,
      apiListShares = (\<lambda>h sel. Inr shares), apiListAccesses = (\<lambda>h sel. Inr []),
      restEnable = (\<lambda>h ep tok hst desc. Inr (''zid'', ''cfg'')),
      restDisable = (\<lambda>h ep tok zid. None),
      restCreateShareName = (\<lambda>h ep tok ns n. None),
      restUpdateShareName = (\<lambda>h ep tok ns n reserved. None),
      restDeleteShareName = (\<lambda>h ep tok ns n. None),
      restUnshare = (\<lambda>h ep tok zid shr. None),
      restListShares = (\<lambda>h ep tok zid. Inr (Some remotes)),
      agentStatus = (\<lambda>h addr. Inr (Some agent)),
      agentSharePublic = (\<lambda>h addr req. Inr \<lparr>sprToken = ''tok'', sprFrontendEndpoints = []\<rparr>),
      agentSharePrivate = (\<lambda>h addr req. Inr ''tok''),
      agentReleaseShare = (\<lambda>h addr tok. None),
      agentAccessPrivate = (\<lambda>h addr tok bnd. Inr ''front''),
      agentReleaseAccess = (\<lambda>h addr tok. None)\<rparr>"

definition lab_meta :: "string \<Rightarrow> string \<Rightarrow> ObjectMeta" where
  "lab_meta ns n =
     \<lparr>Name = n, Namespace = ns, UID = n, Generation = 1, DeletionTimestamp = None, Finalizers = {},
      Labels = Map.empty, Annotations = Map.empty, ControllerRef = None\<rparr>"

definition lab_secret :: "string \<Rightarrow> string \<Rightarrow> (string \<rightharpoonup> string) \<Rightarrow> Secret" where
  "lab_secret ns n d = ObjectMeta.extend (lab_meta ns n) (Secret.fields d)"

definition lab_env :: ZrokEnvironment where
  \<comment> \<open>a fresh environment \<open>prod/main\<close> with its finalizer and enable token\<close>
  "lab_env = zero_env\<lparr>Name := ''main'', Namespace := ''prod'', UID := ''u1'', Generation := 1,
     Finalizers := {EnvironmentFinalizer},
     EnvSpec := (EnvSpec zero_env)\<lparr>enEnableTokenSecretRef := \<lparr>skName = ''token'', skKey = []\<rparr>,
        enUniqueID := ''c1''\<rparr>\<rparr>"

lemmas lab_simps =
  lab_def lab_client_def lab_missing_def lab_meta_def lab_secret_def lab_env_def zero_env_def
  ObjectMeta.defs Secret.defs object_key_def ContainsFinalizer_def SetControllerReference_def
  PatchStatus_def patch_attempt_def numeral_eq_Suc sent_def call_defs run_simps
  IsNotFound_def IsEndpointNotAllowed_def IsConflict_def errorf_def Let_def trace_of_def result_of_def

end
