(* ===== verification/EnvRemote.thy ===== *)
theory EnvRemote
  imports EnvSafety Lab
begin

text \<open>
  The fate of the remote environments: what becomes of one that a reconcile enables, and what
  has to happen before a ZrokEnvironment is let go.
\<close>

section \<open>No environment is enabled and forgotten\<close>

fun stores_identity :: "string \<Rightarrow> event \<Rightarrow> bool" where
  \<comment> \<open>a Secret that holds the identity was created\<close>
  "stores_identity zid (Create (SecretObj s) (Inr r)) = (lookup_str (Data s) ''envZID'' = zid)"
| "stores_identity zid e = False"

fun disables :: "string \<Rightarrow> string \<Rightarrow> string \<Rightarrow> event \<Rightarrow> bool" where
  "disables ep tok zid (RestDisable ep' tok' zid' r) = (ep' = ep \<and> tok' = tok \<and> zid' = zid)"
| "disables ep tok zid e = False"

definition reference_refused ::
  "api \<Rightarrow> string \<Rightarrow> string \<Rightarrow> string \<Rightarrow> string \<Rightarrow> string \<Rightarrow> string \<Rightarrow> bool" where
  \<comment> \<open>the identity Secret cannot be given to the environment that was enabled\<close>
  "reference_refused A ep tok hst desc zid cfg \<longleftrightarrow>
     (\<exists>owner u e. hst = EnvironmentHost owner u \<and> desc = EnvironmentDescription owner u
        \<and> SetControllerReference A owner (identity_secret owner zid tok ep cfg) = Inl e)"

fun accounted :: "api \<Rightarrow> event list \<Rightarrow> event \<Rightarrow> bool" where
  \<comment> \<open>an environment that was enabled is stored, or its disabling is asked for; if its Secret can be
     given no owner, neither is promised\<close>
  "accounted A h (RestEnable ep tok hst desc (Inr (zid, cfg))) =
     (list_ex (stores_identity zid) h \<or> list_ex (disables ep tok zid) h
      \<or> reference_refused A ep tok hst desc zid cfg)"
| "accounted A h e = True"

definition orphan_free :: "api \<Rightarrow> event list \<Rightarrow> bool" where
  "orphan_free A h \<longleftrightarrow> list_all (accounted A h) h"

definition tidy :: "api \<Rightarrow> 'a op \<Rightarrow> bool" where
  "tidy A m \<longleftrightarrow> yields (\<lambda>_. True) (\<lambda>_. orphan_free A) m"

lemma accounted_mono: "accounted A h e \<Longrightarrow> accounted A (h @ h') e \<and> accounted A (h' @ h) e"
  by (induction A h e rule: accounted.induct) auto

lemma orphan_free_append: "orphan_free A h \<Longrightarrow> orphan_free A h' \<Longrightarrow> orphan_free A (h @ h')"
  using accounted_mono by (auto simp: orphan_free_def list_all_iff)

lemma tidy_after:
  "orphan_free A es \<Longrightarrow> tidy A m \<Longrightarrow> yields (\<lambda>_. True) (\<lambda>_ es'. orphan_free A (es @ es')) m"
  unfolding tidy_def by (erule yields_conseq) (auto intro: orphan_free_append)

lemma tidy_bind: "tidy A m \<Longrightarrow> (\<And>x. tidy A (f x)) \<Longrightarrow> tidy A (m \<bind> f)"
  unfolding tidy_def by (erule yields_bind) (rule tidy_after, simp_all add: tidy_def)

fun no_enable :: "event \<Rightarrow> bool" where
  "no_enable (RestEnable ep tok hst desc (Inr z)) = False"
| "no_enable e = True"

lemma no_enable_accounted: "no_enable e \<Longrightarrow> accounted A h e"
  by (induction A h e rule: accounted.induct) auto

lemma tidy_emits: "emits no_enable m \<Longrightarrow> tidy A m"
  unfolding tidy_def emits_def
  by (erule yields_conseq) (auto simp: orphan_free_def list_all_iff no_enable_accounted)

lemma env_calm_no_enable: "env_calm e \<Longrightarrow> no_enable e"
  by (cases e) auto

lemma tidy_calm: "emits env_calm m \<Longrightarrow> tidy A m"
  by (rule tidy_emits, erule emits_mono, rule env_calm_no_enable)

lemma tidy_return: "tidy A (ret x)"
  by (rule tidy_calm) (rule emits_return)

lemmas tidy_cases =
  yields_if [where E = "\<lambda>_. True" and R = "\<lambda>_. orphan_free A", folded tidy_def]
  yields_case_option [where E = "\<lambda>_. True" and R = "\<lambda>_. orphan_free A", folded tidy_def]
  yields_case_sum [where E = "\<lambda>_. True" and R = "\<lambda>_. orphan_free A", folded tidy_def]
  yields_case_prod [where E = "\<lambda>_. True" and R = "\<lambda>_. orphan_free A", folded tidy_def]
  for A :: api

lemma enable_environment_tidy: "tidy A (enable_environment A env token ep)"
proof -
  have store: "yields (\<lambda>_. True)
      (\<lambda>_ es. orphan_free A (RestEnable ep token hst desc (Inr (zid, cfg)) # es))
      (k8s_create SecretObj (apiSecrets A) s \<bind> (\<lambda>(err, uu). case err of
         None \<Rightarrow> m | Some e \<Rightarrow> REST_Disable A ep token zid \<bind> (\<lambda>_. ret (Some e, env))))"
    if z: "lookup_str (Data s) ''envZID'' = zid" and m: "tidy A m" for s zid hst desc cfg
      and m :: "(go_error option \<times> ZrokEnvironment) op"
    unfolding call_defs
  proof (rule yields_bind [where R = "\<lambda>x es. \<exists>r. x = sent s r \<and> es = [Create (SecretObj s) (map_sum id SecretObj r)]"])
    fix x :: "go_error option \<times> Secret" and es
    assume "\<exists>r. x = sent s r \<and> es = [Create (SecretObj s) (map_sum id SecretObj r)]"
    then obtain r where r: "x = sent s r" "es = [Create (SecretObj s) (map_sum id SecretObj r)]" by blast
    show "yields (\<lambda>_. True)
        (\<lambda>_ es'. orphan_free A (RestEnable ep token hst desc (Inr (zid, cfg)) # es @ es'))
        (case x of (err, uu) \<Rightarrow> (case err of None \<Rightarrow> m
          | Some e \<Rightarrow> perform (\<lambda>h. restDisable A h ep token zid) (RestDisable ep token zid) \<bind>
              (\<lambda>_. ret (Some e, env))))"
    proof (cases r)
      case (Inl e)
      then show ?thesis using r
        by (auto intro!: yields_bind [OF yields_perform [where R = "\<lambda>_ es. \<exists>r. es = [RestDisable ep token zid r]"]]
             yields_return simp: orphan_free_def)
    next
      case (Inr s')
      then have "orphan_free A (RestEnable ep token hst desc (Inr (zid, cfg)) # es)"
        using r z by (simp add: orphan_free_def)
      from tidy_after [OF this m] show ?thesis using Inr r by simp
    qed
  qed (auto intro!: yields_bind [OF yields_perform] yields_return simp: yields_def)
  have finish: "tidy A (PatchEnvStatus A env (enabled_mutation zid u) \<bind> (\<lambda>(err, env). case err of
      None \<Rightarrow> env_record env EventTypeNormal ''Enabled'' ''Enable'' msg \<bind> (\<lambda>_. ret (None, env))
    | Some e \<Rightarrow> ret (Some e, env)))" for zid u msg
    by (intro tidy_emits emits_intros PatchStatus_emits env_total emits_mono [OF env_record_emits])
       (auto simp: patch_event_def env_calm_no_enable)
  have rest: "tidy A (REST_Enable A ep token (EnvironmentHost env u) (EnvironmentDescription env u) \<bind> (\<lambda>r. case r of
      Inl e \<Rightarrow> ret (Some e, env)
    | Inr (zid, cfg) \<Rightarrow> (case SetControllerReference A env (identity_secret env zid token ep cfg) of
        Inl e \<Rightarrow> ret (Some e, env)
      | Inr secret \<Rightarrow> k8s_create SecretObj (apiSecrets A) secret \<bind> (\<lambda>(err, uu). case err of
          None \<Rightarrow> PatchEnvStatus A env (enabled_mutation zid u) \<bind> (\<lambda>(err, env). case err of
            None \<Rightarrow> env_record env EventTypeNormal ''Enabled'' ''Enable''
                (''enabled remote environment '' @ zid) \<bind> (\<lambda>_. ret (None, env))
          | Some e \<Rightarrow> ret (Some e, env))
        | Some e \<Rightarrow> REST_Disable A ep token zid \<bind> (\<lambda>_. ret (Some e, env))))))" for u
    unfolding REST_Enable_def tidy_def
  proof (rule yields_bind [OF yields_perform [where
        R = "\<lambda>r es. es = [RestEnable ep token (EnvironmentHost env u) (EnvironmentDescription env u) r]"]])
    fix r :: "go_error + string \<times> string" and es
    assume es: "es = [RestEnable ep token (EnvironmentHost env u) (EnvironmentDescription env u) r]"
    show "yields (\<lambda>_. True) (\<lambda>y es'. orphan_free A (es @ es')) (case r of
      Inl e \<Rightarrow> ret (Some e, env)
    | Inr (zid, cfg) \<Rightarrow> (case SetControllerReference A env (identity_secret env zid token ep cfg) of
        Inl e \<Rightarrow> ret (Some e, env)
      | Inr secret \<Rightarrow> k8s_create SecretObj (apiSecrets A) secret \<bind> (\<lambda>(err, uu). case err of
          None \<Rightarrow> PatchEnvStatus A env (enabled_mutation zid u) \<bind> (\<lambda>(err, env). case err of
            None \<Rightarrow> env_record env EventTypeNormal ''Enabled'' ''Enable''
                (''enabled remote environment '' @ zid) \<bind> (\<lambda>_. ret (None, env))
          | Some e \<Rightarrow> ret (Some e, env))
        | Some e \<Rightarrow> REST_Disable A ep token zid \<bind> (\<lambda>_. ret (Some e, env)))))"
    proof (cases r)
      case (Inl e)
      then show ?thesis using es by (auto intro!: yields_return simp: orphan_free_def)
    next
      case (Inr p)
      obtain zid cfg where p: "p = (zid, cfg)" by fastforce
      show ?thesis
      proof (cases "SetControllerReference A env (identity_secret env zid token ep cfg)")
        case (Inl e)
        then have "orphan_free A es"
          using \<open>r = Inr p\<close> p es by (auto simp: orphan_free_def reference_refused_def)
        then show ?thesis using Inl \<open>r = Inr p\<close> p by (auto intro: yields_return)
      next
        case (Inr s)
        then show ?thesis
          using store [OF identity_secret_zid [OF Inr] finish] \<open>r = Inr p\<close> p es by simp
      qed
    qed
  qed simp_all
  show ?thesis
    unfolding enable_environment_def
    by (intro tidy_bind [OF tidy_calm [OF resolveUniqueID_emits]])
       (auto split: sum.split intro!: tidy_return rest)
qed

lemma adoptIdentitySecret_tidy: "tidy A (adoptIdentitySecret A env s)"
  unfolding adoptIdentitySecret_def Let_def
  by (intro tidy_emits emits_intros PatchStatus_emits env_total emits_mono [OF drop_secret_emits])
     (auto simp: patch_event_def env_calm_no_enable)

lemma tidy_get: "tidy A (k8s_get kd wrap c k)"
  unfolding k8s_get_def by (intro tidy_calm emits_intros) simp

lemma tidy_patch: "emits env_calm (PatchEnvStatus A env m) \<Longrightarrow> tidy A (PatchEnvStatus A env m)"
  by (rule tidy_calm)

lemma ensureEnabled_tidy: "tidy A (ensureEnabled A env token)"
  unfolding ensureEnabled_def Let_def
  by (intro tidy_bind tidy_cases tidy_get tidy_return adoptIdentitySecret_tidy enable_environment_tidy
      tidy_calm [OF env_patch_emits]) simp_all

lemma object_event_no_enable: "object_event env e \<Longrightarrow> no_enable e"
  by (cases e) auto

lemma env_ready_no_enable: "emits no_enable (PatchEnvStatus A env (env_ready_mutation service))"
  by (rule PatchStatus_emits) (auto simp: patch_event_def)

lemma env_readiness_tidy: "tidy A (env_readiness A env)"
  unfolding env_readiness_def Let_def Agent_Status_def
  by (intro tidy_bind tidy_cases tidy_return tidy_calm [OF env_setNotReady_emits]
      tidy_calm [OF env_record_emits] tidy_emits [OF env_ready_no_enable]
      tidy_calm [OF env_not_yet_emits] env_patch_emits tidy_calm [OF emits_emit] tidy_emits [OF emits_perform]
      tidy_calm [OF emits_yields [OF isAgentReady_yields]]) simp_all

lemma env_step_tidy: "emits (object_event env) m \<Longrightarrow> tidy A rest \<Longrightarrow> tidy A (env_step A env m rsn rest)"
  unfolding env_step_def
  by (intro tidy_bind tidy_cases tidy_return tidy_calm [OF env_setNotReady_emits] tidy_calm [OF emits_emit])
     (auto intro!: tidy_emits elim!: emits_mono simp: object_event_no_enable)

lemma env_live_tidy: "tidy A (env_live A cfg env)"
  unfolding env_live_def env_ensure_agent_def k8s_update_def
  by (intro tidy_bind tidy_cases tidy_return tidy_calm [OF env_setNotReady_emits]
      tidy_calm [OF env_record_emits] tidy_calm [OF env_readEnableToken_emits] ensureEnabled_tidy
      env_step_tidy ensure_objects_emit env_readiness_tidy tidy_calm [OF emits_emit]
      tidy_calm [OF emits_perform]) (auto intro!: tidy_calm emits_intros)

section \<open>Letting an environment go\<close>

definition unshared :: "ZrokEnvironment \<Rightarrow> event list \<Rightarrow> bool" where
  \<comment> \<open>the shares of the namespace were listed and none of them keeps the environment\<close>
  "unshared env h \<longleftrightarrow>
     (\<exists>items. ListZrokShares (InNamespace (Namespace env)) (Inr items) \<in> set h
        \<and> list_all (\<lambda>s. \<not> blocking_share env s) items)"

definition disabled_or_kept :: "ZrokEnvironment \<Rightarrow> event list \<Rightarrow> bool" where
  \<comment> \<open>the remote environment is gone, was never there, or is to be retained\<close>
  "disabled_or_kept env h \<longleftrightarrow>
     enReclaimPolicy (EnvSpec env) = ReclaimRetain \<or> enEnvZID (EnvStatus env) = []
     \<or> (\<exists>ep tok. RestDisable ep tok (enEnvZID (EnvStatus env)) None \<in> set h)"

definition torn_down :: "ZrokEnvironment \<Rightarrow> event list \<Rightarrow> bool" where
  \<comment> \<open>the objects of the agent were asked to be deleted, the volume unless it is retained\<close>
  "torn_down env h \<longleftrightarrow>
     (\<forall>(kd, n) \<in> {(KDeployment, DeploymentName env), (KService, ServiceName env),
         (KNetworkPolicy, NetworkPolicyName env), (KSecret, IdentitySecretName env)}.
        \<exists>r. Delete kd (Namespace env, n) r \<in> set h)
     \<and> (enReclaimPolicy (EnvSpec env) \<noteq> ReclaimRetain \<longrightarrow>
          (\<exists>r. Delete KPVC (Namespace env, PVCName env) r \<in> set h))"

definition agent_object :: "ZrokEnvironment \<Rightarrow> okind \<Rightarrow> key \<Rightarrow> bool" where
  "agent_object env kd k \<longleftrightarrow>
     fst k = Namespace env \<and>
     ((kd, snd k) \<in> {(KDeployment, DeploymentName env), (KService, ServiceName env),
         (KNetworkPolicy, NetworkPolicyName env), (KSecret, IdentitySecretName env)}
      \<or> kd = KPVC \<and> snd k = PVCName env \<and> enReclaimPolicy (EnvSpec env) \<noteq> ReclaimRetain)"

fun let_go_ok :: "ZrokEnvironment \<Rightarrow> event list \<Rightarrow> event \<Rightarrow> bool" where
  "let_go_ok env h (RestDisable ep tok zid r) =
     (unshared env h \<and> ep = env_apiEndpoint env \<and> zid = enEnvZID (EnvStatus env)
      \<and> enReclaimPolicy (EnvSpec env) \<noteq> ReclaimRetain)"
| "let_go_ok env h (Delete kd k r) = (unshared env h \<and> disabled_or_kept env h \<and> agent_object env kd k)"
| "let_go_ok env h (Update obj r) =
     (obj = EnvObj (RemoveFinalizer env EnvironmentFinalizer) \<and> unshared env h \<and> disabled_or_kept env h
      \<and> torn_down env h)"
| "let_go_ok env h (StatusPatch before obj r) = (\<forall>a. obj = EnvObj a \<longrightarrow> \<not> env_is_ready a)"
| "let_go_ok env h (RestEnable ep tok hst desc r) = False"
| "let_go_ok env h (Create obj r) = False"
| "let_go_ok env h e = True"

fun delete_calm :: "event \<Rightarrow> bool" where
  "delete_calm (Get kd k r) = True"
| "delete_calm (Recorded kd k ty rsn action msg) = True"
| "delete_calm (SetEnvironmentReady ns n b) = True"
| "delete_calm (DeleteEnvironmentReady ns n) = True"
| "delete_calm (StatusPatch before obj r) = (\<forall>a. obj = EnvObj a \<longrightarrow> \<not> env_is_ready a)"
| "delete_calm e = False"

lemma delete_calm_ok: "delete_calm e \<Longrightarrow> let_go_ok env h e"
  by (cases e) auto

lemma delete_tail: "emits delete_calm m \<Longrightarrow> gwp (let_go_ok env) m any_end h"
  by (erule gwp_emits) (auto intro: delete_calm_ok)

lemma unshared_mono: "unshared env h \<Longrightarrow> unshared env (h @ es)"
  by (auto simp: unshared_def)

lemma disabled_or_kept_mono: "disabled_or_kept env h \<Longrightarrow> disabled_or_kept env (h @ es)"
  by (auto simp: disabled_or_kept_def)

lemma env_teardown_guard:
  assumes "unshared env h" and "disabled_or_kept env h"
  shows "gwp (let_go_ok env) (env_teardown A env) any_end h"
  unfolding env_teardown_def call_defs using assms
  by (auto intro!: gwp_intros gwp_bind [OF gwp_perform] gwp_bind gwp_perform
      simp: agent_object_def torn_down_def unshared_mono disabled_or_kept_mono split: prod.split)

lemma env_disable_guard:
  assumes "unshared env h"
  shows "gwp (let_go_ok env) (env_disable A env) any_end h"
proof -
  let ?zid = "enEnvZID (EnvStatus env)"
  have read: "emits delete_calm (env_readEnableToken A env)"
    unfolding env_readEnableToken_def call_defs Let_def by (intro emits_intros) simp_all
  have gone: "gwp (let_go_ok env) (env_teardown A env) any_end
      (h @ es @ [RestDisable ep tok ?zid None, Recorded kd k ty rsn action msg])"
    for es ep tok kd k ty rsn action msg
    using unshared_mono [OF assms]
    by (intro env_teardown_guard) (auto simp: disabled_or_kept_def)
  show ?thesis
  proof (cases "enReclaimPolicy (EnvSpec env) \<noteq> ReclaimRetain \<and> ?zid \<noteq> []")
    case True
    have cont: "gwp (let_go_ok env) (case r of
        Inl e \<Rightarrow> ret (no_requeue, Some e)
      | Inr token \<Rightarrow> REST_Disable A (env_apiEndpoint env) token ?zid \<bind> (\<lambda>err. case err of
          Some e \<Rightarrow> env_record env EventTypeWarning ''DisableError'' ''Error'' (Error e) \<bind>
            (\<lambda>_. ret (no_requeue, Some e))
        | None \<Rightarrow> env_record env EventTypeNormal ''Disabled'' ''Disable'' (''disabled remote environment '' @ ?zid) \<bind>
            (\<lambda>_. env_teardown A env))) any_end (h @ es)" for r :: "go_error + string" and es
      unfolding env_record_def REST_Disable_def using True unshared_mono [OF assms]
      by (auto intro!: gone gwp_intros gwp_bind [OF gwp_perform] gwp_bind [OF gwp_emit])
    show ?thesis
      unfolding env_disable_def Let_def if_P [OF True]
      by (intro gwp_bind [OF gwp_emits [OF read]] delete_calm_ok cont)
  next
    case False
    then have "disabled_or_kept env h" by (auto simp: disabled_or_kept_def)
    with assms show ?thesis
      unfolding env_disable_def Let_def if_not_P [OF False] by (rule env_teardown_guard)
  qed
qed

lemma env_delete_guard: "gwp (let_go_ok env) (env_reconcileDelete A env) any_end h"
proof -
  have patch: "emits delete_calm (PatchEnvStatus A env (shares_exist_mutation msg))" for msg
    by (rule PatchStatus_emits) (auto simp: patch_event_def)
  have free: "gwp (let_go_ok env) (env_disable A env) any_end
      (h @ [ListZrokShares (InNamespace (Namespace env)) r])"
    if "r = Inr items" "List.find (blocking_share env) items = None" for r items
    using that
    by (intro env_disable_guard) (auto simp: unshared_def find_None_iff_all list_all_iff)
  show ?thesis
    unfolding env_reconcileDelete_def Let_def call_defs env_record_def
    by (intro gwp_if gwp_bind [OF gwp_perform] gwp_case_sum gwp_case_option gwp_return TrueI free)
       (auto intro!: delete_tail emits_intros patch split: prod.split)
qed

section \<open>Properties\<close>

text \<open>C4: No environment is enabled and silently forgotten. For every identity that the zrok controller
  hands out during a reconcile, that reconcile creates the Secret that holds it or asks the
  controller to disable it again, whatever else fails. Nothing is promised in two cases: if the
  Secret can be given no owner, the reconcile returns without either; and the answer to the
  request to disable is not looked at, so a failure there leaves the environment enabled.\<close>

theorem enabled_environment_is_stored_or_disabled: "orphan_free A (trace_of (env_live A cfg env))"
proof -
  from env_live_tidy have "yields (\<lambda>_. True) (\<lambda>_. orphan_free A) (env_live A cfg env)"
    by (simp add: tidy_def)
  then obtain x es where "run_state (env_live A cfg env) [] = (x, [] @ es)" and "orphan_free A es"
    by (rule yieldsE)
  then show ?thesis by (simp add: trace_of_def)
qed

definition lab_config :: EnvConfig where
  "lab_config = \<lparr>ManagerNamespace = ''zrok'', ManagerAppName = ''zrok-operator'',
     AgentNetworkPolicy = False, AllowedAgentImages = []\<rparr>"

definition lab_fresh :: api where
  \<comment> \<open>the enable token exists, the identity Secret cannot be created\<close>
  "lab_fresh = lab [] [lab_env] [lab_secret ''prod'' ''token'' [DefaultEnableTokenKey \<mapsto> ''t0'']] []
     \<lparr>stShares = [], stAccesses = []\<rparr> []"

lemma enabled_environment_is_stored_or_disabled_witness:
  "orphan_free lab_fresh (trace_of (env_live lab_fresh lab_config lab_env))
   \<and> list_ex (\<lambda>e. \<not> no_enable e) (trace_of (env_live lab_fresh lab_config lab_env))"
proof
  show "orphan_free lab_fresh (trace_of (env_live lab_fresh lab_config lab_env))"
    by (rule enabled_environment_is_stored_or_disabled)
  show "list_ex (\<lambda>e. \<not> no_enable e) (trace_of (env_live lab_fresh lab_config lab_env))"
    by (simp add: lab_simps split_def IdentitySecretName_def lab_fresh_def lab_config_def env_live_def ensureEnabled_def
        enable_environment_def env_readEnableToken_def env_setNotReady_def env_record_def
        resolveUniqueID_def ValidateImage_def ImageAllowed_def env_not_ready_mutation_def)
qed

text \<open>C19: The deletion of a ZrokEnvironment touches only its own remote environment and objects, and
  in order. Nothing is deleted or disabled before a listing shows no share that uses the
  environment, except shares that are themselves being deleted. Unless the environment is retained
  or was never enabled, no object is deleted and the finalizer stays until the zrok controller has
  confirmed that the remote environment is disabled; a retained one is never disabled. The
  finalizer goes only after the Deployment, the Service, the network policy, the identity Secret
  and, unless retained, the volume were asked to be deleted (the answers are not looked at).\<close>

theorem env_deletion_is_ordered:
  "guarded (let_go_ok env) (trace_of (env_reconcileDelete A env))"
  by (rule gwp_trace [OF env_delete_guard])

end
