(* ===== verification/IngressReconcile.thy ===== *)
theory IngressReconcile
  imports World Conditions
begin

text \<open>
  \<open>internal/controller/ingress_controller.go\<close>: the reconciler that turns an Ingress of the
  class \<open>zrok\<close> into a ZrokShare, and copies the assigned URL back to the Ingress.

  \<open>controllerutil.CreateOrUpdate\<close> is taken by its documentation: it reads the object, applies
  the mutation to what was read (or to the object as it is when there is none), and creates
  or updates it; an unchanged object is not written.
\<close>

section \<open>Names\<close>

abbreviation IngressClassName :: string where "IngressClassName \<equiv> ''zrok''"
abbreviation annotationEnvironment :: string where
  "annotationEnvironment \<equiv> ''zrok.k8s.zrok.io/environment''"
abbreviation annotationName :: string where "annotationName \<equiv> ''zrok.k8s.zrok.io/name''"
abbreviation annotationNamespace :: string where
  "annotationNamespace \<equiv> ''zrok.k8s.zrok.io/namespace-token''"

fun cut_suffixes :: "string \<Rightarrow> string list \<Rightarrow> string" where
  \<comment> \<open>the loop over the suffixes: the first that fits is cut off\<close>
  "cut_suffixes raw [] = raw"
| "cut_suffixes raw (suf # sufs) =
     (case CutSuffix raw suf of Some before \<Rightarrow> before | None \<Rightarrow> cut_suffixes raw sufs)"

definition ingressReservedName :: "string \<Rightarrow> string" where
  "ingressReservedName raw0 =
     (let raw = TrimSpace (ToLower raw0) in
      if raw = [] then []
      else let raw = TrimPrefix raw ''https://'';
               raw = TrimPrefix raw ''http://'';
               raw = (case IndexByte raw (CHR ''/'') of Some i \<Rightarrow> take i raw | None \<Rightarrow> raw)
           in cut_suffixes raw [''.shares.zrok.io'', ''.share.zrok.io''])"

section \<open>The desired share\<close>

definition is_zrok_ingress :: "Ingress \<Rightarrow> bool" where
  "is_zrok_ingress ing \<longleftrightarrow> ingIngressClassName ing = Some IngressClassName"

definition ingress_env :: "Ingress \<Rightarrow> string" where
  "ingress_env ing =
     (let envName = lookup_str (Annotations ing) annotationEnvironment in
      if envName = [] then ''default'' else envName)"

definition ingress_backend :: "Ingress \<Rightarrow> crash + (string + IngressServiceBackend)" where
  \<comment> \<open>the backend of the first path of the first rule, or the message of the warning;
     \<open>rule.HTTP\<close> is dereferenced unchecked\<close>
  "ingress_backend ing =
     (case ingRules ing of
        [] \<Rightarrow> Inr (Inl ''no HTTP paths defined'')
      | rule # _ \<Rightarrow>
          (case ruleHTTP rule of
             None \<Rightarrow> Inl NilDereference
           | Some [] \<Rightarrow> Inr (Inl ''no HTTP paths defined'')
           | Some (path # _) \<Rightarrow>
               (case BackendService path of
                  None \<Rightarrow> Inr (Inl ''backend service required'')
                | Some svc \<Rightarrow>
                    if svcPortNumber svc = 0 then Inr (Inl ''numeric service port required'')
                    else Inr (Inr svc))))"

definition ingress_upstream :: "string \<Rightarrow> IngressServiceBackend \<Rightarrow> string" where
  "ingress_upstream namespace svc =
     ''http://'' @ svcName svc @ ''.'' @ namespace @ ''.svc:'' @ fmt_d (svcPortNumber svc)"

definition ingress_name :: "Ingress \<Rightarrow> string" where
  "ingress_name ing =
     (let name = lookup_str (Annotations ing) annotationName;
          host = (case ingRules ing of [] \<Rightarrow> [] | rule # _ \<Rightarrow> ruleHost rule)
      in ingressReservedName (if name = [] \<and> host \<noteq> [] then host else name))"

definition ingress_mutation :: "api \<Rightarrow> Ingress \<Rightarrow> string \<Rightarrow> ZrokShare \<Rightarrow> go_error + ZrokShare" where
  \<comment> \<open>the function given to \<open>CreateOrUpdate\<close>\<close>
  "ingress_mutation A ing upstream desired =
     (case SetControllerReference A ing desired of
        Inl e \<Rightarrow> Inl e
      | Inr desired \<Rightarrow>
          let desired = desired\<lparr>ShareSpec := (ShareSpec desired)\<lparr>
                shEnvironmentRef := ingress_env ing, shShareMode := ShareModePublic,
                shBackendMode := BackendModeProxy, shUpstreamURL := upstream,
                shReclaimPolicy := ReclaimDelete\<rparr>\<rparr>;
              name = ingress_name ing;
              nsToken = lookup_str (Annotations ing) annotationNamespace;
              nsToken = (if nsToken = [] then DefaultNamespaceToken else nsToken);
              desired = (if name \<noteq> []
                         then desired\<lparr>ShareSpec := (ShareSpec desired)\<lparr>
                                shNameSelection := Some \<lparr>nsNamespace = nsToken, nsName = name\<rparr>\<rparr>\<rparr>
                         else desired)
          in Inr (desired\<lparr>Labels := Labels desired ++ ShareLabels desired\<rparr>))"

section \<open>Reconcile\<close>

definition CreateOrUpdate ::
  "('o ObjectMeta_scheme \<Rightarrow> object) \<Rightarrow> okind \<Rightarrow> 'o ObjectMeta_scheme client \<Rightarrow> 'o ObjectMeta_scheme \<Rightarrow>
   ('o ObjectMeta_scheme \<Rightarrow> go_error + 'o ObjectMeta_scheme) \<Rightarrow> (go_error option) op"
where
  "CreateOrUpdate wrap kd c obj mutate =
     do {
       r \<leftarrow> k8s_get kd wrap c (object_key obj);
       case r of
         Inl e \<Rightarrow>
           if \<not> IsNotFound e then ret (Some e)
           else (case mutate obj of
                   Inl e \<Rightarrow> ret (Some e)
                 | Inr desired \<Rightarrow> do { (err, _) \<leftarrow> k8s_create wrap c desired; ret err })
       | Inr existing \<Rightarrow>
           (case mutate existing of
              Inl e \<Rightarrow> ret (Some e)
            | Inr desired \<Rightarrow>
                if desired = existing then ret None
                else do { (err, _) \<leftarrow> k8s_update wrap c desired; ret err }) }"

definition ingress_host_mutation :: "string \<Rightarrow> Ingress mutation" where
  "ingress_host_mutation host t ing = (None, ing\<lparr>ingLoadBalancer := [host]\<rparr>)"

definition ingress_status :: "api \<Rightarrow> Ingress \<Rightarrow> outcome op" where
  \<comment> \<open>from the second read of the share on\<close>
  "ingress_status A ing =
     do {
       r \<leftarrow> getShare A (Namespace ing, Name ing);
       case r of
         Inl e \<Rightarrow> ret (no_requeue, if IsNotFound e then None else Some e)
       | Inr share \<Rightarrow>
           let url = shAssignedURL (ShareStatus share);
               host = TrimPrefix (TrimPrefix url ''https://'') ''http://'' in
           if url = [] \<or> host \<in> set (ingLoadBalancer ing) then ret (no_requeue, None)
           else do { (err, _) \<leftarrow> PatchIngressStatus A ing (ingress_host_mutation host);
                     ret (no_requeue, err) } }"

definition ingress_live :: "api \<Rightarrow> Ingress \<Rightarrow> (crash + outcome) op" where
  "ingress_live A ing =
     (case ingress_backend ing of
        Inl crash \<Rightarrow> ret (Inl crash)
      | Inr (Inl msg) \<Rightarrow> do {
          emit (Recorded KIngress (object_key ing) EventTypeWarning ''InvalidIngress'' ''Error'' msg);
          ret (Inr (no_requeue, None)) }
      | Inr (Inr svc) \<Rightarrow> do {
          err \<leftarrow> CreateOrUpdate ShareObj KShare (apiShares A) (zero_share (Namespace ing) (Name ing))
                   (ingress_mutation A ing (ingress_upstream (Namespace ing) svc));
          case err of
            Some e \<Rightarrow> ret (Inr (no_requeue, Some e))
          | None \<Rightarrow> do { out \<leftarrow> ingress_status A ing; ret (Inr out) } })"

definition ingress_Reconcile :: "api \<Rightarrow> key \<Rightarrow> (crash + outcome) op" where
  "ingress_Reconcile A req =
     do {
       r \<leftarrow> getIngress A req;
       case r of
         Inl e \<Rightarrow> ret (Inr (no_requeue, IgnoreNotFound e))
       | Inr ing \<Rightarrow>
           if \<not> is_zrok_ingress ing \<or> DeletionTimestamp ing \<noteq> None then ret (Inr (no_requeue, None))
           else ingress_live A ing }"

section \<open>What is written\<close>

definition ingress_selection :: "Ingress \<Rightarrow> NameSelectionSpec option \<Rightarrow> NameSelectionSpec option" where
  \<comment> \<open>the name the Ingress asks for, in the name space of its annotation or the default one; without
     a name the selection stays as it is\<close>
  "ingress_selection ing old =
     (if ingress_name ing = [] then old
      else Some \<lparr>nsNamespace = (case Annotations ing annotationNamespace of
                                   Some t \<Rightarrow> if t = [] then ''public'' else t
                                 | None \<Rightarrow> ''public''),
                 nsName = ingress_name ing\<rparr>)"

definition ingress_spec :: "Ingress \<Rightarrow> IngressServiceBackend \<Rightarrow> ZrokShareSpec \<Rightarrow> ZrokShareSpec" where
  \<comment> \<open>the spec that the Ingress wants; what it does not speak of stays as it is\<close>
  "ingress_spec ing svc old = old\<lparr>
     shEnvironmentRef := (case Annotations ing annotationEnvironment of
                            Some ref \<Rightarrow> if ref = [] then ''default'' else ref | None \<Rightarrow> ''default''),
     shShareMode := ''public'', shBackendMode := ''proxy'',
     shUpstreamURL := ''http://'' @ svcName svc @ ''.'' @ Namespace ing @ ''.svc:'' @ fmt_d (svcPortNumber svc),
     shReclaimPolicy := ''Delete'',
     shNameSelection := ingress_selection ing (shNameSelection old)\<rparr>"

definition ingress_share :: "Ingress \<Rightarrow> ZrokShare \<Rightarrow> ZrokShare \<Rightarrow> bool" where
  \<comment> \<open>\<open>s\<close> is \<open>old\<close> with what the Ingress says: owner, spec and labels, and nothing else\<close>
  "ingress_share ing old s \<longleftrightarrow>
     (\<exists>svc. ingress_backend ing = Inr (Inr svc) \<and> ShareSpec s = ingress_spec ing svc (ShareSpec old))
     \<and> ControllerRef s = Some (UID ing)
     \<and> Labels s = Labels old ++ ShareLabels s
     \<and> s\<lparr>ShareSpec := ShareSpec old, ControllerRef := ControllerRef old, Labels := Labels old\<rparr> = old"

fun ingress_write_ok :: "Ingress \<Rightarrow> event list \<Rightarrow> event \<Rightarrow> bool" where
  "ingress_write_ok ing h (Create obj r) =
     ((\<exists>e. IsNotFound e \<and> Get KShare (object_key ing) (Inl e) \<in> set h)
      \<and> (\<exists>s. obj = ShareObj s \<and> ingress_share ing (zero_share (Namespace ing) (Name ing)) s))"
| "ingress_write_ok ing h (Update obj r) =
     (\<exists>s old. obj = ShareObj s \<and> Get KShare (object_key ing) (Inr (ShareObj old)) \<in> set h
        \<and> ingress_share ing old s \<and> s \<noteq> old)"
| "ingress_write_ok ing h (StatusPatch before obj r) =
     (\<exists>b share host. before = IngressObj b \<and> obj = IngressObj (b\<lparr>ingLoadBalancer := [host]\<rparr>)
        \<and> Get KShare (object_key ing) (Inr (ShareObj share)) \<in> set h
        \<and> shAssignedURL (ShareStatus share) \<noteq> []
        \<and> host = TrimPrefix (TrimPrefix (shAssignedURL (ShareStatus share)) ''https://'') ''http://'')"
| "ingress_write_ok ing h (Get kd k r) = True"
| "ingress_write_ok ing h (Recorded kd k ty rsn action msg) = True"
| "ingress_write_ok ing h e = False"

lemma ShareLabels_Labels [simp]: "ShareLabels (s\<lparr>Labels := l\<rparr>) = ShareLabels s"
  by (simp add: ShareLabels_def)

lemma ingress_mutation_share:
  assumes "ingress_mutation A ing (ingress_upstream (Namespace ing) svc) s = Inr s'"
    and "ingress_backend ing = Inr (Inr svc)"
  shows "ingress_share ing s s'"
  using assms
  by (auto simp: ingress_mutation_def ingress_share_def ingress_spec_def ingress_selection_def
      ingress_env_def ingress_upstream_def SetControllerReference_def lookup_str_def Let_def split: option.splits if_splits)

lemma ingress_host_total [simp]: "total_mutation (ingress_host_mutation host)"
  by (simp add: total_mutation_def ingress_host_mutation_def)

lemma ingress_host_patch:
  assumes "Get KShare (object_key ing) (Inr (ShareObj share)) \<in> set h" and "shAssignedURL (ShareStatus share) \<noteq> []"
  shows "gwp (ingress_write_ok ing) (PatchIngressStatus A ing' (ingress_host_mutation
      (TrimPrefix (TrimPrefix (shAssignedURL (ShareStatus share)) ''https://'') ''http://''))) any_end h"
    (is "gwp _ (PatchIngressStatus A ing' (ingress_host_mutation ?host)) _ _")
proof (rule gwp_emits [OF PatchStatus_emits [OF ingress_host_total]])
  show "patch_event KIngress IngressObj (ingress_host_mutation ?host) e \<Longrightarrow>
      patch_event KIngress IngressObj (ingress_host_mutation ?host) e" for e .
  show "patch_event KIngress IngressObj (ingress_host_mutation ?host) e \<Longrightarrow> ingress_write_ok ing (h @ es) e" for es e
    using assms by (auto simp: patch_event_def ingress_host_mutation_def)
qed simp

lemma ingress_status_guard: "gwp (ingress_write_ok ing) (ingress_status A ing) any_end h"
  unfolding ingress_status_def Let_def k8s_get_def
  by (intro gwp_bind [OF gwp_perform] gwp_case_sum gwp_if gwp_return TrueI)
     (auto intro!: gwp_seq [OF ingress_host_patch] gwp_intros simp: object_key_def)

lemma CreateOrUpdate_guard:
  assumes svc: "ingress_backend ing = Inr (Inr svc)"
  shows "gwp (ingress_write_ok ing) (CreateOrUpdate ShareObj KShare (apiShares A)
      (zero_share (Namespace ing) (Name ing)) (ingress_mutation A ing (ingress_upstream (Namespace ing) svc))) any_end h"
proof -
  have key: "object_key (zero_share (Namespace ing) (Name ing)) = object_key ing"
    by (simp add: object_key_def zero_share_def)
  show ?thesis
    unfolding CreateOrUpdate_def call_defs key
    using ingress_mutation_share [OF _ svc, of A]
    by (auto intro!: gwp_bind [OF gwp_perform] gwp_intros split: prod.split) blast+
qed

lemma ingress_live_guard: "gwp (ingress_write_ok ing) (ingress_live A ing) any_end h"
  unfolding ingress_live_def
  by (auto intro!: gwp_intros gwp_bind [OF gwp_emit] gwp_seq [OF CreateOrUpdate_guard]
      gwp_seq [OF ingress_status_guard] split: sum.split)

section \<open>Properties\<close>

text \<open>C32: All that the reconcile of an Ingress creates or updates is the ZrokShare of the same name and
  namespace: created when there is none, otherwise updated from the state that was read, with
  exactly these changes. It is owned by the Ingress, public, proxying to the service and port
  of the first path of the first rule in the Ingress's namespace, in the environment of the
  annotation (or \<open>default\<close>), deleted with its name; if the annotation or the host gives a name, it
  selects that name in the name space of the annotation (or \<open>public\<close>); and it gets the share
  labels. The only other write puts the host of that share's assigned URL into the Ingress's
  status.\<close>

theorem ingress_writes_only_its_share:
  "guarded (ingress_write_ok ing) (trace_of (ingress_live A ing))"
  by (rule gwp_trace [OF ingress_live_guard])

lemma ingress_backend_crash:
  "ingress_backend ing = Inl c \<longleftrightarrow>
     c = NilDereference \<and> (\<exists>rule rest. ingRules ing = rule # rest \<and> ruleHTTP rule = None)"
  by (auto simp: ingress_backend_def split: list.splits option.splits)

lemma ingress_live_crash:
  "fst (run_state (ingress_live A ing) h) = Inl c \<longleftrightarrow> ingress_backend ing = Inl c"
proof (cases "ingress_backend ing")
  case (Inl c')
  then show ?thesis by (auto simp: ingress_live_def)
next
  case (Inr b)
  then show ?thesis
    by (cases b) (auto simp: ingress_live_def split_beta split: option.split)
qed

text \<open>A reconcile panics exactly when it reads an Ingress of its class, not being deleted, whose
  first rule has no HTTP section: the code dereferences \<open>rule.HTTP\<close>, which is optional in the
  API, without a check. No other Ingress makes it panic.\<close>

theorem ingress_panics_iff_no_http:
  "result_of (ingress_Reconcile A req) = Inl NilDereference \<longleftrightarrow>
   (\<exists>ing rule rest. cGet (apiIngresses A) [] req = Inr ing \<and> is_zrok_ingress ing
      \<and> DeletionTimestamp ing = None \<and> ingRules ing = rule # rest \<and> ruleHTTP rule = None)"
proof (cases "cGet (apiIngresses A) [] req")
  case (Inl e)
  then show ?thesis by (simp add: result_of_def ingress_Reconcile_def k8s_get_def)
next
  case (Inr ing)
  then show ?thesis
    using ingress_live_crash [of A ing "[Get KIngress req (Inr (IngressObj ing))]" NilDereference]
    by (simp add: result_of_def ingress_Reconcile_def k8s_get_def ingress_backend_crash)
qed

end
