(* ===== verification/Endpoint.thy ===== *)
theory Endpoint
  imports ApiTypes PlainUrls
begin

text \<open>
  \<open>internal/zrokclient/endpoint.go\<close>: which controller endpoints the operator talks to, and
  the redirect policy of its HTTP client, which must not hand the account token to anybody
  else.
\<close>

section \<open>The allowlist\<close>

abbreviation schemeHTTPS :: string where "schemeHTTPS \<equiv> ''https''"
abbreviation schemeHTTP :: string where "schemeHTTP \<equiv> ''http''"

definition DefaultAPIHost :: string where
  "DefaultAPIHost =
     (case url_Parse DefaultAPIEndpoint of
        Inl _ \<Rightarrow> ''api-v2.zrok.io''
      | Inr u \<Rightarrow> if Hostname u = [] then ''api-v2.zrok.io'' else ToLower (Hostname u))"

definition normalize_host :: "string \<Rightarrow> string" where
  \<comment> \<open>the assignments to \<open>h\<close> in the loop of \<open>NormalizeAPIHosts\<close>\<close>
  "normalize_host h =
     (let h = ToLower (TrimSpace h);
          h = TrimPrefix h ''https://'';
          h = TrimPrefix h ''http://''
      in TrimRightByte h (CHR ''/''))"

fun normalize_loop :: "string set \<Rightarrow> string list \<Rightarrow> string list \<Rightarrow> string list" where
  "normalize_loop seen out [] = out"
| "normalize_loop seen out (h0 # hs) =
     (let h = normalize_host h0 in
      if h = [] then normalize_loop seen out hs
      else if h \<in> seen then normalize_loop seen out hs
      else normalize_loop (insert h seen) (out @ [h]) hs)"

definition NormalizeAPIHosts :: "string list \<Rightarrow> string list" where
  "NormalizeAPIHosts extra = normalize_loop {DefaultAPIHost} [DefaultAPIHost] extra"

section \<open>The check of an endpoint\<close>

definition endpoint_error :: "string \<Rightarrow> string \<Rightarrow> go_error" where
  \<comment> \<open>\<open>&EndpointNotAllowedError{Endpoint, Reason}\<close> with its \<open>Error()\<close>\<close>
  "endpoint_error ep reason =
     GoError (EndpointNotAllowedError ep reason) (''apiEndpoint '' @ fmt_q ep @ '': '' @ reason)"

definition blockedHost :: "string \<Rightarrow> bool" where
  "blockedHost host =
     (if host \<in> {''localhost'', ''metadata.google.internal'', ''metadata.google.internal.''} then True
      else if HasSuffix host ''.localhost'' then True
      else case ParseIP host of
             None \<Rightarrow> False
           | Some ip \<Rightarrow> IsLoopback ip \<or> IsLinkLocalUnicast ip \<or> IsLinkLocalMulticast ip
                        \<or> IsUnspecified ip)"

definition effective_endpoint :: "string \<Rightarrow> string" where
  "effective_endpoint apiEndpoint =
     (let endpoint = TrimRightByte (TrimSpace apiEndpoint) (CHR ''/'') in
      if endpoint = [] then DefaultAPIEndpoint else endpoint)"

definition host_key :: "URL \<Rightarrow> string" where
  \<comment> \<open>the host with its port, unless that is the default\<close>
  "host_key u =
     (let host = ToLower (Hostname u); p = Port u in
      if p \<noteq> [] \<and> p \<noteq> ''443'' then host @ '':'' @ p else host)"

definition ValidateAPIEndpoint :: "string \<Rightarrow> string list \<Rightarrow> go_error option" where
  "ValidateAPIEndpoint apiEndpoint allowedHosts =
     (let endpoint = effective_endpoint apiEndpoint in
      case url_Parse endpoint of
        Inl e \<Rightarrow> Some (endpoint_error apiEndpoint (''parse failed: '' @ e))
      | Inr u \<Rightarrow>
          if uScheme u \<noteq> schemeHTTPS then Some (endpoint_error endpoint ''must use https'')
          else if uUser u \<noteq> None then Some (endpoint_error endpoint ''must not contain userinfo'')
          else let host = ToLower (Hostname u) in
            if host = [] then Some (endpoint_error endpoint ''missing host'')
            else if blockedHost host then Some (endpoint_error endpoint ''host is blocked'')
            else if list_ex (\<lambda>a. a = host_key u \<or> a = host) (NormalizeAPIHosts allowedHosts)
            then None
            else Some (endpoint_error endpoint ''host is not allowlisted''))"

section \<open>Redirects\<close>

definition effectivePort :: "URL \<Rightarrow> string" where
  "effectivePort u =
     (let p = Port u in
      if p \<noteq> [] then p
      else if uScheme u = schemeHTTPS then ''443''
      else if uScheme u = schemeHTTP then ''80''
      else [])"

definition hostsEqual :: "URL \<Rightarrow> URL \<Rightarrow> bool" where
  "hostsEqual a b \<longleftrightarrow> EqualFold (Hostname a) (Hostname b) \<and> effectivePort a = effectivePort b"

definition Redacted :: "URL \<Rightarrow> string" where
  \<comment> \<open>\<open>URL.Redacted\<close>: the password is masked\<close>
  "Redacted u =
     URL_String (u\<lparr>uUser := map_option
       (\<lambda>ui. case uiPassword ui of None \<Rightarrow> ui | Some _ \<Rightarrow> ui\<lparr>uiPassword := Some ''xxxxx''\<rparr>) (uUser u)\<rparr>)"

record HttpRequest =
  reqURL :: URL
  reqToken :: "string option" \<comment> \<open>the header \<open>X-TOKEN\<close>\<close>

definition maxRedirects :: nat where "maxRedirects = 5"

definition CheckRedirect ::
  "HttpRequest \<Rightarrow> HttpRequest list \<Rightarrow> crash + (go_error option \<times> HttpRequest)" where
  \<comment> \<open>the error and the request as the function leaves it; \<open>via[0]\<close> panics on an empty slice\<close>
  "CheckRedirect req via =
     (let req = req\<lparr>reqToken := None\<rparr> in
      if length via \<ge> maxRedirects
      then Inr (Some (errorf (''stopped after '' @ fmt_d (int maxRedirects) @ '' redirects'')), req)
      else if uScheme (reqURL req) \<noteq> schemeHTTPS
      then Inr (Some (errorf (''refusing non-https redirect to '' @ Redacted (reqURL req))), req)
      else case via of
        [] \<Rightarrow> Inl IndexOutOfRange
      | first # _ \<Rightarrow>
          if \<not> hostsEqual (reqURL first) (reqURL req)
          then Inr (Some (errorf (''refusing cross-host redirect from '' @ uHost (reqURL first)
                                  @ '' to '' @ uHost (reqURL req))), req)
          else Inr (None, req))"

text \<open>
  What \<open>http.Client\<close> does with it, by the documentation of \<open>net/http\<close>: the headers of the first
  request are copied to every redirected one, \<open>CheckRedirect\<close> gets that request and the
  requests made so far, and an error stops the chain. \<open>chain r0 rs\<close>: \<open>rs\<close> are requests that can be
  sent, in this order, on behalf of \<open>r0\<close>; the redirect targets are whatever the servers say.
\<close>

inductive chain :: "HttpRequest \<Rightarrow> HttpRequest list \<Rightarrow> bool" for r0 where
  first: "chain r0 [r0]"
| redirect: "chain r0 rs \<Longrightarrow> CheckRedirect \<lparr>reqURL = target, reqToken = reqToken r0\<rparr> rs = Inr (None, r)
    \<Longrightarrow> chain r0 (rs @ [r])"

inductive_cases chain_lastE: "chain r0 (rs @ [r])"

lemma CheckRedirect_iff:
  "CheckRedirect req via = Inr (None, r) \<longleftrightarrow>
   length via < maxRedirects \<and> uScheme (reqURL req) = schemeHTTPS \<and> r = req\<lparr>reqToken := None\<rparr>
   \<and> (\<exists>first rest. via = first # rest \<and> hostsEqual (reqURL first) (reqURL req))"
  by (auto simp: CheckRedirect_def Let_def split: list.splits if_splits)

lemma chain_hd: "chain r0 rs \<Longrightarrow> \<exists>rest. rs = r0 # rest"
  by (induction rule: chain.induct) auto

lemma chain_no_crash: "chain r0 rs \<Longrightarrow> CheckRedirect req rs \<noteq> Inl c"
  by (auto simp: CheckRedirect_def Let_def dest!: chain_hd split: if_splits)

definition safe_redirect :: "HttpRequest \<Rightarrow> HttpRequest \<Rightarrow> bool" where
  "safe_redirect r0 r \<longleftrightarrow>
     reqToken r = None \<and> uScheme (reqURL r) = schemeHTTPS \<and> hostsEqual (reqURL r0) (reqURL r)"

lemma chain_safe:
  "chain r0 rs \<Longrightarrow> length rs \<le> maxRedirects \<and> list_all (safe_redirect r0) (tl rs)"
proof (induction rule: chain.induct)
  case first
  then show ?case by (simp add: maxRedirects_def)
next
  case (redirect rs target r)
  then show ?case
    using chain_hd [OF redirect.hyps(1)] by (auto simp: CheckRedirect_iff safe_redirect_def)
qed

section \<open>The allowlist, as a set\<close>

lemma DefaultAPIEndpoint_plain:
  "url_Parse DefaultAPIEndpoint = Inr (plain_url ''https'' ''api-v2.zrok.io'' [] [])"
  using url_Parse_plain [of "''api-v2.zrok.io''" "[]" "[]" "''https''"]
  by (simp add: DefaultAPIEndpoint_def port_suffix_def plain_path_def plain_char_def is_digit_def)

lemma default_host_plain: "plain ''api-v2.zrok.io''"
  by (simp add: plain_char_def is_digit_def)

lemma DefaultAPIHost_eq: "DefaultAPIHost = ''api-v2.zrok.io''"
proof -
  have "Hostname (plain_url ''https'' ''api-v2.zrok.io'' [] []) = ''api-v2.zrok.io''"
    by (rule Hostname_plain(1) [OF default_host_plain]) simp
  then show ?thesis
    using plain_ToLower [OF default_host_plain] by (simp add: DefaultAPIHost_def DefaultAPIEndpoint_plain)
qed

lemma set_normalize_loop:
  "seen = set out \<Longrightarrow>
   set (normalize_loop seen out hs) = set out \<union> (normalize_host ` set hs - {[]})
   \<and> (distinct out \<longrightarrow> distinct (normalize_loop seen out hs))
   \<and> (\<exists>more. normalize_loop seen out hs = out @ more)"
proof (induction seen out hs rule: normalize_loop.induct)
  case (1 seen out)
  then show ?case by simp
next
  case (2 seen out h0 hs)
  let ?h = "normalize_host h0"
  consider "?h = []" | "?h \<noteq> []" "?h \<in> seen" | "?h \<noteq> []" "?h \<notin> seen" by blast
  then show ?case
  proof cases
    case 1
    then show ?thesis using "2.IH"(1) "2.prems" by (simp add: Let_def)
  next
    case 2
    then show ?thesis using "2.IH"(2) "2.prems" by (auto simp: Let_def)
  next
    case 3
    then show ?thesis using "2.IH"(3) "2.prems" by (auto simp: Let_def)
  qed
qed

lemma set_NormalizeAPIHosts:
  "set (NormalizeAPIHosts hs) = insert DefaultAPIHost (normalize_host ` set hs - {[]})"
  "distinct (NormalizeAPIHosts hs)"
  "\<exists>more. NormalizeAPIHosts hs = DefaultAPIHost # more"
  using set_normalize_loop [of "{DefaultAPIHost}" "[DefaultAPIHost]" hs]
  by (auto simp: NormalizeAPIHosts_def)

lemma ValidateAPIEndpoint_iff:
  "ValidateAPIEndpoint ep allowed = None \<longleftrightarrow>
   (\<exists>u. url_Parse (effective_endpoint ep) = Inr u \<and> uScheme u = schemeHTTPS \<and> uUser u = None
      \<and> Hostname u \<noteq> [] \<and> \<not> blockedHost (ToLower (Hostname u))
      \<and> (\<exists>a \<in> insert DefaultAPIHost (normalize_host ` set allowed). a = host_key u \<or> a = ToLower (Hostname u)))"
proof -
  have "list_ex (\<lambda>a. a = host_key u \<or> a = ToLower (Hostname u)) (NormalizeAPIHosts allowed) \<longleftrightarrow>
      (\<exists>a \<in> insert DefaultAPIHost (normalize_host ` set allowed). a = host_key u \<or> a = ToLower (Hostname u))"
    if "Hostname u \<noteq> []" for u
  proof -
    have "host_key u \<noteq> []" and "ToLower (Hostname u) \<noteq> []" using that by (auto simp: host_key_def Let_def)
    then show ?thesis by (auto simp: list_ex_iff set_NormalizeAPIHosts)
  qed
  then show ?thesis by (auto simp: ValidateAPIEndpoint_def Let_def split: sum.splits if_splits)
qed

lemma ValidateAPIEndpoint_kind: "ValidateAPIEndpoint ep allowed = Some e \<Longrightarrow> IsEndpointNotAllowed e"
  by (auto simp: ValidateAPIEndpoint_def endpoint_error_def IsEndpointNotAllowed_def Let_def
      split: sum.splits if_splits)

lemma blockedHost_default: "\<not> blockedHost ''api-v2.zrok.io''"
proof -
  have "SplitByte ''api-v2.zrok.io'' (CHR ''.'') = [''api-v2'', ''zrok'', ''io'']" by simp
  then have "parse_ipv4_fields ''api-v2.zrok.io'' = None"
    by (simp add: parse_ipv4_fields_def split: option.split)
  then have "ParseIP ''api-v2.zrok.io'' = None" by (simp add: ParseIP_def)
  then show ?thesis by (simp add: blockedHost_def HasSuffix_def HasPrefix_def)
qed

lemma default_endpoint_effective:
  "effective_endpoint [] = DefaultAPIEndpoint" "effective_endpoint DefaultAPIEndpoint = DefaultAPIEndpoint"
  by (simp_all add: effective_endpoint_def TrimSpace_def TrimRightByte_def DefaultAPIEndpoint_def is_space_def)

lemma default_endpoint_accepted:
  "effective_endpoint ep = DefaultAPIEndpoint \<Longrightarrow> ValidateAPIEndpoint ep allowed = None"
proof -
  assume ep: "effective_endpoint ep = DefaultAPIEndpoint"
  let ?u = "plain_url ''https'' ''api-v2.zrok.io'' [] []"
  have h: "Hostname ?u = ''api-v2.zrok.io''" by (rule Hostname_plain(1) [OF default_host_plain]) simp
  have "ToLower (Hostname ?u) = DefaultAPIHost"
    using plain_ToLower [OF default_host_plain] h by (simp add: DefaultAPIHost_eq)
  moreover have "uScheme ?u = schemeHTTPS" "uUser ?u = None"
    by (simp_all add: plain_url_def empty_url_def)
  ultimately show ?thesis
    unfolding ValidateAPIEndpoint_iff ep DefaultAPIEndpoint_plain
    using h blockedHost_default by (auto simp: DefaultAPIHost_eq)
qed

section \<open>Properties\<close>

text \<open>Exactly those endpoints are accepted whose effective form (trimmed, the public controller
  when empty) parses as an https URL without user information, with a host that is not blocked
  and that is the public controller's or on the normalised allowlist, with its port or
  without: an allowlisted bare host admits every port.\<close>

theorem endpoint_accepted_iff:
  "ValidateAPIEndpoint ep allowed = None \<longleftrightarrow>
   (\<exists>u. url_Parse (effective_endpoint ep) = Inr u \<and> uScheme u = schemeHTTPS \<and> uUser u = None
      \<and> Hostname u \<noteq> [] \<and> \<not> blockedHost (ToLower (Hostname u))
      \<and> (\<exists>a \<in> insert DefaultAPIHost (normalize_host ` set allowed). a = host_key u \<or> a = ToLower (Hostname u)))"
  by (rule ValidateAPIEndpoint_iff)

text \<open>The public controller is always accepted, given or by default, whatever the allowlist.\<close>

theorem default_endpoint_always_accepted:
  "ValidateAPIEndpoint [] allowed = None \<and> ValidateAPIEndpoint DefaultAPIEndpoint allowed = None"
  by (simp add: default_endpoint_accepted default_endpoint_effective)

text \<open>C8: Whatever redirects the servers answer with, at most five requests are sent on behalf of
  one, and every request after the first is an https request to the same host and port without
  the account token.\<close>

theorem redirects_keep_token_and_host:
  assumes "chain r0 rs"
  shows "length rs \<le> 5 \<and> list_all (safe_redirect r0) (tl rs)"
  using chain_safe [OF assms] by (simp add: maxRedirects_def)

definition example_request :: "string \<Rightarrow> HttpRequest" where
  "example_request path = \<lparr>reqURL = plain_url ''https'' ''api-v2.zrok.io'' [] path, reqToken = Some ''t''\<rparr>"

lemma example_chain:
  "chain (example_request ''/a'')
     [example_request ''/a'', \<lparr>reqURL = plain_url ''https'' ''api-v2.zrok.io'' [] ''/b'', reqToken = None\<rparr>]"
proof -
  let ?u = "\<lambda>path. plain_url ''https'' ''api-v2.zrok.io'' [] path"
  have "hostsEqual (?u ''/a'') (?u ''/b'')"
    using Hostname_plain [OF default_host_plain, of "[]"]
    by (simp add: hostsEqual_def effectivePort_def) (simp add: plain_url_def)
  then have "CheckRedirect \<lparr>reqURL = ?u ''/b'', reqToken = reqToken (example_request ''/a'')\<rparr> [example_request ''/a'']
      = Inr (None, \<lparr>reqURL = ?u ''/b'', reqToken = None\<rparr>)"
    by (simp add: CheckRedirect_iff maxRedirects_def example_request_def) (simp add: plain_url_def)
  from chain.redirect [OF chain.first this] show ?thesis by simp
qed

lemma redirects_keep_token_and_host_witness:
  "list_all (safe_redirect (example_request ''/a''))
     [\<lparr>reqURL = plain_url ''https'' ''api-v2.zrok.io'' [] ''/b'', reqToken = None\<rparr>]"
  using redirects_keep_token_and_host [OF example_chain] by simp

end
