(* ===== verification/RestClient.thy ===== *)
theory RestClient
  imports Endpoint World ShareReconcile
begin

text \<open>
  \<open>internal/zrokclient/client.go\<close>: the client of the zrok controller's REST API. The generated
  operations of the zrok module are parameters: what a transport answers to an operation, given
  the requests made before. Every request is recorded with the transport it went through.
\<close>

section \<open>Transports and requests\<close>

record Transport =
  \<comment> \<open>the arguments of \<open>httptransport.NewWithClient\<close>\<close>
  trHost :: string
  trBasePath :: string
  trSchemes :: "string list"

datatype rest_call =
    CallEnable string string \<comment> \<open>host, description\<close>
  | CallDisable string
  | CallCreateShareName string string
  | CallUpdateShareName string string bool
  | CallDeleteShareName string string
  | CallUnshare string string
  | CallListShares string

datatype http_event =
    Request Transport string rest_call "string option" \<comment> \<open>transport, \<open>X-TOKEN\<close>, call, error text\<close>

type_synonym 'a http = "(http_event, 'a) prog"

text \<open>An element of the share listing is a pointer, and so is the payload.\<close>

record rest_api =
  rawEnable :: "http_event list \<Rightarrow> Transport \<Rightarrow> string \<Rightarrow> rest_call \<Rightarrow> string + (string \<times> string)"
  rawCall :: "http_event list \<Rightarrow> Transport \<Rightarrow> string \<Rightarrow> rest_call \<Rightarrow> string option"
  rawListShares :: "http_event list \<Rightarrow> Transport \<Rightarrow> string \<Rightarrow> rest_call \<Rightarrow>
     string + RemoteShare option list option"

definition err_of :: "'e + 'a \<Rightarrow> 'e option" where
  "err_of r = (case r of Inl e \<Rightarrow> Some e | Inr _ \<Rightarrow> None)"

section \<open>\<open>HTTPRESTClient\<close>\<close>

definition base_path :: "URL \<Rightarrow> string" where
  "base_path u =
     (if uPath u = [] \<or> uPath u = ''/'' then ''/api/v2'' else TrimSuffix (uPath u) ''/'' @ ''/api/v2'')"

definition client_endpoint :: "string \<Rightarrow> string" where
  "client_endpoint apiEndpoint =
     (let endpoint = TrimRightByte apiEndpoint (CHR ''/'') in
      if endpoint = [] then DefaultAPIEndpoint else endpoint)"

definition clientFor :: "string list \<Rightarrow> string \<Rightarrow> go_error + Transport" where
  "clientFor allowedHosts apiEndpoint =
     (case ValidateAPIEndpoint apiEndpoint allowedHosts of
        Some e \<Rightarrow> Inl e
      | None \<Rightarrow>
          (case url_Parse (client_endpoint apiEndpoint) of
             Inl e \<Rightarrow> Inl (errorf (''parse api endpoint: '' @ e))
           | Inr u \<Rightarrow> Inr \<lparr>trHost = uHost u, trBasePath = base_path u, trSchemes = [schemeHTTPS]\<rparr>))"

definition rest_error :: "string \<Rightarrow> string \<Rightarrow> go_error" where
  \<comment> \<open>\<open>fmt.Errorf("<what>: %w", err)\<close> on an error of the generated client\<close>
  "rest_error what e = errorf (what @ '': '' @ e)"

definition send :: "rest_api \<Rightarrow> Transport \<Rightarrow> string \<Rightarrow> rest_call \<Rightarrow> string option http" where
  "send R t token c = perform (\<lambda>h. rawCall R h t token c) (Request t token c)"

definition HTTP_Enable ::
  "rest_api \<Rightarrow> string list \<Rightarrow> string \<Rightarrow> string \<Rightarrow> string \<Rightarrow> string \<Rightarrow> (go_error + string \<times> string) http" where
  "HTTP_Enable R allowed ep token host description =
     (case clientFor allowed ep of
        Inl e \<Rightarrow> ret (Inl e)
      | Inr t \<Rightarrow> do {
          r \<leftarrow> perform (\<lambda>h. rawEnable R h t token (CallEnable host description))
                 (\<lambda>r. Request t token (CallEnable host description) (err_of r));
          ret (case r of Inl e \<Rightarrow> Inl (rest_error ''enable environment'' e) | Inr x \<Rightarrow> Inr x) })"

definition HTTP_Disable ::
  "rest_api \<Rightarrow> string list \<Rightarrow> string \<Rightarrow> string \<Rightarrow> string \<Rightarrow> (go_error option) http" where
  "HTTP_Disable R allowed ep token envZID =
     (case clientFor allowed ep of
        Inl e \<Rightarrow> ret (Some e)
      | Inr t \<Rightarrow> do { r \<leftarrow> send R t token (CallDisable envZID);
                     ret (map_option (rest_error ''disable environment'') r) })"

definition HTTP_CreateShareName ::
  "rest_api \<Rightarrow> string list \<Rightarrow> string \<Rightarrow> string \<Rightarrow> string \<Rightarrow> string \<Rightarrow> (go_error option) http" where
  "HTTP_CreateShareName R allowed ep token namespaceToken name =
     (case clientFor allowed ep of
        Inl e \<Rightarrow> ret (Some e)
      | Inr t \<Rightarrow> do {
          r \<leftarrow> send R t token (CallCreateShareName namespaceToken name);
          ret (case r of
                 None \<Rightarrow> None
               | Some e \<Rightarrow> if Contains e ''409'' \<or> Contains (ToLower e) ''already'' then None
                           else Some (rest_error ''create share name'' e)) })"

definition HTTP_UpdateShareName ::
  "rest_api \<Rightarrow> string list \<Rightarrow> string \<Rightarrow> string \<Rightarrow> string \<Rightarrow> string \<Rightarrow> bool \<Rightarrow> (go_error option) http" where
  "HTTP_UpdateShareName R allowed ep token namespaceToken name reserved =
     (case clientFor allowed ep of
        Inl e \<Rightarrow> ret (Some e)
      | Inr t \<Rightarrow> do { r \<leftarrow> send R t token (CallUpdateShareName namespaceToken name reserved);
                     ret (map_option (rest_error ''update share name'') r) })"

definition HTTP_DeleteShareName ::
  "rest_api \<Rightarrow> string list \<Rightarrow> string \<Rightarrow> string \<Rightarrow> string \<Rightarrow> string \<Rightarrow> (go_error option) http" where
  "HTTP_DeleteShareName R allowed ep token namespaceToken name =
     (case clientFor allowed ep of
        Inl e \<Rightarrow> ret (Some e)
      | Inr t \<Rightarrow> do {
          r \<leftarrow> send R t token (CallDeleteShareName namespaceToken name);
          ret (case r of
                 None \<Rightarrow> None
               | Some e \<Rightarrow> if Contains e ''404'' then None else Some (rest_error ''delete share name'' e)) })"

definition HTTP_Unshare ::
  "rest_api \<Rightarrow> string list \<Rightarrow> string \<Rightarrow> string \<Rightarrow> string \<Rightarrow> string \<Rightarrow> (go_error option) http" where
  "HTTP_Unshare R allowed ep token envZID shareToken =
     (if shareToken = [] then ret None
      else case clientFor allowed ep of
        Inl e \<Rightarrow> ret (Some e)
      | Inr t \<Rightarrow> do {
          r \<leftarrow> send R t token (CallUnshare envZID shareToken);
          ret (case r of
                 None \<Rightarrow> None
               | Some e \<Rightarrow> if Contains e ''404'' \<or> Contains (ToLower e) ''not found'' then None
                           else Some (rest_error ''unshare'' e)) })"

definition HTTP_ListShares ::
  "rest_api \<Rightarrow> string list \<Rightarrow> string \<Rightarrow> string \<Rightarrow> string \<Rightarrow> (go_error + RemoteShare list option) http" where
  \<comment> \<open>\<open>None\<close> is the nil slice; nil elements are skipped\<close>
  "HTTP_ListShares R allowed ep token envZID =
     (if envZID = [] then ret (Inr None)
      else case clientFor allowed ep of
        Inl e \<Rightarrow> ret (Inl e)
      | Inr t \<Rightarrow> do {
          r \<leftarrow> perform (\<lambda>h. rawListShares R h t token (CallListShares envZID))
                 (\<lambda>r. Request t token (CallListShares envZID) (err_of r));
          ret (case r of
                 Inl e \<Rightarrow> Inl (rest_error ''list shares'' e)
               | Inr None \<Rightarrow> Inr None
               | Inr (Some shares) \<Rightarrow> Inr (Some (List.map_filter id shares))) })"

section \<open>Where requests go\<close>

definition allowed_transport :: "string list \<Rightarrow> string \<Rightarrow> Transport \<Rightarrow> bool" where
  \<comment> \<open>https, to the host of an accepted URL, under the API's base path\<close>
  "allowed_transport allowed ep t \<longleftrightarrow>
     trSchemes t = [schemeHTTPS] \<and> HasSuffix (trBasePath t) ''/api/v2''
     \<and> (\<exists>u. trHost t = uHost u \<and> uUser u = None \<and> \<not> blockedHost (ToLower (Hostname u))
          \<and> (host_key u \<in> set (NormalizeAPIHosts allowed)
              \<or> ToLower (Hostname u) \<in> set (NormalizeAPIHosts allowed)))"

fun allowed_request :: "string list \<Rightarrow> string \<Rightarrow> string \<Rightarrow> http_event \<Rightarrow> bool" where
  "allowed_request allowed ep token (Request t tok c e) = (allowed_transport allowed ep t \<and> tok = token)"

lemma base_path_suffix: "HasSuffix (base_path u) ''/api/v2''"
  using HasSuffix_append [of "[]" "''/api/v2''"] HasSuffix_append [of "TrimSuffix (uPath u) ''/''" "''/api/v2''"]
  by (simp only: base_path_def append_Nil split: if_split) simp

lemma client_endpoint_trimmed: "TrimSpace ep = ep \<Longrightarrow> client_endpoint ep = effective_endpoint ep"
  by (simp add: client_endpoint_def effective_endpoint_def)

lemma clientFor_allowed:
  assumes "clientFor allowed ep = Inr t" and "TrimSpace ep = ep"
  shows "allowed_transport allowed ep t"
proof -
  have v: "ValidateAPIEndpoint ep allowed = None" and
    p: "\<exists>u. url_Parse (effective_endpoint ep) = Inr u \<and>
         t = \<lparr>trHost = uHost u, trBasePath = base_path u, trSchemes = [schemeHTTPS]\<rparr>"
    using assms by (auto simp: clientFor_def client_endpoint_trimmed split: option.splits sum.splits)
  then obtain u where u: "url_Parse (effective_endpoint ep) = Inr u"
      "t = \<lparr>trHost = uHost u, trBasePath = base_path u, trSchemes = [schemeHTTPS]\<rparr>" by blast
  obtain a where f: "uUser u = None" "Hostname u \<noteq> []" "\<not> blockedHost (ToLower (Hostname u))"
    and a: "a \<in> insert DefaultAPIHost (normalize_host ` set allowed)" "a = host_key u \<or> a = ToLower (Hostname u)"
    using v u(1) by (auto simp: ValidateAPIEndpoint_iff)
  have "a \<noteq> []" using a(2) f(2) by (auto simp: host_key_def Let_def split: if_splits)
  then have "a \<in> set (NormalizeAPIHosts allowed)" using a(1) by (simp add: set_NormalizeAPIHosts)
  then have "trHost t = uHost u \<and> uUser u = None \<and> \<not> blockedHost (ToLower (Hostname u))
      \<and> (host_key u \<in> set (NormalizeAPIHosts allowed) \<or> ToLower (Hostname u) \<in> set (NormalizeAPIHosts allowed))"
    using u(2) f a(2) by auto
  then show ?thesis using u(2) base_path_suffix unfolding allowed_transport_def by auto
qed

lemma clientFor_denied: "ValidateAPIEndpoint ep allowed = Some e \<Longrightarrow> clientFor allowed ep = Inl e"
  by (simp add: clientFor_def)

lemmas http_defs =
  HTTP_Enable_def HTTP_Disable_def HTTP_CreateShareName_def HTTP_UpdateShareName_def
  HTTP_DeleteShareName_def HTTP_Unshare_def HTTP_ListShares_def send_def

lemma http_emits:
  assumes "TrimSpace ep = ep"
  shows "emits (allowed_request allowed ep token) (HTTP_Enable R allowed ep token host desc)"
    "emits (allowed_request allowed ep token) (HTTP_Disable R allowed ep token zid)"
    "emits (allowed_request allowed ep token) (HTTP_CreateShareName R allowed ep token ns n)"
    "emits (allowed_request allowed ep token) (HTTP_UpdateShareName R allowed ep token ns n reserved)"
    "emits (allowed_request allowed ep token) (HTTP_DeleteShareName R allowed ep token ns n)"
    "emits (allowed_request allowed ep token) (HTTP_Unshare R allowed ep token zid shr)"
    "emits (allowed_request allowed ep token) (HTTP_ListShares R allowed ep token zid)"
  unfolding http_defs
  by (intro emits_intros; simp add: clientFor_allowed [OF _ assms])+

lemma Contains_append: "Contains e s \<Longrightarrow> Contains (x @ e) s"
  by (metis Contains_iff_sublist sublist_appendI sublist_order.order.trans append_Nil2)

lemma run_trace: "trace_of (ret x) = []" "result_of (ret x) = x"
  by (simp_all add: trace_of_def result_of_def)

section \<open>Properties\<close>

text \<open>C34: For an endpoint without surrounding white space, each operation of the REST client sends
  requests only over https to the host of a URL without user information that is not blocked
  and on the normalised allowlist, under \<open>/api/v2\<close>, and with no other token than the caller's.\<close>

theorem rest_requests_stay_on_allowlist:
  assumes "TrimSpace ep = ep"
  shows "list_all (allowed_request allowed ep token)
     (trace_of (HTTP_Enable R allowed ep token host desc)
      @ trace_of (HTTP_Disable R allowed ep token zid)
      @ trace_of (HTTP_CreateShareName R allowed ep token ns n)
      @ trace_of (HTTP_UpdateShareName R allowed ep token ns n reserved)
      @ trace_of (HTTP_DeleteShareName R allowed ep token ns n)
      @ trace_of (HTTP_Unshare R allowed ep token zid shr)
      @ trace_of (HTTP_ListShares R allowed ep token zid))"
  using http_emits [OF assms, THEN emits_trace] by simp

definition quiet_rest :: rest_api where
  "quiet_rest = \<lparr>rawEnable = (\<lambda>h t tok c. Inr (''zid'', ''cfg'')), rawCall = (\<lambda>h t tok c. None),
     rawListShares = (\<lambda>h t tok c. Inr None)\<rparr>"

lemma rest_requests_stay_on_allowlist_witness:
  "list_all (allowed_request [] [] ''t'') (trace_of (HTTP_Disable quiet_rest [] [] ''t'' ''zid''))
   \<and> trace_of (HTTP_Disable quiet_rest [] [] ''t'' ''zid'') \<noteq> []"
proof
  show "list_all (allowed_request [] [] ''t'') (trace_of (HTTP_Disable quiet_rest [] [] ''t'' ''zid''))"
    using rest_requests_stay_on_allowlist [of "[]" "[]" "''t''" quiet_rest _ _ "''zid''"]
    by (simp add: TrimSpace_def)
  have "\<exists>t. clientFor [] [] = Inr t"
    by (simp add: clientFor_def default_endpoint_accepted default_endpoint_effective
        client_endpoint_def TrimRightByte_def DefaultAPIEndpoint_plain)
  then show "trace_of (HTTP_Disable quiet_rest [] [] ''t'' ''zid'') \<noteq> []"
    by (auto simp: HTTP_Disable_def send_def trace_of_def)
qed

text \<open>For an endpoint that the policy denies, no operation sends anything, and each returns the
  policy's error unchanged (unsharing no token and listing no environment succeed trivially),
  an error that \<open>IsEndpointNotAllowed\<close> recognises.\<close>

theorem denied_endpoint_sends_nothing:
  assumes "ValidateAPIEndpoint ep allowed = Some e"
  shows "IsEndpointNotAllowed e
    \<and> HTTP_Enable R allowed ep token host desc = ret (Inl e)
    \<and> HTTP_Disable R allowed ep token zid = ret (Some e)
    \<and> HTTP_CreateShareName R allowed ep token ns n = ret (Some e)
    \<and> HTTP_UpdateShareName R allowed ep token ns n reserved = ret (Some e)
    \<and> HTTP_DeleteShareName R allowed ep token ns n = ret (Some e)
    \<and> HTTP_Unshare R allowed ep token zid shr = ret (if shr = [] then None else Some e)
    \<and> HTTP_ListShares R allowed ep token zid = ret (if zid = [] then Inr None else Inl e)"
  using ValidateAPIEndpoint_kind [OF assms] clientFor_denied [OF assms] by (simp add: http_defs)

lemma http_endpoint_denied:
  "ValidateAPIEndpoint ''http://api-v2.zrok.io'' allowed = Some (endpoint_error ''http://api-v2.zrok.io'' ''must use https'')"
proof -
  have "effective_endpoint ''http://api-v2.zrok.io'' = ''http://api-v2.zrok.io''"
    by (simp add: effective_endpoint_def TrimSpace_def TrimRightByte_def is_space_def)
  moreover have "url_Parse ''http://api-v2.zrok.io'' = Inr (plain_url ''http'' ''api-v2.zrok.io'' [] [])"
    using url_Parse_plain [OF default_host_plain, of "[]" "[]" "''http''"]
    by (simp add: port_suffix_def plain_path_def)
  ultimately show ?thesis by (simp add: ValidateAPIEndpoint_def Let_def) (simp add: plain_url_def)
qed

lemma denied_endpoint_sends_nothing_witness:
  "HTTP_Enable quiet_rest [] ''http://api-v2.zrok.io'' ''t'' ''h'' ''d'' =
     ret (Inl (endpoint_error ''http://api-v2.zrok.io'' ''must use https''))"
  using denied_endpoint_sends_nothing [OF http_endpoint_denied, of quiet_rest "[]"] by simp

text \<open>Repeating an operation is safe: creating a name that exists (an error text with 409 or
  \<open>already\<close>), deleting a name that is gone (404) and unsharing a share that is gone (404 or
  \<open>not found\<close>) succeed; any other error of the controller is returned with its text, so that a
  401 is still recognised as such.\<close>

theorem rest_errors_are_classified:
  assumes "clientFor allowed ep = Inr t" and "shr \<noteq> []"
  shows "result_of (HTTP_CreateShareName R allowed ep token ns n) =
      (case rawCall R [] t token (CallCreateShareName ns n) of
         Some e \<Rightarrow> if Contains e ''409'' \<or> Contains (ToLower e) ''already'' then None
                   else Some (rest_error ''create share name'' e)
       | None \<Rightarrow> None)
    \<and> result_of (HTTP_DeleteShareName R allowed ep token ns n) =
      (case rawCall R [] t token (CallDeleteShareName ns n) of
         Some e \<Rightarrow> if Contains e ''404'' then None else Some (rest_error ''delete share name'' e)
       | None \<Rightarrow> None)
    \<and> result_of (HTTP_Unshare R allowed ep token zid shr) =
      (case rawCall R [] t token (CallUnshare zid shr) of
         Some e \<Rightarrow> if Contains e ''404'' \<or> Contains (ToLower e) ''not found'' then None
                   else Some (rest_error ''unshare'' e)
       | None \<Rightarrow> None)
    \<and> (\<forall>what e. Contains e ''[401]'' \<longrightarrow> IsUnauthorized (rest_error what e))"
  using assms
  by (auto simp: http_defs result_of_def IsUnauthorized_def rest_error_def errorf_def Contains_append
      split: option.split)

lemma rest_errors_are_classified_witness:
  "result_of (HTTP_Unshare quiet_rest [] [] ''t'' ''zid'' ''shr'') = None"
proof -
  have "clientFor [] [] = Inr \<lparr>trHost = ''api-v2.zrok.io'', trBasePath = ''/api/v2'', trSchemes = [schemeHTTPS]\<rparr>"
    by (simp add: clientFor_def default_endpoint_accepted default_endpoint_effective
        client_endpoint_def TrimRightByte_def DefaultAPIEndpoint_plain)
       (simp add: plain_url_def port_suffix_def base_path_def empty_url_def)
  from rest_errors_are_classified [OF this, of "''shr''" quiet_rest] show ?thesis
    by (simp add: quiet_rest_def)
qed

end
