(* ===== verification/AgentClient.thy ===== *)
theory AgentClient
  imports World
begin

text \<open>
  \<open>internal/zrokclient/agent_grpc.go\<close>: the client of an agent's gRPC interface. \<open>grpc.NewClient\<close>,
  the generated stubs and the closing of a connection are the outside world here; each of them
  is recorded. Durations are nanoseconds, as in \<open>time.Duration\<close>.
\<close>

section \<open>Connections and calls\<close>

datatype agent_call =
    StatusCall
  | SharePublicCall SharePublicRequest
  | SharePrivateCall SharePrivateRequest
  | ReleaseShareCall string
  | AccessPrivateCall string string
  | ReleaseAccessCall string

datatype grpc_event =
    NewConn string bool \<comment> \<open>address, whether a connection was made\<close>
  | Invoke string int agent_call bool \<comment> \<open>address, timeout of the context, call, success\<close>
  | CloseConn string

type_synonym 'a grpc = "(grpc_event, 'a) prog"

record grpc_world =
  gNewClient :: "grpc_event list \<Rightarrow> string \<Rightarrow> go_error option"
  gStatus :: "grpc_event list \<Rightarrow> go_error + StatusResponse option"
  gSharePublic :: "grpc_event list \<Rightarrow> SharePublicRequest \<Rightarrow> go_error + SharePublicResponse"
  gSharePrivate :: "grpc_event list \<Rightarrow> SharePrivateRequest \<Rightarrow> go_error + string"
  gReleaseShare :: "grpc_event list \<Rightarrow> string \<Rightarrow> go_error + unit"
  gAccessPrivate :: "grpc_event list \<Rightarrow> string \<Rightarrow> string \<Rightarrow> go_error + string"
  gReleaseAccess :: "grpc_event list \<Rightarrow> string \<Rightarrow> go_error + unit"

section \<open>\<open>GRPCAgentClient\<close>\<close>

record GRPCAgentClient =
  DialTimeout :: int
  CallTimeout :: int

abbreviation Second :: int where "Second \<equiv> 1000000000"

definition timeouts :: "GRPCAgentClient \<Rightarrow> int \<times> int" where
  "timeouts c =
     (let dial = DialTimeout c; dial = (if dial = 0 then 10 * Second else dial);
          call = CallTimeout c; call = (if call = 0 then 60 * Second else call)
      in (dial, call))"

definition withClient ::
  "grpc_world \<Rightarrow> GRPCAgentClient \<Rightarrow> string \<Rightarrow> (int \<Rightarrow> (go_error + 'a) grpc) \<Rightarrow> (go_error + 'a) grpc" where
  \<comment> \<open>\<open>fn\<close> gets the timeout of the context it runs in; the connection is closed by \<open>defer\<close>\<close>
  "withClient G c addr fn =
     (case timeouts c of (_, callTO) \<Rightarrow> do {
        err \<leftarrow> perform (\<lambda>h. gNewClient G h addr) (\<lambda>err. NewConn addr (err = None));
        case err of
          Some e \<Rightarrow> ret (Inl (wrap_error (''dial agent gRPC '' @ addr) e))
        | None \<Rightarrow> do {
            r \<leftarrow> fn callTO;
            emit (CloseConn addr);
            ret r } })"

definition invoke :: "(grpc_event list \<Rightarrow> go_error + 'a) \<Rightarrow> string \<Rightarrow> agent_call \<Rightarrow> int \<Rightarrow> (go_error + 'a) grpc" where
  \<comment> \<open>a generated stub\<close>
  "invoke reply addr call timeout = perform reply (\<lambda>r. Invoke addr timeout call (case r of Inl _ \<Rightarrow> False | Inr _ \<Rightarrow> True))"

definition GRPC_Status where
  "GRPC_Status G c addr = withClient G c addr (invoke (gStatus G) addr StatusCall)"

definition GRPC_SharePublic where
  "GRPC_SharePublic G c addr req =
     withClient G c addr (invoke (\<lambda>h. gSharePublic G h req) addr (SharePublicCall req))"

definition GRPC_SharePrivate where
  "GRPC_SharePrivate G c addr req =
     withClient G c addr (invoke (\<lambda>h. gSharePrivate G h req) addr (SharePrivateCall req))"

definition GRPC_ReleaseShare where
  "GRPC_ReleaseShare G c addr token =
     withClient G c addr (invoke (\<lambda>h. gReleaseShare G h token) addr (ReleaseShareCall token))"

definition GRPC_AccessPrivate where
  "GRPC_AccessPrivate G c addr token bnd =
     withClient G c addr (invoke (\<lambda>h. gAccessPrivate G h token bnd) addr (AccessPrivateCall token bnd))"

definition GRPC_ReleaseAccess where
  "GRPC_ReleaseAccess G c addr token =
     withClient G c addr (invoke (\<lambda>h. gReleaseAccess G h token) addr (ReleaseAccessCall token))"

lemmas grpc_defs =
  GRPC_Status_def GRPC_SharePublic_def GRPC_SharePrivate_def GRPC_ReleaseShare_def
  GRPC_AccessPrivate_def GRPC_ReleaseAccess_def

section \<open>One connection per call\<close>

fun balanced :: "string \<Rightarrow> int \<Rightarrow> agent_call \<Rightarrow> grpc_event list \<Rightarrow> bool" where
  \<comment> \<open>no connection, or one connection that carries one call and is closed\<close>
  "balanced addr timeout call [NewConn a False] = (a = addr)"
| "balanced addr timeout call [NewConn a True, Invoke b t cl ok, CloseConn d] =
     (a = addr \<and> b = addr \<and> t = timeout \<and> cl = call \<and> d = addr)"
| "balanced addr timeout call es = False"

lemma withClient_balanced:
  "balanced addr (snd (timeouts c)) call (trace_of (withClient G c addr (invoke reply addr call)))"
  by (auto simp: trace_of_def withClient_def invoke_def split: prod.split option.split)

lemma withClient_result:
  "result_of (withClient G c addr (invoke reply addr call)) =
     (case gNewClient G [] addr of
        Some e \<Rightarrow> Inl (wrap_error (''dial agent gRPC '' @ addr) e)
      | None \<Rightarrow> reply [NewConn addr True])"
  by (auto simp: result_of_def withClient_def invoke_def split: prod.split option.split)

section \<open>Properties\<close>

text \<open>Every operation of the agent client opens at most one connection, to the address it was
  given, makes exactly one call on it, with a timeout of \<open>CallTimeout\<close> or a minute, and closes it
  whatever the call returns: no connection is leaked.\<close>

theorem agent_connections_are_closed:
  "balanced addr (snd (timeouts c)) StatusCall (trace_of (GRPC_Status G c addr))
   \<and> balanced addr (snd (timeouts c)) (SharePublicCall req) (trace_of (GRPC_SharePublic G c addr req))
   \<and> balanced addr (snd (timeouts c)) (SharePrivateCall preq) (trace_of (GRPC_SharePrivate G c addr preq))
   \<and> balanced addr (snd (timeouts c)) (ReleaseShareCall tok) (trace_of (GRPC_ReleaseShare G c addr tok))
   \<and> balanced addr (snd (timeouts c)) (AccessPrivateCall tok bnd) (trace_of (GRPC_AccessPrivate G c addr tok bnd))
   \<and> balanced addr (snd (timeouts c)) (ReleaseAccessCall tok) (trace_of (GRPC_ReleaseAccess G c addr tok))
   \<and> snd (timeouts c) \<noteq> 0"
  unfolding grpc_defs by (simp add: withClient_balanced) (simp add: timeouts_def Let_def)

end
