(* ===== verification/Clients.thy ===== *)
theory Clients
  imports RestClient AgentClient
begin

text \<open>
  The clients as the manager gets them (\<open>NewDefaultClients\<close> and \<open>PersistEnabledEnvironment\<close> of
  \<open>internal/zrokclient/client.go\<close>, \<open>NewSecureHTTPClient\<close> of \<open>endpoint.go\<close>), and what the
  list of hosts they are given means once it has been normalised twice.
\<close>

section \<open>The HTTP client\<close>

record HttpClient =
  \<comment> \<open>the fields of \<open>http.Client\<close> that the code sets\<close>
  clTimeout :: int \<comment> \<open>in nanoseconds\<close>
  clCheckRedirect :: "HttpRequest \<Rightarrow> HttpRequest list \<Rightarrow> crash + (go_error option \<times> HttpRequest)"

definition NewSecureHTTPClient :: HttpClient where
  "NewSecureHTTPClient = \<lparr>clTimeout = 60 * Second, clCheckRedirect = CheckRedirect\<rparr>"

section \<open>The clients of the zrok controller and the agents\<close>

record HTTPRESTClient =
  HTTP :: HttpClient
  AllowedHosts :: "string list"

record Clients =
  REST :: HTTPRESTClient
  Agent :: GRPCAgentClient

definition NewDefaultClients :: "HttpClient option \<Rightarrow> string list \<Rightarrow> Clients" where
  \<comment> \<open>\<open>None\<close> is a nil client\<close>
  "NewDefaultClients httpClient allowedHosts =
     (let httpClient = (case httpClient of None \<Rightarrow> NewSecureHTTPClient | Some c \<Rightarrow> c) in
      \<lparr>REST = \<lparr>HTTP = httpClient, AllowedHosts = NormalizeAPIHosts allowedHosts\<rparr>,
       Agent = \<lparr>DialTimeout = 0, CallTimeout = 0\<rparr>\<rparr>)"

section \<open>An enabled environment on disk\<close>

text \<open>The package \<open>environment\<close> of the zrok module is a parameter: its answers, given the calls so far.\<close>

record EnvironmentRecord =
  AccountToken :: string
  ZitiIdentity :: string
  ApiEndpoint :: string

datatype 'root root_event =
    SetRootDirName string
  | LoadRoot "string + 'root"
  | SetEnvironment 'root EnvironmentRecord "string option"
  | SaveZitiIdentityNamed 'root string string "string option"

record 'root environment_api =
  apiLoadRoot :: "'root root_event list \<Rightarrow> string + 'root"
  apiSetEnvironment :: "'root root_event list \<Rightarrow> 'root \<Rightarrow> EnvironmentRecord \<Rightarrow> string option"
  apiEnvironmentIdentityName :: "'root \<Rightarrow> string"
  apiSaveZitiIdentityNamed :: "'root root_event list \<Rightarrow> 'root \<Rightarrow> string \<Rightarrow> string \<Rightarrow> string option"

definition PersistEnabledEnvironment ::
  "'root environment_api \<Rightarrow> string \<Rightarrow> string \<Rightarrow> string \<Rightarrow> string \<Rightarrow> string
     \<Rightarrow> ('root root_event, string option) prog" where
  "PersistEnabledEnvironment E rootDir apiEndpoint accountToken envZID zitiCfg = do {
     emit (SetRootDirName rootDir);
     r \<leftarrow> perform (apiLoadRoot E) LoadRoot;
     case r of
       Inl e \<Rightarrow> ret (Some e)
     | Inr root \<Rightarrow>
         (let endpoint = (if apiEndpoint = [] then DefaultAPIEndpoint else apiEndpoint);
              env = \<lparr>AccountToken = accountToken, ZitiIdentity = envZID, ApiEndpoint = endpoint\<rparr>
          in do {
            e \<leftarrow> perform (\<lambda>h. apiSetEnvironment E h root env) (SetEnvironment root env);
            case e of
              Some e \<Rightarrow> ret (Some e)
            | None \<Rightarrow>
                (let name = apiEnvironmentIdentityName E root in
                 perform (\<lambda>h. apiSaveZitiIdentityNamed E h root name zitiCfg)
                   (SaveZitiIdentityNamed root name zitiCfg)) }) }"

text \<open>The identity is saved only after the environment it belongs to was stored, and no error is lost.\<close>

definition stored_first :: "string \<Rightarrow> string \<Rightarrow> 'root root_event list \<Rightarrow> 'root root_event \<Rightarrow> bool" where
  "stored_first token zid before ev \<longleftrightarrow>
     (case ev of
        SaveZitiIdentityNamed root n c e \<Rightarrow>
          \<exists>env. SetEnvironment root env None \<in> set before \<and> AccountToken env = token
            \<and> ZitiIdentity env = zid \<and> ApiEndpoint env \<noteq> []
      | _ \<Rightarrow> True)"

lemma PersistEnabledEnvironment_ordered:
  "gwp (stored_first token zid)
     (PersistEnabledEnvironment E dir ep token zid cfg) any_end h"
  unfolding PersistEnabledEnvironment_def Let_def
  by (intro gwp_bind gwp_intros)
     (auto simp: stored_first_def DefaultAPIEndpoint_def)

theorem identity_saved_after_its_environment:
  "guarded (stored_first token zid) (trace_of (PersistEnabledEnvironment E dir ep token zid cfg))"
  by (rule gwp_trace [OF PersistEnabledEnvironment_ordered])

section \<open>Hosts that are normalised twice\<close>

text \<open>
  \<open>NewDefaultClients\<close> keeps the normalised list, and \<open>ValidateAPIEndpoint\<close> normalises what it is
  given again. That is harmless for hosts without a slash, but not for all: what is below the
  prefix \<open>http://\<close> may start with another prefix, and trimming slashes can uncover blanks.
\<close>

lemma lower_char_neq:
  "lower_char c = CHR ''/'' \<longleftrightarrow> c = CHR ''/''" "is_space (lower_char c) \<longleftrightarrow> is_space c"
  by (auto simp: lower_char_def is_space_def of_char_of dest!: arg_cong [of "char_of _" _ "of_char :: _ \<Rightarrow> nat"]
      split: if_splits)

lemma dropWhile_space_lower: "dropWhile is_space (map lower_char s) = map lower_char (dropWhile is_space s)"
  by (induction s) (simp_all add: lower_char_neq)

lemma TrimSpace_ToLower: "TrimSpace (ToLower s) = ToLower (TrimSpace s)"
  by (simp add: TrimSpace_def ToLower_def dropWhile_space_lower rev_map)

lemma TrimPrefix_slash: "CHR ''/'' \<notin> set s \<Longrightarrow> CHR ''/'' \<in> set p \<Longrightarrow> TrimPrefix s p = s"
  unfolding TrimPrefix_def HasPrefix_def by (metis in_set_takeD)

lemma TrimRightByte_notin: "c \<notin> set s \<Longrightarrow> TrimRightByte s c = s"
  by (cases s rule: rev_cases) (auto simp: TrimRightByte_def)

lemma normalize_host_bare:
  assumes "CHR ''/'' \<notin> set h"
  shows "normalize_host h = ToLower (TrimSpace h)"
proof -
  have "CHR ''/'' \<notin> set (TrimSpace h)" using assms by (auto simp: TrimSpace_def dest!: set_dropWhileD)
  then have s: "CHR ''/'' \<notin> set (ToLower (TrimSpace h))"
    by (auto simp: ToLower_def lower_char_neq dest!: sym [of "CHR ''/''"])
  show ?thesis by (simp add: normalize_host_def Let_def TrimPrefix_slash [OF s] TrimRightByte_notin [OF s])
qed

lemma normalize_host_twice: "CHR ''/'' \<notin> set h \<Longrightarrow> normalize_host (normalize_host h) = normalize_host h"
proof -
  assume s: "CHR ''/'' \<notin> set h"
  then have "CHR ''/'' \<notin> set (ToLower (TrimSpace h))"
    by (auto simp: ToLower_def TrimSpace_def lower_char_neq dest!: sym [of "CHR ''/''"] set_dropWhileD)
  then show ?thesis by (simp add: normalize_host_bare s TrimSpace_ToLower)
qed

lemma normalize_default_host: "normalize_host DefaultAPIHost = DefaultAPIHost"
  using plain_ToLower [OF default_host_plain]
  by (simp add: normalize_host_bare DefaultAPIHost_eq) (simp add: TrimSpace_def is_space_def ToLower_def lower_char_def)

lemma AllowedHosts_NewDefaultClients [simp]:
  "AllowedHosts (REST (NewDefaultClients c hosts)) = NormalizeAPIHosts hosts"
  by (simp add: NewDefaultClients_def Let_def)

lemma default_clients_accept_iff:
  assumes "\<forall>h \<in> set hosts. CHR ''/'' \<notin> set h"
  shows "ValidateAPIEndpoint ep (AllowedHosts (REST (NewDefaultClients c hosts))) = ValidateAPIEndpoint ep hosts"
proof -
  define N where "N = normalize_host ` set hosts - {[]}"
  have "normalize_host x = x" if "x \<in> N" for x using that assms by (auto simp: N_def normalize_host_twice)
  then have twice: "normalize_host ` N = N" by simp
  have once: "set (NormalizeAPIHosts hosts) = insert DefaultAPIHost N"
    by (simp add: set_NormalizeAPIHosts N_def)
  have "set (NormalizeAPIHosts (NormalizeAPIHosts hosts)) = insert DefaultAPIHost N"
    unfolding set_NormalizeAPIHosts(1) [of "NormalizeAPIHosts hosts"] once
    by (auto simp: normalize_default_host twice) (simp add: N_def)
  then have "list_ex P (NormalizeAPIHosts (NormalizeAPIHosts hosts)) = list_ex P (NormalizeAPIHosts hosts)" for P
    by (simp only: list_ex_iff once)
  then show ?thesis by (simp only: ValidateAPIEndpoint_def AllowedHosts_NewDefaultClients)
qed

lemma normalize_host_twice_differs:
  "normalize_host (normalize_host ''http://https://a.example'') \<noteq> normalize_host ''http://https://a.example''"
  by (simp add: normalize_host_def Let_def ToLower_def lower_char_def TrimSpace_def is_space_def
      TrimPrefix_def HasPrefix_def TrimRightByte_def)

end
