(* ===== verification/Command.thy ===== *)
theory Command
  imports EnvReconcile Clients
begin

text \<open>
  \<open>cmd/main.go\<close> and \<open>internal/build/version.go\<close>: the list-valued flags, the revision shown by
  \<open>--version\<close>, and the start of the manager: which steps are taken, in which order, and what
  ends the process. Building the manager and its servers is the library's.
\<close>

section \<open>List-valued flags\<close>

definition stringList_String :: "string list \<Rightarrow> string" where
  "stringList_String s = Join s '',''"

fun stringList_add :: "string list \<Rightarrow> string list \<Rightarrow> string list" where
  \<comment> \<open>the loop over \<open>strings.SplitSeq(v, ",")\<close>\<close>
  "stringList_add s [] = s"
| "stringList_add s (p0 # ps) =
     (let p = TrimSpace p0 in if p \<noteq> [] then stringList_add (s @ [p]) ps else stringList_add s ps)"

definition stringList_Set :: "string list \<Rightarrow> string \<Rightarrow> string list" where
  "stringList_Set s v = stringList_add s (SplitByte v (CHR '',''))"

section \<open>The revision\<close>

record BuildSetting =
  bsKey :: string
  bsValue :: string

fun vcs_settings :: "string \<Rightarrow> string \<Rightarrow> BuildSetting list \<Rightarrow> string \<times> string" where
  \<comment> \<open>the loop: \<open>rev\<close> and \<open>modified\<close>\<close>
  "vcs_settings rv modified [] = (rv, modified)"
| "vcs_settings rv modified (s # ss) =
     (if bsKey s = ''vcs.revision'' then vcs_settings (bsValue s) modified ss
      else if bsKey s = ''vcs.modified'' then vcs_settings rv (bsValue s) ss
      else vcs_settings rv modified ss)"

definition revisionFromSettings :: "BuildSetting list \<Rightarrow> string" where
  "revisionFromSettings settings =
     (case vcs_settings [] [] settings of (rv, modified) \<Rightarrow>
        if rv = [] then ''none''
        else let rv = (if length rv > 7 then take 7 rv else rv) in
          if modified = ''true'' then rv @ ''-dirty'' else rv)"

definition vcsRevision :: "BuildSetting list option \<Rightarrow> string" where
  \<comment> \<open>on the result of \<open>debug.ReadBuildInfo\<close>\<close>
  "vcsRevision bi = (case bi of None \<Rightarrow> ''none'' | Some settings \<Rightarrow> revisionFromSettings settings)"

record BuildInfo =
  \<comment> \<open>the variables of the package, which the linker may set\<close>
  Version :: string
  GitRevision :: string
  Date :: string

definition unstamped_build :: BuildInfo where
  "unstamped_build = \<lparr>Version = ''dev'', GitRevision = [], Date = ''unknown''\<rparr>"

definition build_init :: "BuildSetting list option \<Rightarrow> BuildInfo \<Rightarrow> BuildInfo" where
  \<comment> \<open>\<open>init\<close> of the package\<close>
  "build_init bi b = (if GitRevision b = [] then b\<lparr>GitRevision := vcsRevision bi\<rparr> else b)"

definition version_line :: "BuildInfo \<Rightarrow> string" where
  \<comment> \<open>what \<open>--version\<close> prints\<close>
  "version_line b = Version b @ '' ('' @ GitRevision b @ '') '' @ Date b @ [CHR 0x0A]"

section \<open>Start-up\<close>

record Flags =
  metricsAddr :: string
  metricsCertPath :: string
  metricsCertName :: string
  metricsCertKey :: string
  enableLeaderElection :: bool
  probeAddr :: string
  secureMetrics :: bool
  enableHTTP2 :: bool
  printVersion :: bool
  agentNetworkPolicy :: bool
  restrictUpstream :: bool
  managerNamespace :: string
  managerAppName :: string
  allowedAPIHosts :: "string list"
  allowedAgentImages :: "string list"

definition default_flags :: "string \<Rightarrow> Flags" where
  \<comment> \<open>the defaults, given \<open>POD_NAMESPACE\<close>\<close>
  "default_flags podNamespace =
     \<lparr>metricsAddr = ''0'', metricsCertPath = [], metricsCertName = ''tls.crt'',
      metricsCertKey = ''tls.key'', enableLeaderElection = False, probeAddr = '':8081'',
      secureMetrics = True, enableHTTP2 = False, printVersion = False, agentNetworkPolicy = False,
      restrictUpstream = False, managerNamespace = podNamespace,
      managerAppName = ''zrok-operator'', allowedAPIHosts = [], allowedAgentImages = []\<rparr>"

datatype tls_option = DisableHTTP2 | CertFromWatcher

record MetricsOptions =
  BindAddress :: string
  SecureServing :: bool
  Authenticated :: bool \<comment> \<open>\<open>WithAuthenticationAndAuthorization\<close> is set\<close>
  TLSOpts :: "tls_option list"

definition metrics_options :: "Flags \<Rightarrow> MetricsOptions" where
  "metrics_options f =
     \<lparr>BindAddress = metricsAddr f, SecureServing = secureMetrics f, Authenticated = secureMetrics f,
      TLSOpts = (if \<not> enableHTTP2 f then [DisableHTTP2] else [])
                @ (if metricsCertPath f \<noteq> [] then [CertFromWatcher] else [])\<rparr>"

definition env_config :: "Flags \<Rightarrow> EnvConfig" where
  \<comment> \<open>the fields of the environment reconciler\<close>
  "env_config f =
     \<lparr>ManagerNamespace = managerNamespace f, ManagerAppName = managerAppName f,
      AgentNetworkPolicy = agentNetworkPolicy f, AllowedAgentImages = allowedAgentImages f\<rparr>"

datatype startup_step =
    RegisterScheme string \<comment> \<open>the \<open>AddToScheme\<close> of a package, in \<open>init\<close>\<close>
  | NewCertWatcher "string list" "string list" \<comment> \<open>certificate and key, as what \<open>filepath.Join\<close> gets\<close>
  | NewManager MetricsOptions string bool string \<comment> \<open>metrics, probe address, leader election and its id\<close>
  | SetupEnvironment EnvConfig Clients
  | SetupShare bool Clients
  | SetupAccess Clients
  | SetupIngress
  | AddCertWatcher
  | AddHealthz
  | AddReadyz
  | StartManager

definition startup_steps :: "Flags \<Rightarrow> startup_step list" where
  "startup_steps f =
     (let watch = metricsCertPath f \<noteq> [];
          zrokClients = NewDefaultClients None (allowedAPIHosts f) in
      (if watch
       then [NewCertWatcher [metricsCertPath f, metricsCertName f] [metricsCertPath f, metricsCertKey f]]
       else [])
      @ [NewManager (metrics_options f) (probeAddr f) (enableLeaderElection f) ''f22d3959.k8s.zrok.io'',
         SetupEnvironment (env_config f) zrokClients, SetupShare (restrictUpstream f) zrokClients,
         SetupAccess zrokClients, SetupIngress]
      @ (if watch then [AddCertWatcher] else [])
      @ [AddHealthz, AddReadyz, StartManager])"

datatype main_end =
    Exit int \<comment> \<open>\<open>os.Exit\<close>\<close>
  | Panicked \<comment> \<open>\<open>utilruntime.Must\<close> in \<open>init\<close>\<close>
  | Returned \<comment> \<open>\<open>mgr.Start\<close> came back without an error\<close>

fun run_steps :: "(startup_step \<Rightarrow> bool) \<Rightarrow> startup_step list \<Rightarrow> startup_step list \<times> main_end" where
  \<comment> \<open>the steps taken; a step that fails ends the process\<close>
  "run_steps fails [] = ([], Returned)"
| "run_steps fails (s # ss) =
     (if fails s then ([s], Exit 1)
      else case run_steps fails ss of (taken, r) \<Rightarrow> (s # taken, r))"

definition main_run :: "(startup_step \<Rightarrow> bool) \<Rightarrow> Flags \<Rightarrow> startup_step list \<times> main_end" where
  "main_run fails f =
     (if printVersion f then ([], Exit 0)
      else if agentNetworkPolicy f \<and> managerNamespace f = [] then ([], Exit 1)
      else run_steps fails (startup_steps f))"

fun init_steps :: "(startup_step \<Rightarrow> bool) \<Rightarrow> string list \<Rightarrow> startup_step list \<times> bool" where
  \<comment> \<open>the packages registered, and whether all calls of \<open>Must\<close> went through\<close>
  "init_steps fails [] = ([], True)"
| "init_steps fails (p # ps) =
     (if fails (RegisterScheme p) then ([RegisterScheme p], False)
      else case init_steps fails ps of (taken, ok) \<Rightarrow> (RegisterScheme p # taken, ok))"

definition schemes :: "string list" where
  "schemes = [''clientgoscheme'', ''zrokv1alpha1'']"

definition process_run :: "(startup_step \<Rightarrow> bool) \<Rightarrow> Flags \<Rightarrow> startup_step list \<times> main_end" where
  \<comment> \<open>\<open>init\<close>, then \<open>main\<close>\<close>
  "process_run fails f =
     (case init_steps fails schemes of
        (taken, False) \<Rightarrow> (taken, Panicked)
      | (taken, True) \<Rightarrow> (case main_run fails f of (steps, r) \<Rightarrow> (taken @ steps, r)))"

section \<open>Facts\<close>

definition flag_value :: "string \<Rightarrow> bool" where
  \<comment> \<open>what the loop appends: trimmed, not empty, without a comma\<close>
  "flag_value p \<longleftrightarrow> p \<noteq> [] \<and> TrimSpace p = p \<and> CHR '','' \<notin> set p"

lemma stringList_add_eq: "stringList_add s ps = s @ filter (\<lambda>p. p \<noteq> []) (map TrimSpace ps)"
  by (induction s ps rule: stringList_add.induct) (auto simp: Let_def)

lemma set_TrimSpace: "set (TrimSpace s) \<subseteq> set s"
  by (auto simp: TrimSpace_def dest!: set_dropWhileD)

lemma stringList_Set_values:
  "list_all flag_value s \<Longrightarrow> list_all flag_value (stringList_Set s v)"
proof -
  assume s: "list_all flag_value s"
  have "flag_value (TrimSpace p)" if "p \<in> set (SplitByte v (CHR '',''))" "TrimSpace p \<noteq> []" for p
  proof -
    have "CHR '','' \<notin> set (TrimSpace p)" using SplitByte_no_sep [OF that(1)] set_TrimSpace by blast
    then show ?thesis using that(2) by (simp add: flag_value_def)
  qed
  then show ?thesis using s by (auto simp: stringList_Set_def stringList_add_eq list_all_iff)
qed

lemma run_steps_complete:
  "s \<in> set (fst (run_steps fails (ss @ [s]))) \<Longrightarrow> s \<notin> set ss \<Longrightarrow>
   fst (run_steps fails (ss @ [s])) = ss @ [s] \<and> list_all (\<lambda>x. \<not> fails x) ss"
  by (induction ss) (simp_all split: prod.splits if_splits)

lemma startup_steps_last:
  "startup_steps f = butlast (startup_steps f) @ [StartManager]" "StartManager \<notin> set (butlast (startup_steps f))"
  by (simp_all add: startup_steps_def Let_def)

lemma init_steps_taken:
  "init_steps fails ps = (taken, ok) \<Longrightarrow>
   StartManager \<notin> set taken
   \<and> (ok \<longrightarrow> taken = map RegisterScheme ps \<and> list_all (\<lambda>p. \<not> fails (RegisterScheme p)) ps)"
  by (induction ps arbitrary: taken ok) (auto split: if_splits prod.splits)

lemma vcs_settings_append:
  "vcs_settings a b (xs @ ys) = (case vcs_settings a b xs of (c, d) \<Rightarrow> vcs_settings c d ys)"
  by (induction a b xs rule: vcs_settings.induct) auto

lemma set_stringList_Set:
  "set (stringList_Set s v) = set s \<union> (TrimSpace ` set (SplitByte v (CHR '','')) - {[]})"
  by (auto simp: stringList_Set_def stringList_add_eq)

definition listed :: "string list \<Rightarrow> string set" where
  \<comment> \<open>the values between the commas of the texts given for a flag\<close>
  "listed vs = (\<Union>v \<in> set vs. TrimSpace ` set (SplitByte v (CHR '',''))) - {[]}"

lemma set_flag: "set (fold (\<lambda>v s. stringList_Set s v) vs s) = set s \<union> listed vs"
  by (induction vs arbitrary: s) (auto simp: set_stringList_Set listed_def)

lemma GitRevision_set: "GitRevision (build_init bi b) \<noteq> []"
  by (auto simp: build_init_def vcsRevision_def revisionFromSettings_def Let_def split: option.split prod.split)

section \<open>Properties\<close>

text \<open>Printing a list-valued flag and setting it again gives the same list, for lists of values
  that the flag can hold.\<close>

theorem flag_list_roundtrip:
  assumes "list_all flag_value xs"
  shows "stringList_Set [] (stringList_String xs) = xs"
proof (cases "xs = []")
  case True
  then show ?thesis by (simp add: stringList_Set_def stringList_String_def stringList_add_eq TrimSpace_def)
next
  case False
  have "SplitByte (Join xs '','') (CHR '','') = xs"
    using False assms by (intro SplitByte_Join) (auto simp: list_all_iff flag_value_def)
  moreover have "map TrimSpace xs = xs" and "filter (\<lambda>p. p \<noteq> []) xs = xs"
    using assms by (induction xs) (auto simp: flag_value_def)
  ultimately show ?thesis
    by (simp add: stringList_Set_def stringList_String_def stringList_add_eq)
qed

lemma flag_list_roundtrip_witness:
  "stringList_Set [] (stringList_String [''a.example'', ''b.example:8443'']) = [''a.example'', ''b.example:8443'']"
  by (rule flag_list_roundtrip) (simp add: flag_value_def TrimSpace_def is_space_def)

text \<open>However often and with whatever texts a list-valued flag is given, the values it holds are
  trimmed, not empty and without commas.\<close>

theorem flag_list_values:
  "list_all flag_value (fold (\<lambda>v s. stringList_Set s v) vs [])"
proof -
  have "list_all flag_value s \<Longrightarrow> list_all flag_value (fold (\<lambda>v s. stringList_Set s v) vs s)" for s
    by (induction vs arbitrary: s) (simp_all add: stringList_Set_values)
  then show ?thesis by simp
qed

text \<open>C39: The manager is started only at the end of the whole set-up, the registration of the schemes
  included, each step of which has succeeded, and never with agent network policies but without
  the manager's namespace.\<close>

theorem manager_starts_only_when_set_up:
  assumes "StartManager \<in> set (fst (process_run fails f))"
  shows "fst (process_run fails f) = map RegisterScheme schemes @ startup_steps f
     \<and> list_all (\<lambda>s. \<not> fails s) (map RegisterScheme schemes @ butlast (startup_steps f))
     \<and> (managerNamespace f \<noteq> [] \<or> \<not> AgentNetworkPolicy (env_config f))"
proof -
  obtain taken ok where i: "init_steps fails schemes = (taken, ok)" by force
  note init = init_steps_taken [OF i]
  then have ok: "ok" and main: "StartManager \<in> set (fst (main_run fails f))"
    using assms by (auto simp: process_run_def i split: bool.splits prod.splits)
  have m: "main_run fails f = run_steps fails (startup_steps f)"
    and c: "managerNamespace f \<noteq> [] \<or> \<not> agentNetworkPolicy f"
    using main by (auto simp: main_run_def split: if_splits)
  have "fst (main_run fails f) = startup_steps f \<and> list_all (\<lambda>s. \<not> fails s) (butlast (startup_steps f))"
    using run_steps_complete [of StartManager fails "butlast (startup_steps f)"] main
      startup_steps_last [of f] by (simp add: m)
  then show ?thesis
    using init ok c by (auto simp: process_run_def i env_config_def list_all_iff split: prod.splits)
qed

lemma manager_starts_only_when_set_up_witness:
  "fst (process_run (\<lambda>_. False) (default_flags ''zrok'')) = map RegisterScheme schemes @ startup_steps (default_flags ''zrok'')"
  using manager_starts_only_when_set_up [of "\<lambda>_. False" "default_flags ''zrok''"]
  by (simp add: process_run_def schemes_def main_run_def default_flags_def startup_steps_def Let_def)

definition last_value :: "string \<Rightarrow> BuildSetting list \<Rightarrow> string" where
  \<comment> \<open>the value of the last setting of a key\<close>
  "last_value k ss =
     (let xs = filter (\<lambda>s. bsKey s = k) ss in if xs = [] then [] else bsValue (last xs))"

lemma last_value_simps [simp]:
  "last_value k [] = []"
  "last_value k (ss @ [s]) = (if bsKey s = k then bsValue s else last_value k ss)"
  by (simp_all add: last_value_def)

lemma vcs_settings_last: "vcs_settings [] [] ss = (last_value ''vcs.revision'' ss, last_value ''vcs.modified'' ss)"
proof (induction ss rule: rev_induct)
  case Nil
  then show ?case by simp
next
  case (snoc s ss)
  then show ?case by (simp add: vcs_settings_append)
qed

text \<open>The revision is the first seven characters of the last recorded VCS revision, marked
  \<open>-dirty\<close> when the last record says that the tree was modified, and \<open>none\<close> without a revision;
  so it has one to thirteen characters.\<close>

theorem revision_is_last_commit:
  "revisionFromSettings ss =
     (if last_value ''vcs.revision'' ss = [] then ''none''
      else take 7 (last_value ''vcs.revision'' ss)
           @ (if last_value ''vcs.modified'' ss = ''true'' then ''-dirty'' else []))
   \<and> length (revisionFromSettings ss) \<in> {1..13}"
proof -
  have eq: "revisionFromSettings ss =
     (if last_value ''vcs.revision'' ss = [] then ''none''
      else take 7 (last_value ''vcs.revision'' ss)
           @ (if last_value ''vcs.modified'' ss = ''true'' then ''-dirty'' else []))"
    by (simp add: revisionFromSettings_def vcs_settings_last Let_def)
  show ?thesis
    unfolding eq by (cases "last_value ''vcs.revision'' ss") (auto simp: min_def)
qed

section \<open>From the flags to the requests\<close>

fun clients_of :: "startup_step \<Rightarrow> Clients option" where
  "clients_of (SetupEnvironment _ z) = Some z"
| "clients_of (SetupShare _ z) = Some z"
| "clients_of (SetupAccess z) = Some z"
| "clients_of _ = None"

lemma run_steps_subset: "set (fst (run_steps fails ss)) \<subseteq> set ss"
  by (induction ss) (auto split: prod.splits)

lemma process_run_clients:
  assumes "s \<in> set (fst (process_run fails f))" and "clients_of s = Some z"
  shows "z = NewDefaultClients None (allowedAPIHosts f)"
proof -
  obtain taken ok where i: "init_steps fails schemes = (taken, ok)" by force
  have "set (fst (init_steps fails ps)) \<subseteq> range RegisterScheme" for ps
    by (induction ps) (auto split: prod.splits)
  then have "set taken \<subseteq> range RegisterScheme" using i by (metis fst_conv)
  then have "s \<notin> set taken" using assms(2) by auto
  then have "s \<in> set (fst (main_run fails f))"
    using assms(1) by (auto simp: process_run_def i split: prod.splits bool.splits)
  then have "s \<in> set (startup_steps f)"
    using run_steps_subset [of fails "startup_steps f"] by (auto simp: main_run_def split: if_splits)
  then show ?thesis using assms(2) by (auto simp: startup_steps_def Let_def split: if_splits)
qed

lemma SplitByte_subset: "p \<in> set (SplitByte s c) \<Longrightarrow> set p \<subseteq> set s"
proof (induction s arbitrary: p)
  case (Cons x s)
  obtain q qs where "SplitByte s c = q # qs" using SplitByte_ne by (cases "SplitByte s c") auto
  then show ?case using Cons.prems Cons.IH [of q] Cons.IH [of p] by (auto split: if_splits)
qed simp

lemma listed_no_slash:
  assumes "\<forall>v \<in> set vs. CHR ''/'' \<notin> set v" and "h \<in> listed vs"
  shows "CHR ''/'' \<notin> set h" and "TrimSpace h = h"
  using assms set_TrimSpace SplitByte_subset by (fastforce simp: listed_def)+

lemma flag_hosts_accept_iff:
  assumes "\<forall>v \<in> set vs. CHR ''/'' \<notin> set v" and "set hosts = listed vs"
  shows "ValidateAPIEndpoint ep (AllowedHosts (REST (NewDefaultClients c hosts))) = None \<longleftrightarrow>
    (\<exists>u. url_Parse (effective_endpoint ep) = Inr u \<and> uScheme u = schemeHTTPS \<and> uUser u = None
      \<and> Hostname u \<noteq> [] \<and> \<not> blockedHost (ToLower (Hostname u))
      \<and> (\<exists>a \<in> insert DefaultAPIHost (ToLower ` listed vs). a = host_key u \<or> a = ToLower (Hostname u)))"
proof -
  have "normalize_host h = ToLower h" if "h \<in> listed vs" for h
    using listed_no_slash [OF assms(1) that] by (simp add: normalize_host_bare)
  then have img: "normalize_host ` set hosts = ToLower ` listed vs" by (auto simp: assms(2))
  have "\<forall>h \<in> set hosts. CHR ''/'' \<notin> set h" using listed_no_slash(1) [OF assms(1)] by (simp add: assms(2))
  then show ?thesis
    by (simp only: default_clients_accept_iff ValidateAPIEndpoint_iff img)
qed

text \<open>C14: From the command line to the wire: every reconciler that the manager sets up, however far it gets, has
  a REST client that follows redirects by \<open>CheckRedirect\<close>, and that accepts exactly those
  endpoints whose effective form (trimmed, the public controller when empty) parses as an https
  URL without user information, with a host that is not blocked and that is the public
  controller's or, in lower case, one of the values given for \<open>--api-endpoint-allowlist\<close>, with its port
  or without. The values must not contain slashes: hosts, not URLs.\<close>

theorem manager_accepts_listed_endpoints:
  assumes "s \<in> set (fst (process_run fails f))" and "clients_of s = Some z"
    and "allowedAPIHosts f = fold (\<lambda>v s. stringList_Set s v) vs []"
    and "\<forall>v \<in> set vs. CHR ''/'' \<notin> set v"
  shows "clCheckRedirect (HTTP (REST z)) = CheckRedirect
    \<and> (ValidateAPIEndpoint ep (AllowedHosts (REST z)) = None \<longleftrightarrow>
    (\<exists>u. url_Parse (effective_endpoint ep) = Inr u \<and> uScheme u = schemeHTTPS \<and> uUser u = None
      \<and> Hostname u \<noteq> [] \<and> \<not> blockedHost (ToLower (Hostname u))
      \<and> (\<exists>a \<in> insert DefaultAPIHost (ToLower ` listed vs). a = host_key u \<or> a = ToLower (Hostname u))))"
proof -
  have z: "z = NewDefaultClients None (allowedAPIHosts f)" by (rule process_run_clients [OF assms(1,2)])
  have "set (allowedAPIHosts f) = listed vs" by (simp add: assms(3) set_flag)
  then show ?thesis
    unfolding z using flag_hosts_accept_iff [OF assms(4)]
    by (simp add: NewDefaultClients_def NewSecureHTTPClient_def Let_def)
qed

definition example_flags :: Flags where
  "example_flags = (default_flags ''zrok'')
     \<lparr>allowedAPIHosts := stringList_Set [] '' Zrok.Example, b.example:8443''\<rparr>"

lemma manager_accepts_listed_endpoints_witness:
  "ValidateAPIEndpoint ''https://zrok.example''
     (AllowedHosts (REST (NewDefaultClients None (allowedAPIHosts example_flags)))) = None"
proof -
  let ?s = "SetupAccess (NewDefaultClients None (allowedAPIHosts example_flags))"
  let ?u = "plain_url ''https'' ''zrok.example'' [] []"
  have s: "?s \<in> set (fst (process_run (\<lambda>_. False) example_flags))"
    by (simp add: process_run_def schemes_def main_run_def example_flags_def default_flags_def startup_steps_def Let_def)
  have flags: "allowedAPIHosts example_flags = fold (\<lambda>v s. stringList_Set s v) ['' Zrok.Example, b.example:8443''] []"
    by (simp add: example_flags_def)
  have pl: "plain ''zrok.example''" by (simp add: plain_char_def is_digit_def)
  have h: "Hostname ?u = ''zrok.example''" by (rule Hostname_plain(1) [OF pl]) simp
  have parse: "url_Parse (effective_endpoint ''https://zrok.example'') = Inr ?u"
    using url_Parse_plain [OF pl, of "[]" "[]" "''https''"]
    by (simp add: port_suffix_def plain_path_def effective_endpoint_def TrimSpace_def TrimRightByte_def is_space_def)
  have "parse_ipv4_fields ''zrok.example'' = None"
    by (simp add: parse_ipv4_fields_def split: option.split)
  then have "\<not> blockedHost ''zrok.example''"
    by (simp add: ParseIP_def blockedHost_def HasSuffix_def HasPrefix_def)
  moreover have "''zrok.example'' \<in> ToLower ` listed ['' Zrok.Example, b.example:8443'']"
    by (rule image_eqI [of _ _ "''Zrok.Example''"], code_simp)
       (simp add: listed_def TrimSpace_def is_space_def)
  moreover have "ToLower (Hostname ?u) = ''zrok.example''" using plain_ToLower [OF pl] h by simp
  moreover have "uScheme ?u = schemeHTTPS" "uUser ?u = None" by (simp_all add: plain_url_def empty_url_def)
  ultimately show ?thesis
    using manager_accepts_listed_endpoints [OF s _ flags, of _ "''https://zrok.example''"] parse h by auto
qed

end
