(* ===== verification/StatusPatching.thy ===== *)
theory StatusPatching
  imports Lab
begin

text \<open>
  What \<open>PatchStatus\<close> guarantees its callers: success means that the server accepted one patch, the
  last, with the mutation of the object as it was just read; an error means that it accepted none;
  and the number of attempts is bounded.
\<close>

section \<open>Outcomes\<close>

definition gets :: "event list \<Rightarrow> nat" where
  \<comment> \<open>the number of attempts: each starts with a read\<close>
  "gets es = length (filter (\<lambda>e. case e of Get kd k r \<Rightarrow> True | _ \<Rightarrow> False) es)"

lemma gets_simps [simp]:
  "gets [] = 0" "gets (xs @ ys) = gets xs + gets ys" "gets (Get kd k r # es) = Suc (gets es)"
  "gets (StatusPatch b obj r # es) = gets es"
  by (simp_all add: gets_def)

fun refused :: "event \<Rightarrow> bool" where
  \<comment> \<open>not an accepted status patch\<close>
  "refused (StatusPatch before obj (Inr obj')) = False"
| "refused e = True"

definition accepted :: "okind \<Rightarrow> ('o \<Rightarrow> object) \<Rightarrow> 'o mutation \<Rightarrow> 'o \<Rightarrow> event list \<Rightarrow> bool" where
  \<comment> \<open>the last two events: a read, and the accepted patch of what the mutation made of it\<close>
  "accepted kd wrap mutate obj' es \<longleftrightarrow>
     (\<exists>pre k t before obj. mutate t before = (None, obj) \<and> list_all refused pre \<and>
        es = pre @ [Get kd k (Inr (wrap before)), StatusPatch (wrap before) (wrap obj) (Inr (wrap obj'))])"

definition patch_outcome ::
  "okind \<Rightarrow> ('o \<Rightarrow> object) \<Rightarrow> 'o mutation \<Rightarrow> nat \<Rightarrow> go_error option \<times> 'o \<Rightarrow> event list \<Rightarrow> bool" where
  "patch_outcome kd wrap mutate attempts x es \<longleftrightarrow>
     gets es \<le> attempts \<and> length es \<le> 2 * gets es \<and>
     (case x of
        (None, obj') \<Rightarrow> accepted kd wrap mutate obj' es
      | (Some e, obj') \<Rightarrow> list_all refused es \<and> (IsConflict e \<longrightarrow> gets es = attempts))"

lemma accepted_append:
  "list_all refused es \<Longrightarrow> accepted kd wrap mutate obj' es' \<Longrightarrow> accepted kd wrap mutate obj' (es @ es')"
  unfolding accepted_def by (metis append_assoc list_all_append)

lemma patch_attempt_outcome:
  "yields (\<lambda>_. True) (patch_outcome kd wrap mutate 1) (patch_attempt A kd wrap c k mutate obj)"
  unfolding patch_attempt_def
proof (rule yields_bind [where R = "\<lambda>r es. es = [Get kd k (map_sum id wrap r)]"])
  show "yields (\<lambda>_. True) (\<lambda>r es. es = [Get kd k (map_sum id wrap r)]) (k8s_get kd wrap c k)"
    by (rule yields_k8s) auto
next
  fix r es assume es: "es = [Get kd k (map_sum id wrap r)]"
  show "yields (\<lambda>_. True) (\<lambda>x es'. patch_outcome kd wrap mutate 1 x (es @ es'))
      (case r of Inl e \<Rightarrow> ret (Some e, obj)
       | Inr before \<Rightarrow> consult (now A) \<bind> (\<lambda>t. case mutate t before of
           (None, obj') \<Rightarrow> k8s_status_patch wrap c before obj'
         | (Some e, obj') \<Rightarrow> ret (Some e, obj')))"
  proof (cases r)
    case (Inl e)
    then show ?thesis using es by (auto intro!: yields_return simp: patch_outcome_def)
  next
    case (Inr before)
    have "yields (\<lambda>_. True) (\<lambda>x es'. patch_outcome kd wrap mutate 1 x (es @ es'))
        (case mutate t before of (None, obj') \<Rightarrow> k8s_status_patch wrap c before obj'
         | (Some e, obj') \<Rightarrow> ret (Some e, obj'))" for t
    proof (cases "mutate t before")
      case (Pair err obj')
      show ?thesis
      proof (cases err)
        case None
        have "patch_outcome kd wrap mutate 1 (sent obj' q)
            (es @ [StatusPatch (wrap before) (wrap obj') (map_sum id wrap q)])" for q
        proof (cases q)
          case (Inl e)
          then show ?thesis using es by (simp add: patch_outcome_def)
        next
          case (Inr obj'')
          have "accepted kd wrap mutate obj''
              (es @ [StatusPatch (wrap before) (wrap obj') (map_sum id wrap q)])"
            using es Pair None Inr \<open>r = Inr before\<close> unfolding accepted_def
            by (intro exI [of _ "[]"] exI [of _ k] exI [of _ t] exI [of _ before] exI [of _ obj']) simp
          then show ?thesis using es Inr by (simp add: patch_outcome_def)
        qed
        then show ?thesis using Pair None by (auto intro!: yields_k8s)
      next
        case (Some e)
        then show ?thesis using Pair es by (auto intro!: yields_return simp: patch_outcome_def)
      qed
    qed
    then show ?thesis using Inr
      by (auto intro!: yields_bind [where R = "\<lambda>_ es. es = []"] yields_consult)
  qed
qed

lemma RetryOnConflict_outcome:
  assumes "\<And>obj. yields (\<lambda>_. True) (patch_outcome kd wrap mutate 1) (attempt obj)"
  shows "yields (\<lambda>_. True) (patch_outcome kd wrap mutate (Suc n)) (RetryOnConflict n attempt obj)"
proof (induction n arbitrary: obj)
  case 0
  then show ?case using assms by simp
next
  case (Suc n)
  have "yields (\<lambda>_. True) (\<lambda>y es'. patch_outcome kd wrap mutate (Suc (Suc n)) y (es @ es'))
      (case x of (err, obj') \<Rightarrow>
         case err of Some e \<Rightarrow> if IsConflict e then RetryOnConflict n attempt obj' else ret (Some e, obj')
         | None \<Rightarrow> ret (None, obj'))"
    if x: "patch_outcome kd wrap mutate 1 x es" for x es
  proof -
    obtain err obj' where [simp]: "x = (err, obj')" by (cases x)
    show ?thesis
    proof (cases "\<exists>e. err = Some e \<and> IsConflict e")
      case True
      then obtain e where e: "err = Some e" "IsConflict e" by blast
      have "yields (\<lambda>_. True) (\<lambda>y es'. patch_outcome kd wrap mutate (Suc (Suc n)) y (es @ es'))
          (RetryOnConflict n attempt obj')"
        by (rule yields_conseq [OF Suc.IH])
           (use x e in \<open>auto simp: patch_outcome_def accepted_append split: prod.splits option.splits\<close>)
      then show ?thesis using e by simp
    next
      case False
      then show ?thesis using x
        by (cases err) (auto intro!: yields_return simp: patch_outcome_def)
    qed
  qed
  then show ?case unfolding RetryOnConflict.simps by (rule yields_bind [OF assms])
qed

lemma PatchStatus_outcome:
  "yields (\<lambda>_. True) (patch_outcome kd wrap mutate (Suc (retrySteps A))) (PatchStatus A kd wrap c obj mutate)"
  unfolding PatchStatus_def by (intro RetryOnConflict_outcome patch_attempt_outcome)

section \<open>Properties\<close>

text \<open>C28: \<open>PatchStatus\<close> makes at most one attempt more than the retries it may make, each with at most
  one patch. It reports success only when the server accepted its last patch and no other, and
  that patch carried the mutation of the object as read immediately before; it reports an error
  only when the server accepted none, and a conflict only when all attempts are used up. (What the
  server does with a patch that was computed from an outdated read is another matter: it carries
  no resource version.)\<close>

theorem patch_status_outcome:
  "patch_outcome kd wrap mutate (Suc (retrySteps A))
     (result_of (PatchStatus A kd wrap c obj mutate)) (trace_of (PatchStatus A kd wrap c obj mutate))"
proof -
  obtain x es where "run_state (PatchStatus A kd wrap c obj mutate) [] = (x, [] @ es)"
      and "patch_outcome kd wrap mutate (Suc (retrySteps A)) x es"
    using yieldsE [OF PatchStatus_outcome] .
  then show ?thesis by (simp add: result_of_def trace_of_def)
qed

end
