(* ===== verification/Metrics.thy ===== *)
theory Metrics
  imports EnvRemote StatusPatching ShareReconcile
begin

text \<open>
  \<open>internal/metrics/metrics.go\<close> and \<open>internal/controller/indexes.go\<close>: the collectors as a state
  that the recorded updates change, and the index of shares and accesses by environment.
\<close>

section \<open>The collectors\<close>

record Registry =
  ShareReady :: "key \<rightharpoonup> nat" \<comment> \<open>the series of the gauge by namespace and name\<close>
  ShareReconcileErrors :: nat
  EnvironmentReady :: "key \<rightharpoonup> nat"
  EnvironmentReconcileErrors :: nat
  AccessReconcileErrors :: nat

definition new_registry :: Registry where
  "new_registry = \<lparr>ShareReady = Map.empty, ShareReconcileErrors = 0, EnvironmentReady = Map.empty,
     EnvironmentReconcileErrors = 0, AccessReconcileErrors = 0\<rparr>"

definition gauge_value :: "bool \<Rightarrow> nat" where
  "gauge_value ready = (let v = 0 in if ready then 1 else v)"

fun collect :: "event \<Rightarrow> Registry \<Rightarrow> Registry" where
  "collect (SetShareReady ns n ready) r = r\<lparr>ShareReady := (ShareReady r)((ns, n) \<mapsto> gauge_value ready)\<rparr>"
| "collect (DeleteShareReady ns n) r = r\<lparr>ShareReady := (ShareReady r)((ns, n) := None)\<rparr>"
| "collect (SetEnvironmentReady ns n ready) r =
     r\<lparr>EnvironmentReady := (EnvironmentReady r)((ns, n) \<mapsto> gauge_value ready)\<rparr>"
| "collect (DeleteEnvironmentReady ns n) r =
     r\<lparr>EnvironmentReady := (EnvironmentReady r)((ns, n) := None)\<rparr>"
| "collect ShareReconcileErrors_Inc r = r\<lparr>ShareReconcileErrors := Suc (ShareReconcileErrors r)\<rparr>"
| "collect EnvironmentReconcileErrors_Inc r =
     r\<lparr>EnvironmentReconcileErrors := Suc (EnvironmentReconcileErrors r)\<rparr>"
| "collect AccessReconcileErrors_Inc r = r\<lparr>AccessReconcileErrors := Suc (AccessReconcileErrors r)\<rparr>"
| "collect e r = r"

definition registry_after :: "event list \<Rightarrow> Registry" where
  "registry_after h = fold collect h new_registry"

section \<open>The environment index\<close>

definition indexByEnvironmentRef :: "object \<Rightarrow> string list" where
  "indexByEnvironmentRef obj =
     (case obj of
        ShareObj s \<Rightarrow> if shEnvironmentRef (ShareSpec s) = [] then [] else [shEnvironmentRef (ShareSpec s)]
      | AccessObj a \<Rightarrow> if acEnvironmentRef (AccessSpec a) = [] then [] else [acEnvironmentRef (AccessSpec a)]
      | _ \<Rightarrow> [])"

definition indexed :: "('o ObjectMeta_scheme \<Rightarrow> object) \<Rightarrow> selector \<Rightarrow> 'o ObjectMeta_scheme \<Rightarrow> bool" where
  \<comment> \<open>whether a list call with this selector returns an object, given the index\<close>
  "indexed wrap sel x =
     (case sel of
        AllNamespaces \<Rightarrow> True
      | InNamespace ns \<Rightarrow> Namespace x = ns
      | InNamespaceForEnv ns n \<Rightarrow> Namespace x = ns \<and> n \<in> set (indexByEnvironmentRef (wrap x)))"

section \<open>The environment gauge\<close>

text \<open>
  The collectors outlive a reconcile, so the gauge is judged from whatever it showed before. A
  report on the readiness of an environment is a status patch that the server accepted, from or
  to \<open>Ready\<close>.
\<close>

definition ready_confirmed :: "key \<Rightarrow> event list \<Rightarrow> bool" where
  "ready_confirmed k h \<longleftrightarrow>
     (\<exists>b a a'. StatusPatch (EnvObj b) (EnvObj a) (Inr (EnvObj a')) \<in> set h \<and> env_is_ready a
        \<and> object_key a' = k)"

fun ready_report :: "key \<Rightarrow> event \<Rightarrow> bool option" where
  "ready_report k (StatusPatch (EnvObj b) (EnvObj a) (Inr (EnvObj a'))) =
     (if object_key a' = k \<and> (env_is_ready a \<or> env_is_ready b) then Some (env_is_ready a) else None)"
| "ready_report k e = None"

definition last_report :: "key \<Rightarrow> event list \<Rightarrow> bool option" where
  "last_report k h = fold (\<lambda>e l. case ready_report k e of None \<Rightarrow> l | Some x \<Rightarrow> Some x) h None"

definition gauge_honest :: "event list \<Rightarrow> bool" where
  \<comment> \<open>the gauge is one at the end only if the last report was \<open>Ready\<close>, or there was none and it was one before\<close>
  "gauge_honest h \<longleftrightarrow>
     (\<forall>r k. EnvironmentReady (fold collect h r) k = Some 1 \<longrightarrow>
        last_report k h = Some True \<or> last_report k h = None \<and> EnvironmentReady r k = Some 1)"

definition honest :: "'a op \<Rightarrow> bool" where
  "honest m \<longleftrightarrow> yields (\<lambda>_. True) (\<lambda>_. gauge_honest) m"

lemma report_fold:
  "fold (\<lambda>e l. case ready_report k e of None \<Rightarrow> l | Some x \<Rightarrow> Some x) h l =
     (case last_report k h of None \<Rightarrow> l | Some x \<Rightarrow> Some x)"
  unfolding last_report_def by (induction h rule: rev_induct) (auto split: option.splits)

lemma last_report_append [simp]:
  "last_report k (h @ es) = (case last_report k es of None \<Rightarrow> last_report k h | Some x \<Rightarrow> Some x)"
  by (subst last_report_def) (simp only: fold_append comp_apply report_fold, simp split: option.splits)

lemma last_report_simps [simp]:
  "last_report k [] = None"
  "last_report k (e # h) = (case last_report k h of None \<Rightarrow> ready_report k e | Some x \<Rightarrow> Some x)"
  using last_report_append [of k "[e]" h] by (auto simp: last_report_def split: option.splits)

lemma gauge_honest_append: "gauge_honest h \<Longrightarrow> gauge_honest es \<Longrightarrow> gauge_honest (h @ es)"
  unfolding gauge_honest_def by (fastforce split: option.splits)

lemma honest_after:
  "gauge_honest es \<Longrightarrow> honest m \<Longrightarrow> yields (\<lambda>_. True) (\<lambda>_ es'. gauge_honest (es @ es')) m"
  unfolding honest_def by (erule yields_conseq) (auto intro: gauge_honest_append)

lemma honest_tail:
  "gauge_honest (es @ [e]) \<Longrightarrow> honest m \<Longrightarrow> yields (\<lambda>_. True) (\<lambda>_ es'. gauge_honest (es @ e # es')) m"
  using honest_after [of "es @ [e]" m] by simp

lemma honest_bind: "honest m \<Longrightarrow> (\<And>x. honest (f x)) \<Longrightarrow> honest (m \<bind> f)"
  unfolding honest_def by (erule yields_bind) (rule honest_after, simp_all add: honest_def)

lemmas honest_cases =
  yields_if [where E = "\<lambda>_. True" and R = "\<lambda>_. gauge_honest", folded honest_def]
  yields_case_option [where E = "\<lambda>_. True" and R = "\<lambda>_. gauge_honest", folded honest_def]
  yields_case_sum [where E = "\<lambda>_. True" and R = "\<lambda>_. gauge_honest", folded honest_def]
  yields_case_prod [where E = "\<lambda>_. True" and R = "\<lambda>_. gauge_honest", folded honest_def]

text \<open>Most events neither raise the gauge nor report that an environment is not ready any more.\<close>

definition gauge_calm :: "event \<Rightarrow> bool" where
  "gauge_calm e \<longleftrightarrow> (\<forall>ns n. e \<noteq> SetEnvironmentReady ns n True) \<and> (\<forall>k. ready_report k e \<noteq> Some False)"

lemma collect_gauge:
  "EnvironmentReady (collect e r) k = Some 1 \<Longrightarrow>
   EnvironmentReady r k = Some 1 \<or> (\<exists>ns n. e = SetEnvironmentReady ns n True \<and> k = (ns, n))"
  by (induction e r rule: collect.induct) (simp_all add: gauge_value_def split: if_splits)

lemma gauge_calm_honest: "list_all gauge_calm es \<Longrightarrow> gauge_honest es"
proof (induction es rule: rev_induct)
  case Nil
  then show ?case by (simp add: gauge_honest_def)
next
  case (snoc e es)
  have "gauge_honest [e]"
    unfolding gauge_honest_def
  proof (intro allI impI)
    fix r k assume "EnvironmentReady (fold collect [e] r) k = Some 1"
    then have "EnvironmentReady r k = Some 1"
      using collect_gauge [of e r k] snoc.prems by (auto simp: gauge_calm_def)
    moreover have "ready_report k e \<noteq> Some False"
      using snoc.prems by (cases k) (simp add: gauge_calm_def)
    ultimately show "last_report k [e] = Some True \<or> last_report k [e] = None \<and> EnvironmentReady r k = Some 1"
      by (cases "ready_report k e") auto
  qed
  then show ?case using snoc by (simp add: gauge_honest_append)
qed

lemma honest_emits: "emits gauge_calm m \<Longrightarrow> honest m"
  unfolding honest_def emits_def by (erule yields_conseq) (auto intro: gauge_calm_honest)

lemma honest_return: "honest (ret x)"
  by (rule honest_emits) (rule emits_return)

lemma refused_calm: "refused e \<Longrightarrow> (\<And>ns n b. e \<noteq> SetEnvironmentReady ns n b) \<Longrightarrow> gauge_calm e"
  unfolding gauge_calm_def by (cases e rule: refused.cases) (auto elim: ready_report.elims)

text \<open>A report that the server accepted is the last event of its \<open>PatchStatus\<close>.\<close>

definition reported :: "ZrokEnvironment mutation \<Rightarrow> go_error option \<times> ZrokEnvironment \<Rightarrow> event list \<Rightarrow> bool" where
  "reported m x es \<longleftrightarrow>
     (\<exists>calm. list_all gauge_calm calm \<and>
        (if fst x \<noteq> None then es = calm
         else \<exists>t b. es = calm @ [StatusPatch (EnvObj b) (EnvObj (snd (m t b))) (Inr (EnvObj (snd x)))]))"

lemma PatchStatus_reported:
  assumes "total_mutation m"
  shows "yields (\<lambda>_. True) (reported m) (PatchEnvStatus A env m)"
proof -
  have "yields (patch_event KEnv EnvObj m)
     (\<lambda>x es. patch_outcome KEnv EnvObj m (Suc (retrySteps A)) x es) (PatchEnvStatus A env m)"
    using PatchStatus_yields [OF assms] PatchStatus_outcome unfolding yields_def
    by (metis prod.inject same_append_eq)
  then show ?thesis
  proof (rule yields_conseq)
    fix x :: "go_error option \<times> ZrokEnvironment" and es
    assume es: "list_all (patch_event KEnv EnvObj m) es" and out: "patch_outcome KEnv EnvObj m (Suc (retrySteps A)) x es"
    have calm: "list_all gauge_calm es'" if "list_all refused es'" "set es' \<subseteq> set es" for es'
      using that es by (auto simp: list_all_iff patch_event_def intro!: refused_calm)
    show "reported m x es"
    proof (cases "fst x")
      case None
      with out have "accepted KEnv EnvObj m (snd x) es" by (cases x) (simp add: patch_outcome_def)
      then obtain pre k t before obj where obj: "m t before = (None, obj)" and pre: "list_all refused pre" and
          e: "es = pre @ [Get KEnv k (Inr (EnvObj before)),
                     StatusPatch (EnvObj before) (EnvObj obj) (Inr (EnvObj (snd x)))]"
        unfolding accepted_def by blast
      let ?calm = "pre @ [Get KEnv k (Inr (EnvObj before))]"
      have "list_all gauge_calm ?calm" by (rule calm) (use pre e in auto)
      then show ?thesis
        unfolding reported_def using None obj e
        by (intro exI [of _ ?calm]) (auto intro: exI [of _ t] exI [of _ before])
    next
      case (Some err)
      with out have "list_all refused es" by (cases x) (simp add: patch_outcome_def)
      then show ?thesis using calm [of es] Some by (simp add: reported_def)
    qed
  qed simp
qed

lemma reported_error: "reported m (Some e, env) es \<Longrightarrow> gauge_honest es"
  by (auto simp: reported_def intro: gauge_calm_honest)

lemma reported_accepted:
  "reported m (None, env) es \<Longrightarrow>
   \<exists>calm t b. gauge_honest calm \<and> es = calm @ [StatusPatch (EnvObj b) (EnvObj (snd (m t b))) (Inr (EnvObj env))]"
  by (auto simp: reported_def intro: gauge_calm_honest)

lemma gauge_honest_pair: "gauge_honest h \<Longrightarrow> gauge_honest [e, e'] \<Longrightarrow> gauge_honest ((h @ [e]) @ [e'])"
  using gauge_honest_append [of h "[e, e']"] by simp

lemma reported_reset:
  assumes "reported m (err, env) es"
  shows "gauge_honest (es @ [SetEnvironmentReady (Namespace env) (Name env) False])"
proof (cases err)
  case None
  have "gauge_honest [StatusPatch (EnvObj b) (EnvObj a) (Inr (EnvObj env)),
      SetEnvironmentReady (Namespace env) (Name env) False]" for a b
    by (auto simp: gauge_honest_def object_key_def gauge_value_def split: if_splits)
  with assms None show ?thesis by (blast dest: reported_accepted intro: gauge_honest_pair)
next
  case (Some e)
  have "gauge_honest [SetEnvironmentReady (Namespace env) (Name env) False]"
    by (rule gauge_calm_honest) (simp add: gauge_calm_def)
  with assms Some show ?thesis by (blast intro: gauge_honest_append reported_error)
qed

lemma reported_ready:
  assumes "reported m (None, env) es" and "\<And>t env. env_is_ready (snd (m t env))"
  shows "gauge_honest (es @ [SetEnvironmentReady (Namespace env) (Name env) True])"
proof -
  have "gauge_honest [StatusPatch (EnvObj b) (EnvObj (snd (m t b))) (Inr (EnvObj env)),
      SetEnvironmentReady (Namespace env) (Name env) True]" for t b
    using assms(2) by (auto simp: gauge_honest_def object_key_def gauge_value_def split: if_splits)
  then show ?thesis using assms(1) by (blast dest: reported_accepted intro: gauge_honest_pair)
qed

text \<open>The parts of a reconcile, each of which leaves the gauge honest.\<close>

lemma honest_emit: "gauge_calm e \<Longrightarrow> honest (emit e)"
  and honest_perform: "(\<And>r. gauge_calm (ev r)) \<Longrightarrow> honest (perform reply ev)"
  by (auto intro!: honest_emits emits_intros)

lemma honest_record: "honest (env_record env ty rsn action msg)"
  by (simp add: env_record_def honest_emit gauge_calm_def)

lemma honest_patch:
  assumes "total_mutation m" and "\<And>t env. env_is_ready (snd (m t env)) = env_is_ready env"
  shows "honest (PatchEnvStatus A env m)"
  by (rule honest_emits, rule PatchStatus_emits [OF assms(1)])
     (auto simp: patch_event_def gauge_calm_def assms(2) elim!: ready_report.elims split: if_splits)

lemma report_down_honest:
  assumes "total_mutation m" and "\<And>env. honest (rest env)"
  shows "honest (PatchEnvStatus A env m \<bind> (\<lambda>(uu, env).
      emit (SetEnvironmentReady (Namespace env) (Name env) False) \<bind> (\<lambda>_. rest env)))"
  unfolding honest_def
  by (rule yields_bind [OF PatchStatus_reported [OF assms(1)]])
     (auto intro!: yields_bind [OF yields_emit [where R = "\<lambda>_ es. es = [e]" for e]] honest_tail [OF _ assms(2)]
       dest: reported_reset split: prod.split)

lemma setNotReady_honest: "honest (env_setNotReady A env rsn msg)"
  unfolding env_setNotReady_def by (intro report_down_honest env_total honest_return)

lemma not_yet_honest: "total_mutation m \<Longrightarrow> honest (env_not_yet A env m)"
  unfolding env_not_yet_def honest_def
  by (rule yields_bind [OF PatchStatus_reported])
     (auto intro!: yields_case_option yields_bind [OF yields_emit [where R = "\<lambda>_ es. es = [e]" for e]] yields_return
       dest: reported_error reported_reset split: prod.split)

lemma env_ready_mutation_ready: "env_is_ready (snd (env_ready_mutation service t env))"
  by (simp add: env_ready_mutation_def Let_def)

lemma ready_honest:
  assumes "\<And>env. honest (rest env)"
  shows "honest (PatchEnvStatus A env (env_ready_mutation svc) \<bind> (\<lambda>(err, env). case err of
      Some e \<Rightarrow> ret (no_requeue, Some e)
    | None \<Rightarrow> emit (SetEnvironmentReady (Namespace env) (Name env) True) \<bind> (\<lambda>_. rest env)))"
  unfolding honest_def
  by (rule yields_bind [OF PatchStatus_reported])
     (auto intro!: yields_case_option yields_bind [OF yields_emit [where R = "\<lambda>_ es. es = [e]" for e]] yields_return
       honest_tail [OF _ assms]
       dest: reported_error reported_ready [OF _ env_ready_mutation_ready] split: prod.split)

lemma ready_step_honest:
  "honest (PatchEnvStatus A env (env_ready_mutation svc) \<bind> (\<lambda>(err, enva). case err of
      Some e \<Rightarrow> ret (no_requeue, Some e)
    | None \<Rightarrow> emit (SetEnvironmentReady (Namespace enva) (Name enva) True) \<bind> (\<lambda>_.
        (if b then env_record enva EventTypeNormal ''Ready'' ''Ready'' ''ZrokEnvironment is ready'' else ret ()) \<bind>
        (\<lambda>_. ret (requeue_after 120, None)))))"
  by (intro ready_honest honest_bind honest_cases honest_record honest_return)

lemma isAgentReady_honest: "honest (isAgentReady A env)"
  unfolding isAgentReady_def call_defs
  by (intro honest_bind honest_perform honest_cases honest_return) (simp add: gauge_calm_def)

lemma env_readiness_honest: "honest (env_readiness A env)"
  unfolding env_readiness_def Let_def Agent_Status_def
  by (intro honest_bind [OF isAgentReady_honest] honest_cases ready_step_honest not_yet_honest env_total
      honest_bind [OF setNotReady_honest] honest_bind [OF honest_emit] honest_bind [OF honest_perform] honest_return)
     (simp_all add: gauge_calm_def)

lemma object_event_calm: "object_event env e \<Longrightarrow> gauge_calm e"
  by (cases e) (auto simp: gauge_calm_def)

lemma env_step_honest: "emits (object_event env) m \<Longrightarrow> honest rest \<Longrightarrow> honest (env_step A env m rsn rest)"
  unfolding env_step_def
  by (intro honest_bind honest_cases honest_return setNotReady_honest honest_emit)
     (auto intro!: honest_emits simp: gauge_calm_def elim!: emits_mono object_event_calm)

lemma env_ensure_agent_honest: "honest (env_ensure_agent A cfg env)"
  unfolding env_ensure_agent_def by (intro env_step_honest ensure_objects_emit env_readiness_honest)

lemma ensureEnabled_honest: "honest (ensureEnabled A env token)"
proof -
  have keep: "honest (PatchEnvStatus A e (set_zid_mutation zid))" "honest (PatchEnvStatus A e (enabled_mutation zid u))"
    for e zid u by (intro honest_patch env_total; simp)+
  show ?thesis
    unfolding ensureEnabled_def adoptIdentitySecret_def drop_secret_def enable_environment_def resolveUniqueID_def
      call_defs Let_def
    by (intro honest_bind honest_cases honest_return honest_perform honest_record keep)
       (simp_all add: gauge_calm_def)
qed

lemma env_readEnableToken_honest: "honest (env_readEnableToken A env)"
  unfolding env_readEnableToken_def call_defs Let_def
  by (intro honest_bind honest_perform honest_cases honest_return) (simp add: gauge_calm_def)

lemma honest_update: "honest (k8s_update wrap c obj)"
  unfolding k8s_update_def by (intro honest_bind honest_perform honest_return) (simp add: gauge_calm_def)

lemma env_live_honest: "honest (env_live A cfg env)"
  unfolding env_live_def
  by (intro honest_cases honest_bind [OF honest_update] honest_bind [OF env_readEnableToken_honest]
      honest_bind [OF setNotReady_honest] honest_bind [OF honest_emit] honest_bind [OF honest_record]
      honest_bind [OF ensureEnabled_honest] honest_bind [OF honest_return] env_ensure_agent_honest honest_return)
     (simp_all add: gauge_calm_def)

lemma env_disable_honest: "honest (env_disable A env)"
  unfolding env_disable_def env_teardown_def env_record_def env_readEnableToken_def call_defs Let_def
  by (intro honest_bind honest_perform honest_cases honest_return honest_emit) (simp_all add: gauge_calm_def)

lemma env_reconcileDelete_honest: "honest (env_reconcileDelete A env)"
  unfolding env_reconcileDelete_def listZrokShares_def Let_def
  by (intro honest_cases honest_bind [OF honest_perform] honest_return env_disable_honest report_down_honest env_total
      honest_bind [OF honest_record]) (simp add: gauge_calm_def)

lemma env_Reconcile_honest: "honest (env_Reconcile A cfg req)"
  unfolding env_Reconcile_def k8s_get_def
  by (intro honest_bind honest_perform honest_cases honest_return env_reconcileDelete_honest env_live_honest)
     (simp add: gauge_calm_def)

section \<open>Properties\<close>

text \<open>C35: Whatever the gauges showed before a reconcile of an environment: a gauge stands at one
  after it only if the last report on the readiness of the environment with that namespace and
  name which the API server accepted from this reconcile was \<open>Ready\<close>, or if the reconcile made no
  such report and the gauge stood at one before. So a reconcile that takes back \<open>Ready\<close>, for
  whatever reason, also takes back the gauge.\<close>

theorem environment_gauge_is_honest:
  assumes "EnvironmentReady (fold collect (trace_of (env_Reconcile A cfg req)) r) k = Some 1"
  shows "last_report k (trace_of (env_Reconcile A cfg req)) = Some True
    \<or> last_report k (trace_of (env_Reconcile A cfg req)) = None \<and> EnvironmentReady r k = Some 1"
proof -
  from env_Reconcile_honest obtain x es where "run_state (env_Reconcile A cfg req) [] = (x, [] @ es)" and
    "gauge_honest es" unfolding honest_def by (rule yieldsE)
  moreover from this have "trace_of (env_Reconcile A cfg req) = es" by (simp add: trace_of_def)
  ultimately show ?thesis using assms unfolding gauge_honest_def by blast
qed

text \<open>With the index, the requests for an environment's event are exactly the keys of the shares
  of its namespace that refer to it, in the order of the list.\<close>

theorem environment_events_reach_its_shares:
  assumes "apiListShares A [] (InNamespaceForEnv (Namespace env) (Name env)) =
      Inr (filter (indexed ShareObj (InNamespaceForEnv (Namespace env) (Name env))) all_shares)"
    and "Name env \<noteq> []"
  shows "result_of (mapEnvToShares A env) =
     map object_key (filter (\<lambda>s. Namespace s = Namespace env \<and> shEnvironmentRef (ShareSpec s) = Name env) all_shares)"
proof -
  have "indexed ShareObj (InNamespaceForEnv (Namespace env) (Name env)) =
      (\<lambda>s. Namespace s = Namespace env \<and> shEnvironmentRef (ShareSpec s) = Name env)"
    using assms(2) by (auto simp: fun_eq_iff indexed_def indexByEnvironmentRef_def)
  then show ?thesis
    using assms(1) by (simp add: mapEnvToShares_def listZrokShares_def result_of_def)
qed

definition lab_share :: "string \<Rightarrow> string \<Rightarrow> string \<Rightarrow> ZrokShare" where
  "lab_share ns n ref =
     (let s = zero_share ns n in s\<lparr>ShareSpec := (ShareSpec s)\<lparr>shEnvironmentRef := ref\<rparr>\<rparr>)"

definition lab_indexed :: "ZrokShare list \<Rightarrow> api" where
  \<comment> \<open>a world whose cache carries the index\<close>
  "lab_indexed shares =
     (lab shares [] [] [] \<lparr>stShares = [], stAccesses = []\<rparr> [])
       \<lparr>apiListShares := (\<lambda>h sel. Inr (filter (indexed ShareObj sel) shares))\<rparr>"

lemma environment_events_reach_its_shares_witness:
  "result_of (mapEnvToShares (lab_indexed [lab_share ''prod'' ''web'' ''main'',
      lab_share ''dev'' ''web'' ''main'', lab_share ''prod'' ''api'' ''other''])
      (lab_meta ''prod'' ''main'')) = [(''prod'', ''web'')]"
proof -
  let ?shares = "[lab_share ''prod'' ''web'' ''main'', lab_share ''dev'' ''web'' ''main'',
    lab_share ''prod'' ''api'' ''other'']"
  have "result_of (mapEnvToShares (lab_indexed ?shares) (lab_meta ''prod'' ''main'')) =
     map object_key (filter (\<lambda>s. Namespace s = Namespace (lab_meta ''prod'' ''main'')
        \<and> shEnvironmentRef (ShareSpec s) = Name (lab_meta ''prod'' ''main'')) ?shares)"
    by (rule environment_events_reach_its_shares) (simp_all add: lab_indexed_def lab_meta_def)
  then show ?thesis
    by (simp add: lab_share_def zero_share_def lab_meta_def object_key_def)
qed

end
