(* ===== verification/EnvLiveness.thy ===== *)
theory EnvLiveness
  imports Metrics
begin

text \<open>
  Progress of the environment reconciler: once the Secrets, the agent's objects and the agent
  are there, one reconcile makes the environment ready; and the concrete world that witnesses
  it.
\<close>

section \<open>A settled world\<close>

definition serves :: "'o client \<Rightarrow> key \<Rightarrow> 'o \<Rightarrow> bool" where
  "serves c k x \<longleftrightarrow> (\<forall>h. cGet c h k = Inr x)"

definition accepts_status :: "'o client \<Rightarrow> bool" where
  "accepts_status c \<longleftrightarrow> (\<forall>h b x. cStatusPatch c h b x = Inr x)"

record settling =
  seToken :: Secret
  seIdentity :: Secret
  sePVC :: PersistentVolumeClaim
  seService :: Service
  seDeployment :: Deployment

definition env_objects_there :: "api \<Rightarrow> ZrokEnvironment \<Rightarrow> settling \<Rightarrow> bool" where
  "env_objects_there A env w \<longleftrightarrow>
     serves (apiSecrets A) (Namespace env, skName (enEnableTokenSecretRef (EnvSpec env))) (seToken w)
     \<and> serves (apiSecrets A) (Namespace env, IdentitySecretName env) (seIdentity w)
     \<and> serves (apiPVCs A) (Namespace env, PVCName env) (sePVC w)
     \<and> serves (apiServices A) (Namespace env, ServiceName env) (seService w)
     \<and> serves (apiDeployments A) (Namespace env, DeploymentName env) (seDeployment w)
     \<and> serves (apiEnvs A) (object_key env) env \<and> accepts_status (apiEnvs A)
     \<and> (\<forall>h. cGet (apiNetworkPolicies A) h (Namespace env, NetworkPolicyName env) = Inl lab_missing)"

definition env_settled :: "api \<Rightarrow> EnvConfig \<Rightarrow> ZrokEnvironment \<Rightarrow> settling \<Rightarrow> bool" where
  \<comment> \<open>nothing is left to be done for the environment but to report it ready\<close>
  "env_settled A cfg env w \<longleftrightarrow>
     env_objects_there A env w \<and> refs_accepted A
     \<and> ContainsFinalizer env EnvironmentFinalizer \<and> \<not> AgentNetworkPolicy cfg
     \<and> ImageAllowed (agImage (enAgent (EnvSpec env))) (AllowedAgentImages cfg)
     \<and> lookup_str (Data (seToken w)) (if skKey (enEnableTokenSecretRef (EnvSpec env)) = [] then DefaultEnableTokenKey
          else skKey (enEnableTokenSecretRef (EnvSpec env))) \<noteq> []
     \<and> IsControlledBy (seIdentity w) env
     \<and> lookup_str (Data (seIdentity w)) ''envZID'' = enEnvZID (EnvStatus env) \<and> enEnvZID (EnvStatus env) \<noteq> []
     \<and> SvcSpec (seService w) = SvcSpec (DesiredService env)
     \<and> DepSpec (seDeployment w) = DepSpec (DesiredDeployment env)
     \<and> Labels (seDeployment w) = Labels (DesiredDeployment env)
     \<and> depReadyReplicas (seDeployment w) \<ge> 1 \<and> depUpdatedReplicas (seDeployment w) \<ge> 1
     \<and> (\<forall>h. \<exists>st. agentStatus A h (AgentDialAddr env) = Inr st)"

text \<open>Each step of the reconcile, in a settled world.\<close>

lemma run_get: "serves c k x \<Longrightarrow> run_state (k8s_get kd wrap c k) h = (Inr x, h @ [Get kd k (Inr (wrap x))])"
  by (simp add: serves_def k8s_get_def)

lemma run_PatchStatus:
  assumes "serves c (object_key x) x" and "accepts_status c" and "total_mutation m"
  shows "\<exists>t. run_state (PatchStatus A kd wrap c x m) h =
     ((None, snd (m t x)), h @ [Get kd (object_key x) (Inr (wrap x)),
        StatusPatch (wrap x) (wrap (snd (m t x))) (Inr (wrap (snd (m t x))))])"
proof -
  have "\<exists>t. run_state (patch_attempt A kd wrap c (object_key x) m x) h =
     ((None, snd (m t x)), h @ [Get kd (object_key x) (Inr (wrap x)),
        StatusPatch (wrap x) (wrap (snd (m t x))) (Inr (wrap (snd (m t x))))])"
  proof -
    let ?t = "now A (h @ [Get kd (object_key x) (Inr (wrap x))])"
    obtain x' where "m ?t x = (None, x')" using assms(3) by (metis prod.collapse total_mutation_def)
    then show ?thesis
      using assms(2)
      by (intro exI [of _ ?t])
         (simp add: patch_attempt_def run_get [OF assms(1)] accepts_status_def k8s_status_patch_def)
  qed
  then show ?thesis by (cases "retrySteps A") (auto simp: PatchStatus_def)
qed

lemma settled_serves:
  assumes "env_settled A cfg env w"
  shows "serves (apiSecrets A) (Namespace env, skName (enEnableTokenSecretRef (EnvSpec env))) (seToken w)"
    "serves (apiSecrets A) (Namespace env, IdentitySecretName env) (seIdentity w)"
    "serves (apiPVCs A) (Namespace env, PVCName env) (sePVC w)"
    "serves (apiServices A) (Namespace env, ServiceName env) (seService w)"
    "serves (apiDeployments A) (Namespace env, DeploymentName env) (seDeployment w)"
    "serves (apiEnvs A) (object_key env) env" "accepts_status (apiEnvs A)"
    "\<And>h. cGet (apiNetworkPolicies A) h (Namespace env, NetworkPolicyName env) = Inl lab_missing"
    "\<And>owner obj. setRefErr A owner obj = None"
  using assms by (auto simp: env_settled_def env_objects_there_def refs_accepted_def)

lemma desired_keys:
  "object_key (DesiredPVC env) = (Namespace env, PVCName env)"
  "object_key (DesiredService env) = (Namespace env, ServiceName env)"
  "object_key (DesiredDeployment env) = (Namespace env, DeploymentName env)"
  by (simp_all add: object_key_def DesiredPVC_def DesiredService_def DesiredDeployment_def new_meta_def
      ObjectMeta.defs Let_def)

lemma desired_service:
  "ssType (SvcSpec (DesiredService env)) = ServiceTypeClusterIP" "ssExternalName (SvcSpec (DesiredService env)) = []"
  by (simp_all add: DesiredService_def Let_def Service.defs ObjectMeta.defs)

lemma object_key_ControllerRef [simp]: "object_key (obj\<lparr>ControllerRef := r\<rparr>) = object_key obj"
  by (simp add: object_key_def)

lemma settled_token:
  assumes "env_settled A cfg env w"
  shows "\<exists>tok g. run_state (env_readEnableToken A env) h = (Inr tok, h @ [g]) \<and> no_enable g"
proof -
  let ?ref = "enEnableTokenSecretRef (EnvSpec env)"
  let ?k = "if skKey ?ref = [] then DefaultEnableTokenKey else skKey ?ref"
  obtain raw where "Data (seToken w) ?k = Some raw" "raw \<noteq> []"
    using assms by (auto simp: env_settled_def lookup_str_def split: option.splits)
  then show ?thesis
    unfolding env_readEnableToken_def Let_def
    by (simp add: run_get [OF settled_serves(1) [OF assms]] del: append.simps)
qed

lemma settled_steps:
  assumes "env_settled A cfg env w"
  shows "\<exists>es. run_state (ensureEnabled A env token) h = ((None, env), h @ es)"
    "\<exists>es. run_state (ensurePVC A env) h = (None, h @ es)"
    "\<exists>es. run_state (ensureService A env) h = (None, h @ es)"
    "\<exists>es. run_state (ensureDeployment A env) h = (None, h @ es)"
    "\<exists>es. run_state (ensureNetworkPolicy A cfg env) h = (None, h @ es)"
    "\<exists>es. run_state (isAgentReady A env) h = (Inr True, h @ es)"
proof -
  note srv = settled_serves [OF assms]
  note eqs = assms [unfolded env_settled_def]
  show "\<exists>es. run_state (ensureEnabled A env token) h = ((None, env), h @ es)"
    using eqs by (simp add: ensureEnabled_def adoptIdentitySecret_def Let_def run_get [OF srv(2)])
  show "\<exists>es. run_state (ensurePVC A env) h = (None, h @ es)"
    by (simp add: ensurePVC_def SetControllerReference_def srv(9) desired_keys run_get [OF srv(3)])
  show "\<exists>es. run_state (ensureService A env) h = (None, h @ es)"
    using eqs
    by (simp add: ensureService_def SetControllerReference_def srv(9) desired_keys run_get [OF srv(4)]
        hijackedAgentService_def desired_service)
  show "\<exists>es. run_state (ensureDeployment A env) h = (None, h @ es)"
    using eqs
    by (simp add: ensureDeployment_def SetControllerReference_def srv(9) desired_keys run_get [OF srv(5)])
  show "\<exists>es. run_state (ensureNetworkPolicy A cfg env) h = (None, h @ es)"
    using eqs
    by (simp add: ensureNetworkPolicy_def k8s_get_def srv(8) lab_missing_def IgnoreNotFound_def IsNotFound_def)
  show "\<exists>es. run_state (isAgentReady A env) h = (Inr True, h @ es)"
    using eqs by (simp add: isAgentReady_def run_get [OF srv(5)])
qed

section \<open>One reconcile of a settled world\<close>

definition reports_ready :: "ZrokEnvironment \<Rightarrow> event list \<Rightarrow> bool" where
  \<comment> \<open>the server confirmed \<open>Ready\<close> and the gauge shows it\<close>
  "reports_ready env h \<longleftrightarrow>
     ready_confirmed (object_key env) h \<and> EnvironmentReady (registry_after h) (object_key env) = Some 1"

lemma env_ready_mutation_key [simp]: "object_key (snd (env_ready_mutation service t env)) = object_key env"
  by (simp add: env_ready_mutation_def Let_def object_key_def env_condition_def env_set_status_def)

lemma registry_after_append: "registry_after (h @ es) = fold collect es (registry_after h)"
  by (simp add: registry_after_def)

lemma settled_readiness:
  assumes "env_settled A cfg env w"
  shows "\<exists>es. run_state (env_readiness A env) h = ((requeue_after 120, None), h @ es) \<and> reports_ready env (h @ es)"
proof -
  note srv = settled_serves [OF assms]
  obtain e1 where e1: "run_state (isAgentReady A env) h = (Inr True, h @ e1)"
    using settled_steps(6) [OF assms] by blast
  let ?svc = "ServiceName env @ ''.'' @ Namespace env @ ''.svc''"
  obtain st where st: "agentStatus A (h @ e1) (AgentDialAddr env) = Inr st"
    using assms by (auto simp: env_settled_def)
  let ?h = "h @ e1 @ [AgentStatus (AgentDialAddr env) (Inr st)]"
  obtain t where t: "run_state (PatchEnvStatus A env (env_ready_mutation ?svc)) ?h =
      ((None, snd (env_ready_mutation ?svc t env)), ?h @ [Get KEnv (object_key env) (Inr (EnvObj env)),
        StatusPatch (EnvObj env) (EnvObj (snd (env_ready_mutation ?svc t env)))
          (Inr (EnvObj (snd (env_ready_mutation ?svc t env))))])"
    using run_PatchStatus [OF srv(6,7), of "env_ready_mutation ?svc" A KEnv EnvObj ?h] by auto
  let ?env' = "snd (env_ready_mutation ?svc t env)"
  let ?es = "e1 @ [AgentStatus (AgentDialAddr env) (Inr st), Get KEnv (object_key env) (Inr (EnvObj env)),
      StatusPatch (EnvObj env) (EnvObj ?env') (Inr (EnvObj ?env')),
      SetEnvironmentReady (Namespace ?env') (Name ?env') True]
    @ (if IsTrue (enConditions (EnvStatus env)) ConditionReady then []
       else [Recorded KEnv (object_key ?env') EventTypeNormal ''Ready'' ''Ready'' ''ZrokEnvironment is ready''])"
  have k: "(Namespace ?env', Name ?env') = object_key env"
    using env_ready_mutation_key [of ?svc t env] by (simp add: object_key_def)
  have "run_state (env_readiness A env) h = ((requeue_after 120, None), h @ ?es)"
    using t by (simp add: env_readiness_def e1 Agent_Status_def st Let_def env_record_def)
  moreover have "ready_confirmed (object_key env) (h @ ?es)"
    using env_ready_mutation_ready [of ?svc t env]
    unfolding ready_confirmed_def by (intro exI [of _ env] exI [of _ ?env']) simp
  moreover have "EnvironmentReady (registry_after (h @ ?es)) (object_key env) = Some 1"
    using k by (simp add: registry_after_append gauge_value_def)
  ultimately show ?thesis unfolding reports_ready_def by blast
qed

lemma env_step_run:
  "run_state m h = (None, h') \<Longrightarrow> run_state (env_step A env m rsn rest) h = run_state rest h'"
  by (simp add: env_step_def)

lemma settled_agent:
  assumes "env_settled A cfg env w"
  shows "\<exists>es. run_state (env_ensure_agent A cfg env) h = ((requeue_after 120, None), h @ es) \<and> reports_ready env (h @ es)"
proof -
  note steps = settled_steps [OF assms]
  obtain e1 where 1: "run_state (ensurePVC A env) h = (None, h @ e1)" using steps(2) by blast
  obtain e2 where 2: "run_state (ensureService A env) (h @ e1) = (None, (h @ e1) @ e2)" using steps(3) by blast
  obtain e3 where 3: "run_state (ensureDeployment A env) ((h @ e1) @ e2) = (None, ((h @ e1) @ e2) @ e3)"
    using steps(4) by blast
  obtain e4 where 4: "run_state (ensureNetworkPolicy A cfg env) (((h @ e1) @ e2) @ e3) =
      (None, (((h @ e1) @ e2) @ e3) @ e4)" using steps(5) by blast
  let ?h = "(((h @ e1) @ e2) @ e3) @ e4"
  obtain e5 where 5: "run_state (env_readiness A env) ?h = ((requeue_after 120, None), ?h @ e5)"
      "reports_ready env (?h @ e5)" using settled_readiness [OF assms] by blast
  have "run_state (env_ensure_agent A cfg env) h = ((requeue_after 120, None), ?h @ e5)"
    unfolding env_ensure_agent_def
    by (simp only: env_step_run [OF 1] env_step_run [OF 2] env_step_run [OF 3] env_step_run [OF 4] 5(1))
  then show ?thesis using 5(2) by (intro exI [of _ "e1 @ e2 @ e3 @ e4 @ e5"]) simp
qed

lemma settled_live:
  assumes "env_settled A cfg env w"
  shows "\<exists>es. run_state (env_live A cfg env) h = ((requeue_after 120, None), h @ es) \<and> reports_ready env (h @ es)"
proof -
  obtain tok g where 1: "run_state (env_readEnableToken A env) h = (Inr tok, h @ [g])"
    using settled_token [OF assms] by blast
  obtain e2 where 2: "run_state (ensureEnabled A env tok) (h @ [g]) = ((None, env), (h @ [g]) @ e2)"
    using settled_steps(1) [OF assms] by blast
  obtain e3 where 3: "run_state (env_ensure_agent A cfg env) ((h @ [g]) @ e2) =
      ((requeue_after 120, None), ((h @ [g]) @ e2) @ e3)" "reports_ready env (((h @ [g]) @ e2) @ e3)"
    using settled_agent [OF assms] by blast
  have "ContainsFinalizer env EnvironmentFinalizer" and
    "ValidateImage (agImage (enAgent (EnvSpec env))) (AllowedAgentImages cfg) = None"
    using assms by (auto simp: env_settled_def ValidateImage_None)
  then have "run_state (env_live A cfg env) h = ((requeue_after 120, None), h @ (g # e2 @ e3))"
    using 1 2 3(1) by (simp add: env_live_def)
  then show ?thesis using 3(2) by (intro exI [of _ "g # e2 @ e3"]) simp
qed

section \<open>Properties\<close>

text \<open>Progress: when the enable token, the identity Secret, the volume, the Service and a ready
  Deployment are as wanted, no network policy is asked for, the agent answers and the API
  server accepts the status, one reconcile reports the environment ready - condition, patch
  and gauge - and comes back after two minutes without an error.\<close>

theorem settled_environment_becomes_ready:
  assumes "env_settled A cfg env w"
  shows "result_of (env_live A cfg env) = (requeue_after 120, None) \<and> reports_ready env (trace_of (env_live A cfg env))"
  using settled_live [OF assms, of "[]"] by (auto simp: result_of_def trace_of_def)

definition lab_enabled_env :: ZrokEnvironment where
  "lab_enabled_env = lab_env\<lparr>EnvStatus := (EnvStatus lab_env)\<lparr>enEnvZID := ''zid''\<rparr>\<rparr>"

definition lab_world :: settling where
  "lab_world =
     \<lparr>seToken = lab_secret ''prod'' ''token'' [DefaultEnableTokenKey \<mapsto> ''t0''],
      seIdentity = (lab_secret ''prod'' ''main-zrok-identity'' [''envZID'' \<mapsto> ''zid''])\<lparr>ControllerRef := Some ''u1''\<rparr>,
      sePVC = DesiredPVC lab_enabled_env,
      seService = DesiredService lab_enabled_env,
      seDeployment = (DesiredDeployment lab_enabled_env)\<lparr>depReadyReplicas := 1, depUpdatedReplicas := 1\<rparr>\<rparr>"

definition lab_settled :: api where
  "lab_settled = (lab [] [lab_enabled_env] [seToken lab_world, seIdentity lab_world] []
       \<lparr>stShares = [], stAccesses = []\<rparr> [])
     \<lparr>apiPVCs := lab_client [sePVC lab_world], apiServices := lab_client [seService lab_world],
      apiDeployments := lab_client [seDeployment lab_world]\<rparr>"

lemma lab_meta_simps [simp]:
  "Name lab_enabled_env = ''main''" "Namespace lab_enabled_env = ''prod''" "UID lab_enabled_env = ''u1''"
  "EnvSpec lab_enabled_env = EnvSpec lab_env" "enEnvZID (EnvStatus lab_enabled_env) = ''zid''"
  "Name (lab_secret ns n d) = n" "Namespace (lab_secret ns n d) = ns" "Data (lab_secret ns n d) = d"
  by (simp_all add: lab_enabled_env_def lab_env_def lab_secret_def lab_meta_def ObjectMeta.defs Secret.defs)

lemma desired_names:
  "Namespace (DesiredPVC env) = Namespace env" "Name (DesiredPVC env) = PVCName env"
  "Namespace (DesiredService env) = Namespace env" "Name (DesiredService env) = ServiceName env"
  "Namespace (DesiredDeployment env) = Namespace env" "Name (DesiredDeployment env) = DeploymentName env"
  using desired_keys [of env] by (simp_all add: object_key_def)

lemma lab_is_settled: "env_settled lab_settled lab_config lab_enabled_env lab_world"
proof -
  have token: "enEnableTokenSecretRef (EnvSpec lab_env) = \<lparr>skName = ''token'', skKey = []\<rparr>"
    and image: "agImage (enAgent (EnvSpec lab_env)) = []"
    and fin: "ContainsFinalizer lab_enabled_env EnvironmentFinalizer"
    by (simp_all add: lab_env_def lab_enabled_env_def zero_env_def ContainsFinalizer_def)
  have there: "env_objects_there lab_settled lab_enabled_env lab_world"
    unfolding env_objects_there_def serves_def accepts_status_def token lab_meta_simps
    by (simp add: lab_settled_def lab_def lab_client_def lab_world_def token IdentitySecretName_def
        object_key_def desired_names)
  show ?thesis
    unfolding env_settled_def
    using there fin
    by (simp add: token image refs_accepted_def lab_settled_def lab_def lab_config_def lab_world_def
        ImageAllowed_def lookup_str_def IsControlledBy_def)
qed

lemma settled_environment_becomes_ready_witness:
  "reports_ready lab_enabled_env (trace_of (env_live lab_settled lab_config lab_enabled_env))"
  using settled_environment_becomes_ready [OF lab_is_settled] by simp

lemma lab_gauge:
  "EnvironmentReady (fold collect (trace_of (env_Reconcile lab_settled lab_config (''prod'', ''main''))) new_registry)
     (''prod'', ''main'') = Some 1"
proof -
  let ?get = "Get KEnv (''prod'', ''main'') (Inr (EnvObj lab_enabled_env))"
  obtain es where es: "run_state (env_live lab_settled lab_config lab_enabled_env) [?get] =
      ((requeue_after 120, None), [?get] @ es)" "reports_ready lab_enabled_env ([?get] @ es)"
    using settled_live [OF lab_is_settled] by blast
  have "serves (apiEnvs lab_settled) (''prod'', ''main'') lab_enabled_env"
    using settled_serves(6) [OF lab_is_settled] by (simp add: object_key_def)
  moreover have "DeletionTimestamp lab_enabled_env = None"
    by (simp add: lab_enabled_env_def lab_env_def zero_env_def lab_meta_def ObjectMeta.defs)
  ultimately have "trace_of (env_Reconcile lab_settled lab_config (''prod'', ''main'')) = [?get] @ es"
    using es(1) by (simp add: trace_of_def env_Reconcile_def run_get)
  then show ?thesis using es(2) by (simp add: reports_ready_def registry_after_def object_key_def)
qed

lemma environment_gauge_is_honest_witness:
  "last_report (''prod'', ''main'') (trace_of (env_Reconcile lab_settled lab_config (''prod'', ''main''))) = Some True"
  using environment_gauge_is_honest [OF lab_gauge] by (auto simp: new_registry_def)

text \<open>A ready environment, for the witnesses of shares and accesses.\<close>

definition lab_ready_env :: ZrokEnvironment where
  "lab_ready_env = lab_env\<lparr>EnvStatus := (EnvStatus lab_env)\<lparr>enEnvZID := ''zid'',
     enConditions := SetCondition 0 [] ConditionReady ConditionTrue ''Ready'' ''environment ready'' 1\<rparr>\<rparr>"

lemma lab_ready_fields [simp]:
  "Name lab_ready_env = ''main''" "Namespace lab_ready_env = ''prod''" "EnvSpec lab_ready_env = EnvSpec lab_env"
  "enEnvZID (EnvStatus lab_ready_env) = ''zid''"
  "IsTrue (enConditions (EnvStatus lab_ready_env)) ConditionReady"
  by (simp_all add: lab_ready_env_def lab_env_def)

end
