(* ===== verification/StatusWrites.thy ===== *)
theory StatusWrites
  imports ShareHelpers AccessReconcile EnvRemote IngressReconcile
begin

text \<open>
  Everything the operator writes to a status, as relations between the object a patch replaces
  and the object it sends: one rule per mutation that the controllers pass to \<open>PatchStatus\<close>, and the
  proof that the reconcilers send no other status patch. What holds along these relations holds of
  everything the operator writes.
\<close>

section \<open>The writes\<close>

inductive share_write :: "ZrokShare \<Rightarrow> ZrokShare \<Rightarrow> bool" where
  not_ready: "share_write s (snd (not_ready_mutation rsn msg t s))"
| name_condition: "share_write s (snd (name_condition_mutation rsn msg t s))"
| waiting: "share_write s (snd (waiting_mutation t s))"
| clear_binding: "share_write s (snd (clear_binding_mutation t s))"
| mark_ready: "share_write s (snd (mark_ready_mutation mode token eps url t s))"

inductive env_write :: "ZrokEnvironment \<Rightarrow> ZrokEnvironment \<Rightarrow> bool" where
  not_ready: "env_write e (snd (env_not_ready_mutation rsn msg t e))"
| set_zid: "env_write e (snd (set_zid_mutation zid t e))"
| enabled: "env_write e (snd (enabled_mutation zid u t e))"
| waiting: "env_write e (snd (env_waiting_mutation service t e))"
| unreachable: "env_write e (snd (env_unreachable_mutation service msg t e))"
| ready: "env_write e (snd (env_ready_mutation service t e))"
| shares_exist: "env_write e (snd (shares_exist_mutation msg t e))"

inductive access_write :: "ZrokAccess \<Rightarrow> ZrokAccess \<Rightarrow> bool" where
  not_ready: "access_write a (snd (access_not_ready_mutation rsn msg t a))"
| ready: "access_write a (snd (access_ready_mutation token endpoint t a))"
| clear: "access_write a (snd (access_clear_mutation t a))"

inductive_cases share_writeE: "share_write s s'"
inductive_cases env_writeE: "env_write e e'"
inductive_cases access_writeE: "access_write a a'"

fun writes_status :: "event \<Rightarrow> bool" where
  "writes_status (StatusPatch before obj r) =
     (case (before, obj) of
        (ShareObj s, ShareObj s') \<Rightarrow> share_write s s'
      | (EnvObj e, EnvObj e') \<Rightarrow> env_write e e'
      | (AccessObj a, AccessObj a') \<Rightarrow> access_write a a'
      | (IngressObj i, IngressObj i') \<Rightarrow> True
      | _ \<Rightarrow> False)"
| "writes_status e = True"

named_theorems write_intros "programs whose status patches are among the writes"

section \<open>The reconcilers send nothing else\<close>

lemma share_patch_writes:
  assumes "total_mutation m" and "\<And>t s. share_write s (snd (m t s))"
  shows "emits writes_status (PatchShareStatus A share m)"
proof (rule PatchStatus_emits [OF assms(1)])
  fix e assume "patch_event KShare ShareObj m e"
  then show "writes_status e" using assms(2) by (auto simp: patch_event_def)
qed

lemma env_patch_writes:
  assumes "total_mutation m" and "\<And>t e. env_write e (snd (m t e))"
  shows "emits writes_status (PatchEnvStatus A env m)"
proof (rule PatchStatus_emits [OF assms(1)])
  fix e assume "patch_event KEnv EnvObj m e"
  then show "writes_status e" using assms(2) by (auto simp: patch_event_def)
qed

lemma access_patch_writes:
  assumes "total_mutation m" and "\<And>t a. access_write a (snd (m t a))"
  shows "emits writes_status (PatchAccessStatus A access m)"
proof (rule PatchStatus_emits [OF assms(1)])
  fix e assume "patch_event KAccess AccessObj m e"
  then show "writes_status e" using assms(2) by (auto simp: patch_event_def)
qed

lemma patches_write [write_intros]:
  "emits writes_status (PatchShareStatus A share (not_ready_mutation rsn msg))"
  "emits writes_status (PatchShareStatus A share (name_condition_mutation rsn msg))"
  "emits writes_status (PatchShareStatus A share waiting_mutation)"
  "emits writes_status (PatchShareStatus A share clear_binding_mutation)"
  "emits writes_status (PatchShareStatus A share (mark_ready_mutation mode token eps url))"
  "emits writes_status (PatchEnvStatus A env (env_not_ready_mutation rsn msg))"
  "emits writes_status (PatchEnvStatus A env (set_zid_mutation zid))"
  "emits writes_status (PatchEnvStatus A env (enabled_mutation zid u))"
  "emits writes_status (PatchEnvStatus A env (env_waiting_mutation service))"
  "emits writes_status (PatchEnvStatus A env (env_unreachable_mutation service msg))"
  "emits writes_status (PatchEnvStatus A env (env_ready_mutation service))"
  "emits writes_status (PatchEnvStatus A env (shares_exist_mutation msg))"
  "emits writes_status (PatchAccessStatus A access (access_not_ready_mutation rsn msg))"
  "emits writes_status (PatchAccessStatus A access (access_ready_mutation token endpoint))"
  "emits writes_status (PatchAccessStatus A access access_clear_mutation)"
  by (intro share_patch_writes env_patch_writes access_patch_writes total_mutations env_total access_total
      share_write.intros env_write.intros access_write.intros)+

lemma ingress_patch_writes [write_intros]:
  "emits writes_status (PatchIngressStatus A ing (ingress_host_mutation host))"
  by (intro PatchStatus_emits ingress_host_total) (auto simp: patch_event_def)

subsection \<open>Shares\<close>

lemma share_writes_0 [write_intros]:
  "emits writes_status (share_setNotReady A share rsn msg)"
  "emits writes_status (share_record share ty rsn action note)"
  "emits writes_status (patchShareAnnotation A share k v)"
  "emits writes_status (ensureFinalizerAndLabels A share0)"
  "emits writes_status (getEnvironment A share)"
  "emits writes_status (share_readEnableToken A env)"
  "emits writes_status (readBasicAuth A share)"
  "emits writes_status (otherShareClaimingName A share)"
  "emits writes_status (loadInventory A env apiEndpoint enableToken baseURL)"
  "emits writes_status (ensureReservedName A share apiEndpoint enableToken)"
  "emits writes_status (releaseOurs A env apiEndpoint enableToken baseURL shareToken)"
  "emits writes_status (clearShareBinding A share)"
  "emits writes_status (delete_finish A share)"
  unfolding share_setNotReady_def share_record_def patchShareAnnotation_def
    ensureFinalizerAndLabels_def getEnvironment_def share_readEnableToken_def readBasicAuth_def
    otherShareClaimingName_def loadInventory_def ensureReservedName_def releaseOurs_def
    clearShareBinding_def delete_finish_def call_defs Let_def
  by (auto intro!: emits_intros write_intros)

lemma share_writes_1 [write_intros]:
  "emits writes_status (setNameConflict A share msg)"
  "emits writes_status (releaseAndClear A share env apiEndpoint enableToken baseURL shareToken)"
  "emits writes_status (flushReclaimName A share apiEndpoint enableToken)"
  "emits writes_status (markShareReady A share token endpoints digest)"
  "emits writes_status (inventory_of A v)"
  "emits writes_status (delete_name A d share)"
  unfolding setNameConflict_def releaseAndClear_def flushReclaimName_def markShareReady_def
    inventory_of_def delete_name_def call_defs Let_def
  by (auto intro!: emits_intros write_intros)

lemma share_writes_2 [write_intros]:
  "emits writes_status (reclaimPreviousName A share apiEndpoint enableToken oldName prevReserved)"
  "emits writes_status (handleShareConflict A v share)"
  "emits writes_status (delete_unshare A d shareToken share)"
  unfolding reclaimPreviousName_def handleShareConflict_def delete_unshare_def call_defs Let_def
  by (auto intro!: emits_intros write_intros)

lemma share_writes_3 [write_intros]:
  "emits writes_status (Reconcile_create A v share)"
  "emits writes_status (delete_with_env A env apiEndpoint enableToken share)"
  unfolding Reconcile_create_def delete_with_env_def call_defs Let_def
  by (auto intro!: emits_intros write_intros)

lemma share_writes_4 [write_intros]:
  "emits writes_status (Reconcile_heal A v cls share)"
  "emits writes_status (share_reconcileDelete A share)"
  unfolding Reconcile_heal_def share_reconcileDelete_def call_defs Let_def
  by (auto intro!: emits_intros write_intros)

lemma share_writes_5 [write_intros]:
  "emits writes_status (Reconcile_name A v cls share)"
  unfolding Reconcile_name_def call_defs Let_def
  by (auto intro!: emits_intros write_intros)

lemma share_writes_6 [write_intros]:
  "emits writes_status (Reconcile_inventory A v share)"
  unfolding Reconcile_inventory_def call_defs Let_def
  by (auto intro!: emits_intros write_intros)

lemma share_writes_7 [write_intros]:
  "emits writes_status (Reconcile_inputs A mode env share)"
  unfolding Reconcile_inputs_def call_defs Let_def
  by (auto intro!: emits_intros write_intros)

lemma share_writes_8 [write_intros]:
  "emits writes_status (Reconcile_env A mode share)"
  unfolding Reconcile_env_def call_defs Let_def
  by (auto intro!: emits_intros write_intros)

lemma share_writes_9 [write_intros]:
  "emits writes_status (Reconcile_live A restrictUpstream share)"
  unfolding Reconcile_live_def call_defs Let_def
  by (auto intro!: emits_intros write_intros)

lemma share_writes_10 [write_intros]:
  "emits writes_status (share_Reconcile A restrictUpstream req)"
  unfolding share_Reconcile_def call_defs Let_def
  by (auto intro!: emits_intros write_intros)

subsection \<open>Accesses\<close>

lemma access_writes_0 [write_intros]:
  "emits writes_status (access_setNotReady A access rsn msg)"
  "emits writes_status (markAccessReady A access token bindAddress)"
  "emits writes_status (access_reconcileDelete A access)"
  unfolding access_setNotReady_def markAccessReady_def access_reconcileDelete_def call_defs
    Let_def
  by (auto intro!: emits_intros write_intros)

lemma access_writes_1 [write_intros]:
  "emits writes_status (access_create A addr access)"
  unfolding access_create_def call_defs Let_def
  by (auto intro!: emits_intros write_intros)

lemma access_writes_2 [write_intros]:
  "emits writes_status (access_ensure A addr access)"
  unfolding access_ensure_def call_defs Let_def
  by (auto intro!: emits_intros write_intros)

lemma access_writes_3 [write_intros]:
  "emits writes_status (access_refresh A addr access)"
  unfolding access_refresh_def call_defs Let_def
  by (auto intro!: emits_intros write_intros)

lemma access_writes_4 [write_intros]:
  "emits writes_status (access_live A access)"
  unfolding access_live_def call_defs Let_def
  by (auto intro!: emits_intros write_intros)

lemma access_writes_5 [write_intros]:
  "emits writes_status (access_Reconcile A req)"
  unfolding access_Reconcile_def call_defs Let_def
  by (auto intro!: emits_intros write_intros)

subsection \<open>Environments\<close>

lemma env_writes_0 [write_intros]:
  "emits writes_status (env_setNotReady A env rsn msg)"
  "emits writes_status (env_record env ty rsn action msg)"
  "emits writes_status (env_readEnableToken A env)"
  "emits writes_status (resolveUniqueID A env)"
  "emits writes_status (drop_secret A existing what)"
  "emits writes_status (create_if_absent wrap c desired)"
  "emits writes_status (isAgentReady A env)"
  "emits writes_status (env_teardown A env)"
  unfolding env_setNotReady_def env_record_def env_readEnableToken_def resolveUniqueID_def
    drop_secret_def create_if_absent_def isAgentReady_def env_teardown_def call_defs Let_def
  by (auto intro!: emits_intros write_intros)

lemma env_writes_1 [write_intros]:
  "emits writes_status (adoptIdentitySecret A env existing)"
  "emits writes_status (enable_environment A env token ep)"
  "emits writes_status (ensurePVC A env)"
  "emits writes_status (ensureService A env)"
  "emits writes_status (ensureDeployment A env)"
  "emits writes_status (ensureNetworkPolicy A cfg env)"
  "emits writes_status (env_readiness A env)"
  "emits writes_status (env_disable A env)"
  unfolding adoptIdentitySecret_def enable_environment_def ensurePVC_def ensureService_def
    ensureDeployment_def ensureNetworkPolicy_def env_readiness_def env_disable_def
    env_not_yet_def call_defs Let_def
  by (auto intro!: emits_intros write_intros)

lemma env_writes_2 [write_intros]:
  "emits writes_status (ensureEnabled A env token)"
  "emits writes_status (env_ensure_agent A cfg env)"
  "emits writes_status (env_reconcileDelete A env)"
  unfolding ensureEnabled_def env_ensure_agent_def env_reconcileDelete_def env_step_def
    call_defs Let_def
  by (auto intro!: emits_intros write_intros)

lemma env_writes_3 [write_intros]:
  "emits writes_status (env_live A cfg env)"
  unfolding env_live_def call_defs Let_def
  by (auto intro!: emits_intros write_intros)

lemma env_writes_4 [write_intros]:
  "emits writes_status (env_Reconcile A cfg req)"
  unfolding env_Reconcile_def call_defs Let_def
  by (auto intro!: emits_intros write_intros)

subsection \<open>Ingresses\<close>

lemma ingress_writes_0 [write_intros]:
  "emits writes_status (CreateOrUpdate wrap kd c obj mutate)"
  "emits writes_status (ingress_status A ing)"
  unfolding CreateOrUpdate_def ingress_status_def call_defs Let_def
  by (auto intro!: emits_intros write_intros)

lemma ingress_writes_1 [write_intros]:
  "emits writes_status (ingress_live A ing)"
  unfolding ingress_live_def call_defs Let_def
  by (auto intro!: emits_intros write_intros)

lemma ingress_writes_2 [write_intros]:
  "emits writes_status (ingress_Reconcile A req)"
  unfolding ingress_Reconcile_def call_defs Let_def
  by (auto intro!: emits_intros write_intros)

section \<open>The operator\<close>

text \<open>What a reconcile of any of the four controllers does, whatever the outside answers.\<close>

inductive operator_event :: "event \<Rightarrow> bool" where
  share: "e \<in> set (trace_of (share_Reconcile A restrictUpstream req)) \<Longrightarrow> operator_event e"
| access: "e \<in> set (trace_of (access_Reconcile A req)) \<Longrightarrow> operator_event e"
| env: "e \<in> set (trace_of (env_Reconcile A cfg req)) \<Longrightarrow> operator_event e"
| ingress: "e \<in> set (trace_of (ingress_Reconcile A req)) \<Longrightarrow> operator_event e"

lemma operator_writes: "operator_event e \<Longrightarrow> writes_status e"
  by (induction rule: operator_event.induct)
    (use emits_trace [OF share_writes_10] emits_trace [OF access_writes_5] emits_trace [OF env_writes_4]
       emits_trace [OF ingress_writes_2] in \<open>auto simp: list_all_iff\<close>)

lemma operator_status_patch:
  "operator_event (StatusPatch (ShareObj s) (ShareObj s') r) \<Longrightarrow> share_write s s'"
  "operator_event (StatusPatch (EnvObj e) (EnvObj e') r) \<Longrightarrow> env_write e e'"
  "operator_event (StatusPatch (AccessObj a) (AccessObj a') r) \<Longrightarrow> access_write a a'"
  using operator_writes by fastforce+

end
