(* ===== verification/StatusInvariant.thy ===== *)
theory StatusInvariant
  imports StatusWrites
begin

text \<open>
  An invariant of everything the operator writes to a status: conditions stay a list with one
  entry per type and bounded messages, and no condition is ever dropped. The three custom
  resources keep their conditions in different places; the interface \<open>status_object\<close> says what
  they share.
\<close>

section \<open>Steps of a condition list\<close>

definition conditions_step :: "Condition list \<Rightarrow> Condition list \<Rightarrow> bool" where
  "conditions_step cs cs' \<longleftrightarrow>
     (conditions_wf cs \<longrightarrow> conditions_wf cs') \<and> cType ` set cs \<subseteq> cType ` set cs'"

lemma conditions_step_refl [simp]: "conditions_step cs cs"
  by (simp add: conditions_step_def)

lemma conditions_step_trans: "conditions_step a b \<Longrightarrow> conditions_step b c \<Longrightarrow> conditions_step a c"
  by (auto simp: conditions_step_def)

lemma SetCondition_types:
  "cType ` set (SetCondition t cs ty st rsn msg gen) = insert ty (cType ` set cs)"
proof -
  have "cType ` set (SetCondition t cs ty st rsn msg gen) = set (map cType (SetCondition t cs ty st rsn msg gen))"
    by simp
  then show ?thesis unfolding SetCondition_def map_cType_upsert by auto
qed

lemma conditions_step_Set: "conditions_step cs (SetCondition t cs ty st rsn msg gen)"
  by (auto simp: conditions_step_def SetCondition_wf SetCondition_types)

section \<open>Objects with a status\<close>

definition status_step :: "('o \<Rightarrow> Condition list) \<Rightarrow> 'o \<Rightarrow> 'o \<Rightarrow> bool" where
  "status_step conds x y \<longleftrightarrow> conditions_step (conds x) (conds y)"

locale status_object =
  fixes conditions :: "'o \<Rightarrow> Condition list"
    and with_condition :: "time \<Rightarrow> string \<Rightarrow> string \<Rightarrow> string \<Rightarrow> string \<Rightarrow> 'o \<Rightarrow> 'o"
    and gen :: "'o \<Rightarrow> int"
  assumes conditions_with:
    "conditions (with_condition t ty st rsn msg x) = SetCondition t (conditions x) ty st rsn msg (gen x)"
begin

lemma step_refl: "conditions y = conditions x \<Longrightarrow> status_step conditions x y"
  by (simp add: status_step_def)

lemma step_with: "status_step conditions x y \<Longrightarrow> status_step conditions x (with_condition t ty st rsn msg y)"
  unfolding status_step_def conditions_with by (rule conditions_step_trans [OF _ conditions_step_Set])

lemma step_if: "status_step conditions x y \<Longrightarrow> status_step conditions x z
    \<Longrightarrow> status_step conditions x (if c then y else z)"
  by simp

end

definition share_conds :: "ZrokShare \<Rightarrow> Condition list" where
  "share_conds s = shConditions (ShareStatus s)"
definition env_conds :: "ZrokEnvironment \<Rightarrow> Condition list" where
  "env_conds e = enConditions (EnvStatus e)"
definition access_conds :: "ZrokAccess \<Rightarrow> Condition list" where
  "access_conds a = acConditions (AccessStatus a)"

interpretation share_status: status_object
  share_conds share_condition Generation
  by unfold_locales (simp add: share_conds_def share_condition_def share_set_status_def)

interpretation env_status: status_object
  env_conds env_condition Generation
  by unfold_locales (simp add: env_conds_def env_condition_def env_set_status_def)

interpretation access_status: status_object
  access_conds access_condition Generation
  by unfold_locales (simp add: access_conds_def access_condition_def access_set_status_def)

section \<open>What each write does\<close>

lemma share_write_step: "share_write s s' \<Longrightarrow> status_step share_conds s s'"
  unfolding share_write.simps mutation_defs Let_def snd_conv
  by (elim disjE exE conjE; hypsubst; intro share_status.step_with share_status.step_if;
      rule share_status.step_refl; simp add: share_conds_def share_observed_def share_set_status_def)

lemma env_write_step: "env_write e e' \<Longrightarrow> status_step env_conds e e'"
  unfolding env_write.simps env_not_ready_mutation_def set_zid_mutation_def enabled_mutation_def
    env_waiting_mutation_def env_unreachable_mutation_def env_ready_mutation_def shares_exist_mutation_def
    Let_def snd_conv
  by (elim disjE exE conjE; hypsubst; ((rule env_status.step_with)+)?; rule env_status.step_refl;
      simp add: env_conds_def env_set_status_def)

lemma access_write_step: "access_write a a' \<Longrightarrow> status_step access_conds a a'"
  unfolding access_write.simps access_not_ready_mutation_def access_ready_mutation_def
    access_clear_mutation_def snd_conv
  by (elim disjE exE conjE; hypsubst; ((rule access_status.step_with)+)?; rule access_status.step_refl;
      simp add: access_conds_def access_set_status_def)

section \<open>What each reconciler sends\<close>

fun keeps_conditions :: "event \<Rightarrow> bool" where
  "keeps_conditions (StatusPatch before obj r) =
     (case (before, obj) of
        (ShareObj s, ShareObj s') \<Rightarrow> conditions_step (share_conds s) (share_conds s')
      | (EnvObj e, EnvObj e') \<Rightarrow> conditions_step (env_conds e) (env_conds e')
      | (AccessObj a, AccessObj a') \<Rightarrow> conditions_step (access_conds a) (access_conds a')
      | (IngressObj i, IngressObj i') \<Rightarrow> True
      | _ \<Rightarrow> False)"
| "keeps_conditions e = True"

lemma writes_keep: "writes_status e \<Longrightarrow> keeps_conditions e"
  by (cases e rule: keeps_conditions.cases)
    (auto dest: share_write_step env_write_step access_write_step simp: status_step_def split: object.splits)

lemma writes_keep_trace: "emits writes_status m \<Longrightarrow> list_all keeps_conditions (trace_of m)"
  by (rule emits_trace, erule emits_mono, rule writes_keep)

section \<open>The invariant\<close>

text \<open>Every status the operator writes keeps the invariant of its condition list: whatever the API
  server, the zrok controller and the agent answer, a reconcile of a share, an access, an
  environment or an Ingress only sends status patches whose object has, if the object it replaces
  has it, at most one condition per type and messages of at most 1024 bytes, and none of the
  conditions of the replaced object is dropped.\<close>

theorem status_patches_keep_conditions:
  "list_all keeps_conditions (trace_of (share_Reconcile A restrictUpstream req))
   \<and> list_all keeps_conditions (trace_of (access_Reconcile A req))
   \<and> list_all keeps_conditions (trace_of (env_Reconcile A cfg req))
   \<and> list_all keeps_conditions (trace_of (ingress_Reconcile A req))"
  by (intro conjI writes_keep_trace write_intros)

end
