(* ===== verification/AgentWiring.thy ===== *)
theory AgentWiring
  imports EnvReconcile
begin

text \<open>
  How the objects that the operator creates for an environment's agent fit together, by the
  meaning Kubernetes gives them: a selector matches labels that contain it, a Service sends a
  port to the target port of the pods it selects, a NetworkPolicy admits to the pods it selects
  what one of its rules admits, a mount needs a volume of its name.
\<close>

section \<open>What the objects mean\<close>

definition selects :: "labels \<Rightarrow> labels \<Rightarrow> bool" where
  "selects sel ls \<longleftrightarrow> sel \<subseteq>\<^sub>m ls"

definition pod_of :: "Deployment \<Rightarrow> PodSpec" where
  "pod_of d = depPodSpec (DepSpec d)"





definition mounts_ok :: "PodSpec \<Rightarrow> bool" where
  "mounts_ok pod \<longleftrightarrow>
     distinct (map volName (podVolumes pod)) \<and> distinct (map cnName (podInitContainers pod @ podContainers pod))
     \<and> list_all (\<lambda>c. list_all (\<lambda>m. vmName m \<in> set (map volName (podVolumes pod))) (cnVolumeMounts c)
          \<and> distinct (map vmMountPath (cnVolumeMounts c)))
       (podInitContainers pod @ podContainers pod)"

definition hardened :: "PodSpec \<Rightarrow> bool" where
  \<comment> \<open>the pod-security standard \<open>restricted\<close>, and no token of the API server\<close>
  "hardened pod \<longleftrightarrow>
     podAutomountServiceAccountToken pod = Some False
     \<and> pscRunAsNonRoot (podSecurityContext pod) = Some True
     \<and> pscSeccompProfile (podSecurityContext pod) = ''RuntimeDefault''
     \<and> list_all (\<lambda>c. scRunAsNonRoot (cnSecurityContext c) = Some True
          \<and> scAllowPrivilegeEscalation (cnSecurityContext c) = Some False
          \<and> scCapabilitiesDrop (cnSecurityContext c) = [''ALL''])
       (podInitContainers pod @ podContainers pod)"

definition volumes_provided :: "PodSpec \<Rightarrow> PersistentVolumeClaim \<Rightarrow> string \<Rightarrow> bool" where
  \<comment> \<open>every volume is the claim or the Secret of that name\<close>
  "volumes_provided pod pvc secret \<longleftrightarrow>
     list_all (\<lambda>v. volSource v \<in> {PVCVolume (Name pvc), SecretVolume secret}) (podVolumes pod)"

section \<open>Evaluation\<close>


lemma empty_le [simp]: "Map.empty \<subseteq>\<^sub>m ls"
  by (simp add: map_le_def)

lemmas desired_simps =
  DesiredDeployment_def DesiredService_def DesiredNetworkPolicy_def DesiredPVC_def new_meta_def
  ObjectMeta.defs Deployment.defs Service.defs NetworkPolicy.defs PersistentVolumeClaim.defs Let_def

lemma agent_pod:
  "podContainers (pod_of (DesiredDeployment env)) = [agent_container env, proxy_container env]"
  "podInitContainers (pod_of (DesiredDeployment env)) = [seed_container (agent_Image env)]"
  "podSecurityContext (pod_of (DesiredDeployment env)) = agent_podSec"
  "podAutomountServiceAccountToken (pod_of (DesiredDeployment env)) = Some False"
  "podVolumes (pod_of (DesiredDeployment env)) =
     [\<lparr>volName = ''zrok-home'', volSource = PVCVolume (PVCName env)\<rparr>,
      \<lparr>volName = seedVolumeName, volSource = SecretVolume (IdentitySecretName env)\<rparr>]"
  by (simp_all add: pod_of_def desired_simps)


lemma desired_meta:
  "Namespace (DesiredService env) = Namespace env" "Namespace (DesiredDeployment env) = Namespace env"
  "Namespace (DesiredNetworkPolicy env ns app) = Namespace env" "Name (DesiredService env) = ServiceName env"
  "ssSelector (SvcSpec (DesiredService env)) = agent_Labels env"
  "depTemplateLabels (DepSpec (DesiredDeployment env)) = agent_Labels env"
  "depSelector (DepSpec (DesiredDeployment env)) = agent_Labels env"
  "npPodSelector (NPSpec (DesiredNetworkPolicy env ns app)) = agent_Labels env"
  "ssPorts (SvcSpec (DesiredService env)) = [\<lparr>spName = ''grpc'', spPort = DefaultGRPCPort,
      spTargetPort = DefaultGRPCPort, spProtocol = ProtocolTCP\<rparr>]"
  "Name (DesiredPVC env) = PVCName env"
  by (simp_all add: desired_simps GRPCPort_def)



lemmas container_defs =
  seed_container_def agent_container_def proxy_container_def agent_secCtx_def agent_podSec_def Let_def

lemma agent_pod_hardened: "hardened (pod_of (DesiredDeployment env))"
  by (simp add: hardened_def agent_pod container_defs)

lemma agent_pod_mounts: "mounts_ok (pod_of (DesiredDeployment env))"
  by (simp add: mounts_ok_def agent_pod container_defs)

lemma agent_pod_volumes:
  "volumes_provided (pod_of (DesiredDeployment env)) (DesiredPVC env) (Name (identity_secret env zid token ep cfg))"
  by (simp add: volumes_provided_def agent_pod desired_meta identity_secret_def new_meta_def ObjectMeta.defs
      Secret.defs)

section \<open>Properties\<close>


text \<open>C36: The pod template of every agent is well formed and hardened, whatever the spec says: the
  Deployment selects its own pods; names of containers and volumes are distinct; every mount has
  its volume, and every volume is the claim or the identity Secret that the operator creates for
  the environment; every container, the init container included, runs as non-root without
  privilege escalation and with all capabilities dropped, and the pod gets no API token.\<close>

theorem agent_pod_is_well_formed:
  "selects (depSelector (DepSpec (DesiredDeployment env))) (depTemplateLabels (DepSpec (DesiredDeployment env)))
   \<and> mounts_ok (pod_of (DesiredDeployment env)) \<and> hardened (pod_of (DesiredDeployment env))
   \<and> volumes_provided (pod_of (DesiredDeployment env)) (DesiredPVC env)
       (Name (identity_secret env zid token ep cfg))"
  by (simp add: desired_meta selects_def agent_pod_hardened agent_pod_mounts agent_pod_volumes)

text \<open>
  The console and the gRPC proxy listen in the same pod. The console port is not restricted to
  differ from the proxy's, so a spec can ask for two listeners on one port.
\<close>

lemma console_port_can_clash:
  "distinct (concat (map (map cpContainerPort \<circ> cnPorts) (podContainers (pod_of (DesiredDeployment env)))))
   \<longleftrightarrow> agConsolePort (enAgent (EnvSpec env)) \<noteq> DefaultGRPCPort"
  by (simp add: agent_pod agent_container_def proxy_container_def ConsolePort_def GRPCPort_def Let_def)

text \<open>
  The number of replicas is the spec's: nothing in the code keeps it at one. And the address of
  the agent of no environment at all is still an address.
\<close>

lemma replicas_not_clamped:
  "depReplicas (DepSpec (DesiredDeployment env)) =
     Some (case agReplicas (enAgent (EnvSpec env)) of Some n \<Rightarrow> n | None \<Rightarrow> 1)"
  by (simp add: desired_simps)

lemma dial_addr_of_no_environment: "AgentDialAddr zero_env = ''-agent..svc:'' @ fmt_d DefaultGRPCPort"
  by (simp add: AgentDialAddr_def ServiceName_def GRPCPort_def zero_env_def)

end
