(* ===== verification/ShareDigest.thy ===== *)
theory ShareDigest
  imports ShareApply
begin

text \<open>
  What the applied digest distinguishes: the fields that an agent share is made from. The digest
  is a hash of a list of lines; the lines, and from them the fields, can be read back as long as
  no field contains a newline.
\<close>

section \<open>The applied fields\<close>

record applied_spec =
  apEnv :: string
  apMode :: string
  apBackend :: string
  apUpstream :: string
  apName :: string
  apPrivateToken :: string
  apInsecure :: bool
  apClosed :: bool
  apGrants :: "string multiset"
  apSecretRef :: "string option"
  apBasicAuth :: "string list"
  apOAuth :: "(string \<times> string \<times> string multiset) option"

definition applied :: "ZrokShare \<Rightarrow> string list \<Rightarrow> applied_spec" where
  "applied share basicAuth =
     (let spec = ShareSpec share in
      \<lparr>apEnv = shEnvironmentRef spec, apMode = desiredShareMode share, apBackend = desiredBackendMode share,
       apUpstream = shUpstreamURL spec,
       apName = nameNamespaceToken share @ ''/'' @ reservedFrontendName share,
       apPrivateToken = shPrivateShareToken spec, apInsecure = shInsecure spec, apClosed = shClosed spec,
       apGrants = mset (shAccessGrants spec), apSecretRef = shBasicAuthSecretRef spec,
       apBasicAuth = basicAuth,
       apOAuth = map_option (\<lambda>oa. (oaProvider oa, oaRefreshInterval oa, mset (oaEmailDomains oa))) (shOAuth spec)\<rparr>)"

text \<open>The lines depend on the applied fields only: the order of grants and domains is lost by sorting.\<close>

definition fields_of :: "applied_spec \<Rightarrow> (string \<times> string) list" where
  "fields_of p =
     [(''env'', apEnv p), (''mode'', apMode p), (''backend'', apBackend p), (''up'', apUpstream p),
      (''name'', apName p), (''priv'', apPrivateToken p), (''insecure'', fmt_t (apInsecure p)),
      (''closed'', fmt_t (apClosed p))]
     @ map (Pair ''grant'') (sorted_list_of_multiset (apGrants p))
     @ (case apSecretRef p of Some ref \<Rightarrow> [(''ba-secret'', ref)] | None \<Rightarrow> [])
     @ map (Pair ''ba'') (apBasicAuth p)
     @ (case apOAuth p of
          Some (provider, interval, domains) \<Rightarrow> (''oauth'', provider) # (''interval'', interval)
            # map (Pair ''oauth-domain'') (sorted_list_of_multiset domains)
        | None \<Rightarrow> [])"

lemma digestFields_applied: "digestFields share ba = fields_of (applied share ba)"
  by (simp add: digestFields_def fields_of_def applied_def Let_def split: option.split)

text \<open>And they can be read back from the lines.\<close>

lemma field_values_fields_of:
  "field_values ''env'' (fields_of p) = [apEnv p]"
  "field_values ''mode'' (fields_of p) = [apMode p]"
  "field_values ''backend'' (fields_of p) = [apBackend p]"
  "field_values ''up'' (fields_of p) = [apUpstream p]"
  "field_values ''name'' (fields_of p) = [apName p]"
  "field_values ''priv'' (fields_of p) = [apPrivateToken p]"
  "field_values ''insecure'' (fields_of p) = [fmt_t (apInsecure p)]"
  "field_values ''closed'' (fields_of p) = [fmt_t (apClosed p)]"
  "field_values ''grant'' (fields_of p) = sorted_list_of_multiset (apGrants p)"
  "field_values ''ba-secret'' (fields_of p) = (case apSecretRef p of Some ref \<Rightarrow> [ref] | None \<Rightarrow> [])"
  "field_values ''ba'' (fields_of p) = apBasicAuth p"
  "field_values ''oauth'' (fields_of p) = (case apOAuth p of Some (x, y, z) \<Rightarrow> [x] | None \<Rightarrow> [])"
  "field_values ''interval'' (fields_of p) = (case apOAuth p of Some (x, y, z) \<Rightarrow> [y] | None \<Rightarrow> [])"
  "field_values ''oauth-domain'' (fields_of p) =
     (case apOAuth p of Some (x, y, z) \<Rightarrow> sorted_list_of_multiset z | None \<Rightarrow> [])"
  by (simp_all add: fields_of_def field_values_simps split: option.split)

lemma sorted_list_of_multiset_inj: "sorted_list_of_multiset a = sorted_list_of_multiset b \<Longrightarrow> a = b"
  by (metis mset_sorted_list_of_multiset)

lemma fields_of_inj:
  assumes "fields_of p = fields_of q"
  shows "p = q"
proof -
  note eq = arg_cong [OF assms]
  have simple: "apEnv p = apEnv q" "apMode p = apMode q" "apBackend p = apBackend q" "apUpstream p = apUpstream q"
    "apName p = apName q" "apPrivateToken p = apPrivateToken q"
    using eq [of "field_values ''env''"] eq [of "field_values ''mode''"] eq [of "field_values ''backend''"]
      eq [of "field_values ''up''"] eq [of "field_values ''name''"] eq [of "field_values ''priv''"]
    by (simp_all add: field_values_fields_of)
  have flags: "apInsecure p = apInsecure q" "apClosed p = apClosed q"
    using eq [of "field_values ''insecure''"] eq [of "field_values ''closed''"]
    by (simp_all add: field_values_fields_of fmt_t_inj)
  have lists: "apGrants p = apGrants q" "apBasicAuth p = apBasicAuth q"
    using eq [of "field_values ''grant''"] eq [of "field_values ''ba''"]
    by (simp_all add: field_values_fields_of sorted_list_of_multiset_inj)
  have ref: "apSecretRef p = apSecretRef q"
    using eq [of "field_values ''ba-secret''"] by (simp add: field_values_fields_of split: option.splits)
  have "apOAuth p = apOAuth q"
    using eq [of "field_values ''oauth''"] eq [of "field_values ''interval''"] eq [of "field_values ''oauth-domain''"]
    by (auto simp: field_values_fields_of sorted_list_of_multiset_inj split: option.splits)
  then show ?thesis using simple flags lists ref by simp
qed

section \<open>Properties\<close>

text \<open>C26: For two shares with no newline in any field, the text that is hashed is the same exactly when
  they agree in every field an agent share is made from - environment, modes, upstream, name and
  name space, tokens, flags, basic auth, OAuth - and, up to their order, in the access grants and
  the e-mail domains. So an unchanged spec never drifts and, up to collisions of the hash, every
  change of an applied field does. With newlines this fails: the lines are not escaped, as the
  example of two specs with one text shows.\<close>

theorem digest_input_identifies_applied_spec:
  assumes "newline_free a ba" and "newline_free b bb"
  shows "digestInput a ba = digestInput b bb \<longleftrightarrow> applied a ba = applied b bb"
proof
  assume "digestInput a ba = digestInput b bb"
  from digestInput_fields [OF this assms] have "fields_of (applied a ba) = fields_of (applied b bb)"
    unfolding digestFields_applied .
  then show "applied a ba = applied b bb" by (rule fields_of_inj)
next
  assume "applied a ba = applied b bb"
  then show "digestInput a ba = digestInput b bb" unfolding digestInput_render digestFields_applied by simp
qed

definition digest_example :: "string list \<Rightarrow> bool \<Rightarrow> ZrokShare" where
  "digest_example grants closed =
     (let s = zero_share ''prod'' ''web'' in
      s\<lparr>ShareSpec := (ShareSpec s)\<lparr>shEnvironmentRef := ''main'', shUpstreamURL := ''http://web'',
          shClosed := closed, shAccessGrants := grants\<rparr>\<rparr>)"

lemma digest_example_newline_free:
  "list_all (\<lambda>g. CHR 0x0A \<notin> set g) grants \<Longrightarrow> newline_free (digest_example grants closed) []"
  by (simp add: newline_free_def digestFields_def digest_example_def zero_share_def desiredShareMode_def
      desiredBackendMode_def nameNamespaceToken_def reservedFrontendName_def fmt_t_def list_all_iff Let_def)

lemma digest_input_identifies_applied_spec_witness:
  "digestInput (digest_example [''a@x'', ''b@x''] True) [] = digestInput (digest_example [''b@x'', ''a@x''] True) []
   \<and> digestInput (digest_example [''a@x''] True) [] \<noteq> digestInput (digest_example [''a@x''] False) []"
proof -
  have nf: "newline_free (digest_example [''a@x'', ''b@x''] True) []"
    "newline_free (digest_example [''b@x'', ''a@x''] True) []"
    "newline_free (digest_example [''a@x''] c) []" for c
    by (rule digest_example_newline_free, simp)+
  show ?thesis
    unfolding digest_input_identifies_applied_spec [OF nf(1,2)] digest_input_identifies_applied_spec [OF nf(3,3)]
    by (simp add: applied_def digest_example_def zero_share_def desiredShareMode_def desiredBackendMode_def
        nameNamespaceToken_def reservedFrontendName_def Let_def add_mset_commute)
qed

text \<open>
  With a newline in a grant the text is ambiguous: a share with the grant \<open>a\<close> and basic auth
  \<open>u:p\<close> hashes the same text as one with the single grant \<open>a\<close>, newline, \<open>ba=u:p\<close> and none.
\<close>

lemma digest_ambiguous_with_newline:
  "digestInput (digest_example [''a''] True) [''u:p''] =
   digestInput (digest_example [''a'' @ [CHR 0x0A] @ ''ba=u:p''] True) []"
  by (simp add: digestInput_def digest_example_def zero_share_def desiredShareMode_def desiredBackendMode_def
      nameNamespaceToken_def reservedFrontendName_def line_def Let_def)

end
