(* ===== verification/ShareLiveness.thy ===== *)
theory ShareLiveness
  imports EnvLiveness ShareHelpers
begin

text \<open>
  Progress and stability of the share reconciler: a share that the agent already serves the way
  its spec says is reported ready, and nothing about it is released, recreated or deleted.
\<close>

section \<open>A settled share\<close>

record share_setting =
  swEnv :: ZrokEnvironment
  swToken :: Secret
  swShares :: "ZrokShare list"
  swRemotes :: "RemoteShare list option"
  swAgent :: StatusResponse
  swDetail :: ShareDetail

definition labels_settled :: "ZrokShare \<Rightarrow> bool" where
  "labels_settled share \<longleftrightarrow>
     ShareLabels share \<subseteq>\<^sub>m Labels share
     \<and> (ShareLabels share LabelFrontendName = None \<longrightarrow> Labels share LabelFrontendName = None)"

definition token_there :: "ZrokEnvironment \<Rightarrow> Secret \<Rightarrow> bool" where
  "token_there env secret \<longleftrightarrow>
     lookup_str (Data secret) (if skKey (enEnableTokenSecretRef (EnvSpec env)) = [] then DefaultEnableTokenKey
        else skKey (enEnableTokenSecretRef (EnvSpec env))) \<noteq> []"

definition share_world :: "api \<Rightarrow> ZrokShare \<Rightarrow> share_setting \<Rightarrow> bool" where
  \<comment> \<open>what the API server, the zrok controller and the agent answer\<close>
  "share_world A share w \<longleftrightarrow>
     serves (apiShares A) (object_key share) share \<and> accepts_status (apiShares A)
     \<and> serves (apiEnvs A) (Namespace share, shEnvironmentRef (ShareSpec share)) (swEnv w)
     \<and> serves (apiSecrets A) (Namespace (swEnv w), skName (enEnableTokenSecretRef (EnvSpec (swEnv w)))) (swToken w)
     \<and> (\<forall>h. apiListShares A h AllNamespaces = Inr (swShares w))
     \<and> (\<forall>h ep tok zid. restListShares A h ep tok zid = Inr (swRemotes w))
     \<and> (\<forall>h ep tok ns n. restCreateShareName A h ep tok ns n = None \<and> restUpdateShareName A h ep tok ns n True = None)
     \<and> (\<forall>h. agentStatus A h (AgentBaseURL (swEnv w)) = Inr (Some (swAgent w)))"

definition share_served :: "ZrokShare \<Rightarrow> share_setting \<Rightarrow> bool" where
  \<comment> \<open>the agent serves the share as its spec says, and nobody else claims its name\<close>
  "share_served share w \<longleftrightarrow>
     (let cls = classifyShare share (shUpstreamURL (ShareSpec share))
                  \<lparr>invRemote = swRemotes w, invAgent = stShares (swAgent w)\<rparr>
      in \<not> foreignName cls \<and> clsAgent cls = Some (swDetail w)
         \<and> agentShareMatchesSpec share (swDetail w) (shUpstreamURL (ShareSpec share)))
     \<and> otherShareWithFrontendName share (swShares w) = None
     \<and> lookup_str (Annotations share) annotationAppliedDigest = shareApplyDigest share []"

definition share_settled :: "api \<Rightarrow> bool \<Rightarrow> ZrokShare \<Rightarrow> share_setting \<Rightarrow> bool" where
  "share_settled A restrictUpstream share w \<longleftrightarrow>
     share_world A share w \<and> share_served share w
     \<and> ContainsFinalizer share ShareFinalizer \<and> labels_settled share
     \<and> share_spec_error restrictUpstream share = None
     \<and> IsTrue (enConditions (EnvStatus (swEnv w))) ConditionReady \<and> enEnvZID (EnvStatus (swEnv w)) \<noteq> []
     \<and> token_there (swEnv w) (swToken w)
     \<and> shBasicAuthSecretRef (ShareSpec share) = None
     \<and> lookup_str (Annotations share) annotationReclaimName = []"

section \<open>Steps\<close>

fun steady :: "event \<Rightarrow> bool" where
  \<comment> \<open>neither takes a share down or up, nor gives a name back, nor changes an object but its status\<close>
  "steady (AgentReleaseShare addr tok r) = False"
| "steady (AgentSharePublic addr req r) = False"
| "steady (AgentSharePrivate addr req r) = False"
| "steady (RestUnshare ep acc zid tok r) = False"
| "steady (RestDeleteShareName ep acc ns n r) = False"
| "steady (Create obj r) = False"
| "steady (Update obj r) = False"
| "steady (Patch before obj r) = False"
| "steady (Delete kd k r) = False"
| "steady e = True"

fun still :: "event \<Rightarrow> bool" where
  \<comment> \<open>and not its status either\<close>
  "still (StatusPatch before obj r) = False"
| "still e = steady e"

definition does :: "(event \<Rightarrow> bool) \<Rightarrow> 'a op \<Rightarrow> event list \<Rightarrow> 'a \<Rightarrow> bool" where
  \<comment> \<open>the program returns this, after such events only\<close>
  "does E m h x \<longleftrightarrow> (\<exists>es. run_state m h = (x, h @ es) \<and> list_all E es)"

abbreviation steadily :: "'a op \<Rightarrow> event list \<Rightarrow> 'a \<Rightarrow> bool" where "steadily \<equiv> does steady"
abbreviation stilly :: "'a op \<Rightarrow> event list \<Rightarrow> 'a \<Rightarrow> bool" where "stilly \<equiv> does still"

lemma does_ret: "does E (ret x) h x"
  by (simp add: does_def)

lemma does_bind:
  assumes "does E m h x" and "\<And>h. does E (f x) h y"
  shows "does E (m \<bind> f) h y"
proof -
  obtain es where 1: "run_state m h = (x, h @ es)" "list_all E es" using assms(1) by (auto simp: does_def)
  obtain es' where 2: "run_state (f x) (h @ es) = (y, (h @ es) @ es')" "list_all E es'"
    using assms(2) [of "h @ es"] unfolding does_def by blast
  show ?thesis unfolding does_def using 1 2 by (intro exI [of _ "es @ es'"]) simp
qed

lemma does_perform: "(\<And>h. reply h = r) \<Longrightarrow> E (ev r) \<Longrightarrow> does E (perform reply ev) h r"
  by (simp add: does_def)

lemma does_get:
  "serves c k x \<Longrightarrow> steadily (k8s_get kd wrap c k) h (Inr x)" "serves c k x \<Longrightarrow> stilly (k8s_get kd wrap c k) h (Inr x)"
  unfolding k8s_get_def by (rule does_perform; simp add: serves_def)+

lemma settled_labels:
  assumes "ContainsFinalizer share ShareFinalizer" and "labels_settled share"
  shows "ensureFinalizerAndLabels A share = ret (False, None, share)"
proof -
  have le: "ShareLabels share \<subseteq>\<^sub>m Labels share" using assms(2) by (simp add: labels_settled_def)
  have same: "ShareLabels share k = Some v \<Longrightarrow> lookup_str (Labels share) k = v" for k v
    using le by (auto simp: map_le_def lookup_str_def dom_def)
  then have "merge_labels (Labels share) (ShareLabels share) = Labels share"
    by (auto simp: merge_labels_def fun_eq_iff split: option.split)
  moreover have "\<not> labels_changed (Labels share) (ShareLabels share)"
  proof -
    have "lookup_str (Labels share) k = lookup_str (ShareLabels share) k" if "ShareLabels share k \<noteq> None" for k
      using that same [of k] by (auto simp: lookup_str_def)
    then show ?thesis unfolding labels_changed_def list_ex_iff by blast
  qed
  moreover have "\<not> (ShareLabels share LabelFrontendName = None \<and> Labels share LabelFrontendName \<noteq> None)"
    using assms(2) by (auto simp: labels_settled_def)
  ultimately show ?thesis
    using assms(1) by (auto simp: ensureFinalizerAndLabels_def Let_def)
qed

definition ready_report :: "ZrokShare \<Rightarrow> string \<Rightarrow> string list \<Rightarrow> event \<Rightarrow> bool" where
  \<comment> \<open>the server confirmed the share \<open>Ready\<close> under the token and at the endpoints\<close>
  "ready_report share token eps e \<longleftrightarrow>
     (\<exists>t. let a = snd (mark_ready_mutation (desiredShareMode share) token eps (assigned_url share token eps) t share)
          in e = StatusPatch (ShareObj share) (ShareObj a) (Inr (ShareObj a)) \<and> share_ready a
             \<and> shShareToken (ShareStatus a) = token)"

definition announces :: "ZrokShare \<Rightarrow> string \<Rightarrow> string list \<Rightarrow> outcome op \<Rightarrow> event list \<Rightarrow> bool" where
  \<comment> \<open>comes back in two minutes, after events that change nothing and a report that the share is ready\<close>
  "announces share token eps m h \<longleftrightarrow>
     (\<exists>es. run_state m h = ((requeue_after 120, None), h @ es)
        \<and> list_all (\<lambda>e. still e \<or> ready_report share token eps e) es
        \<and> list_ex (ready_report share token eps) es
        \<and> SetShareReady (Namespace share) (Name share) True \<in> set es)"

lemma announces_bind:
  assumes "stilly m h x" and "\<And>h. announces share token eps (f x) h"
  shows "announces share token eps (m \<bind> f) h"
proof -
  obtain es where 1: "run_state m h = (x, h @ es)" "list_all still es" using assms(1) by (auto simp: does_def)
  obtain es' where 2: "run_state (f x) (h @ es) = ((requeue_after 120, None), (h @ es) @ es')"
      "list_all (\<lambda>e. still e \<or> ready_report share token eps e) es'" "list_ex (ready_report share token eps) es'"
      "SetShareReady (Namespace share) (Name share) True \<in> set es'"
    using assms(2) [of "h @ es"] unfolding announces_def by blast
  have "list_all (\<lambda>e. still e \<or> ready_report share token eps e) es" using 1(2) by (auto simp: list_all_iff)
  then show ?thesis unfolding announces_def using 1(1) 2 by (intro exI [of _ "es @ es'"]) simp
qed

lemma mark_ready_facts:
  "share_ready (snd (mark_ready_mutation mode token eps url t s))"
  "shShareToken (ShareStatus (snd (mark_ready_mutation mode token eps url t s))) = token"
  "Annotations (snd (mark_ready_mutation mode token eps url t s)) = Annotations s"
  "Namespace (snd (mark_ready_mutation mode token eps url t s)) = Namespace s"
  "Name (snd (mark_ready_mutation mode token eps url t s)) = Name s"
  by (simp_all add: mark_ready_mutation_def Let_def share_condition_def share_set_status_def share_ready_def)

lemma settled_mark:
  assumes "share_world A share w" and "lookup_str (Annotations share) annotationAppliedDigest = digest"
    and "digest \<noteq> []"
  shows "announces share token eps (markShareReady A share token eps digest) h"
proof -
  let ?m = "mark_ready_mutation (desiredShareMode share) token eps (assigned_url share token eps)"
  obtain t where p: "run_state (PatchShareStatus A share ?m) h = ((None, snd (?m t share)), h @ [Get KShare (object_key share)
      (Inr (ShareObj share)), StatusPatch (ShareObj share) (ShareObj (snd (?m t share))) (Inr (ShareObj (snd (?m t share))))])"
    using run_PatchStatus [of "apiShares A" share ?m A KShare ShareObj h] assms(1) by (auto simp: share_world_def)
  have ann: "patchShareAnnotation A (snd (?m t share)) annotationAppliedDigest digest = ret (None, snd (?m t share))"
    using assms(2,3) by (simp add: patchShareAnnotation_def mark_ready_facts)
  let ?p = "StatusPatch (ShareObj share) (ShareObj (snd (?m t share))) (Inr (ShareObj (snd (?m t share))))"
  let ?es = "[Get KShare (object_key share) (Inr (ShareObj share)), ?p, SetShareReady (Namespace share) (Name share) True]"
  have rep: "ready_report share token eps ?p"
    unfolding ready_report_def Let_def using mark_ready_facts by blast
  have "\<exists>es'. run_state (markShareReady A share token eps digest) h = ((requeue_after 120, None), h @ ?es @ es')
      \<and> list_all still es'"
    unfolding markShareReady_def Let_def assigned_url_def [symmetric]
    by (simp add: p ann mark_ready_facts share_record_def)
  then obtain es' where es': "run_state (markShareReady A share token eps digest) h = ((requeue_after 120, None), h @ ?es @ es')"
      "list_all still es'" by blast
  have "list_all (\<lambda>e. still e \<or> ready_report share token eps e) es'" using es'(2) by (auto simp: list_all_iff)
  then show ?thesis
    unfolding announces_def using es'(1) rep by (intro exI [of _ "?es @ es'"]) simp
qed

lemma settled_token_read:
  assumes "share_world A share w" and "token_there (swEnv w) (swToken w)"
  shows "\<exists>tok. stilly (share_readEnableToken A (swEnv w)) h (Inr tok)"
proof -
  let ?ref = "enEnableTokenSecretRef (EnvSpec (swEnv w))"
  let ?k = "if skKey ?ref = [] then DefaultEnableTokenKey else skKey ?ref"
  obtain raw where raw: "Data (swToken w) ?k = Some raw" "raw \<noteq> []"
    using assms(2) by (auto simp: token_there_def lookup_str_def split: option.splits)
  have "stilly (getSecret A (Namespace (swEnv w), skName ?ref)) h (Inr (swToken w))"
    using assms(1) by (intro does_get(2)) (simp add: share_world_def)
  then have "stilly (share_readEnableToken A (swEnv w)) h (Inr raw)"
    unfolding share_readEnableToken_def Let_def
    by (rule does_bind) (use raw in \<open>simp add: does_ret\<close>)
  then show ?thesis by blast
qed

lemma settled_claim:
  assumes "share_world A share w" and "otherShareWithFrontendName share (swShares w) = None"
  shows "stilly (otherShareClaimingName A share) h (Inr None)"
proof (cases "reservedFrontendName share = []")
  case True
  then show ?thesis by (simp add: otherShareClaimingName_def does_ret)
next
  case False
  have "stilly (listZrokShares A AllNamespaces) h (Inr (swShares w))"
    unfolding listZrokShares_def using assms(1) by (intro does_perform) (simp_all add: share_world_def)
  then show ?thesis
    unfolding otherShareClaimingName_def using False
    by (simp add: does_bind does_ret assms(2))
qed

lemma settled_inventory:
  assumes "share_world A share w" and "enEnvZID (EnvStatus (swEnv w)) \<noteq> []"
  shows "stilly (loadInventory A (swEnv w) ep tok (AgentBaseURL (swEnv w))) h
    (\<lparr>invRemote = swRemotes w, invAgent = stShares (swAgent w)\<rparr>, None)"
proof -
  have "stilly (REST_ListShares A ep tok zid) h (Inr (swRemotes w))" for zid h
    unfolding REST_ListShares_def using assms(1) by (intro does_perform) (simp_all add: share_world_def)
  then have r: "stilly (if enEnvZID (EnvStatus (swEnv w)) \<noteq> []
             then do { r \<leftarrow> REST_ListShares A ep tok (enEnvZID (EnvStatus (swEnv w)));
                       case r of Inl e \<Rightarrow> ret (None, Some e) | Inr shares \<Rightarrow> ret (shares, None) }
             else ret (None, None)) h (swRemotes w, None)"
    using assms(2) by (auto intro!: does_bind does_ret)
  have a: "stilly (Agent_Status A (AgentBaseURL (swEnv w))) h (Inr (Some (swAgent w)))" for h
    unfolding Agent_Status_def using assms(1) by (intro does_perform) (simp_all add: share_world_def)
  show ?thesis
    unfolding loadInventory_def
    by (rule does_bind [OF r]) (auto intro!: does_bind [OF a] does_ret)
qed

lemma settled_name:
  assumes "share_world A share w"
  shows "stilly (ensureReservedName A share ep tok) h (None, share)"
proof (cases "reservedFrontendName share = []")
  case True
  then show ?thesis by (simp add: ensureReservedName_def Let_def does_ret)
next
  case False
  have c: "stilly (REST_CreateShareName A ep tok ns n) h None" for ns n h
    unfolding REST_CreateShareName_def using assms by (intro does_perform) (simp_all add: share_world_def)
  have u: "stilly (REST_UpdateShareName A ep tok ns n True) h None" for ns n h
    unfolding REST_UpdateShareName_def using assms by (intro does_perform) (simp_all add: share_world_def)
  show ?thesis
    unfolding ensureReservedName_def Let_def using False
    by (auto intro!: does_bind [OF c] does_bind [OF u] does_ret)
qed

lemma settled_live_share:
  assumes "share_settled A restrictUpstream share w"
  shows "announces share (sdToken (swDetail w)) (sdFrontendEndpoint (swDetail w)) (Reconcile_live A restrictUpstream share) h"
proof -
  note w = assms [unfolded share_settled_def]
  have world: "share_world A share w" and served: "share_served share w" using w by blast+
  let ?up = "shUpstreamURL (ShareSpec share)"
  let ?iv = "\<lparr>invRemote = swRemotes w, invAgent = stShares (swAgent w)\<rparr>"
  let ?cls = "classifyShare share ?up ?iv"
  have cls: "\<not> foreignName ?cls" "otherShareWithFrontendName share (swShares w) = None"
    and dig: "lookup_str (Annotations share) annotationAppliedDigest = shareApplyDigest share []"
    using served by (simp_all add: share_served_def Let_def)
  have adopt: "adoptableAgentShare share ?cls ?up (shareApplyDigest share []) = Some (swDetail w)"
    using served by (simp add: adoptable_Some_iff share_served_def Let_def shareDigestDrifted_def)
  have ne: "shareApplyDigest share [] \<noteq> []" using length_shareApplyDigest [of share "[]"] by auto
  have flush: "flushReclaimName A share ep tok = ret ((no_requeue, None), share)" for ep tok
    using w by (simp add: flushReclaimName_def Let_def)
  have name: "announces share (sdToken (swDetail w)) (sdFrontendEndpoint (swDetail w)) (Reconcile_name A v ?cls share) h"
    if "vDesired v = ?up" "vDigest v = shareApplyDigest share []" for v h
    unfolding Reconcile_name_def
    by (rule announces_bind [OF settled_name [OF world]])
       (simp add: flush that adopt settled_mark [OF world dig ne] Result_IsZero_def)
  have inv: "announces share (sdToken (swDetail w)) (sdFrontendEndpoint (swDetail w)) (Reconcile_inventory A v share) h"
    if "vDesired v = ?up" "vDigest v = shareApplyDigest share []" "vEnv v = swEnv w"
      "vBaseURL v = AgentBaseURL (swEnv w)" for v h
    unfolding Reconcile_inventory_def inventory_of_def that(3,4)
    by (rule announces_bind [OF settled_inventory [OF world]])
       (use w cls(1) name that in \<open>simp_all add: Let_def\<close>)
  have inputs: "announces share (sdToken (swDetail w)) (sdFrontendEndpoint (swDetail w)) (Reconcile_inputs A mode (swEnv w) share) h" for mode h
  proof -
    obtain tok where tok: "stilly (share_readEnableToken A (swEnv w)) h (Inr tok)"
      using settled_token_read [OF world] w by blast
    have "readBasicAuth A share = ret (Inr [])" using w by (simp add: readBasicAuth_def)
    then show ?thesis
      unfolding Reconcile_inputs_def
      by (auto intro!: announces_bind [OF tok] announces_bind [OF settled_claim [OF world cls(2)]] inv)
  qed
  have env: "stilly (getEnvironment A share) h (Inr (swEnv w))" for h
    unfolding getEnvironment_def using world by (intro does_get(2)) (simp add: share_world_def)
  have "announces share (sdToken (swDetail w)) (sdFrontendEndpoint (swDetail w)) (Reconcile_env A mode share) h" for mode h
    unfolding Reconcile_env_def using w inputs by (auto intro!: announces_bind [OF env])
  then show ?thesis
    unfolding Reconcile_live_def using w by (simp add: settled_labels)
qed

section \<open>Properties\<close>

text \<open>C12: Progress and stability of a share: when its environment is ready, its name is reserved and
  nobody else's, and the agent serves it as the spec says with the digest last applied, one
  reconcile reports it ready under the agent's token and comes back after two minutes; and on
  the way it releases, starts and deletes nothing, gives no name back and changes no object,
  but for that report in the status of the share.\<close>

theorem settled_share_is_left_alone:
  assumes "share_settled A restrictUpstream share w"
  shows "announces share (sdToken (swDetail w)) (sdFrontendEndpoint (swDetail w)) (Reconcile_live A restrictUpstream share) []"
  using settled_live_share [OF assms] .

definition lab_served_share :: ZrokShare where
  \<comment> \<open>an ephemeral share with its finalizer, labels and digest, served under the token \<open>tok\<close>\<close>
  "lab_served_share =
     (let s = zero_share ''prod'' ''web'';
          s = s\<lparr>ShareSpec := (ShareSpec s)\<lparr>shEnvironmentRef := ''main'', shUpstreamURL := ''http://web''\<rparr>,
                ShareStatus := (ShareStatus s)\<lparr>shShareToken := ''tok''\<rparr>, Finalizers := {ShareFinalizer}\<rparr>
      in s\<lparr>Labels := ShareLabels s, Annotations := [annotationAppliedDigest \<mapsto> shareApplyDigest s []]\<rparr>)"

definition lab_detail :: ShareDetail where
  "lab_detail = \<lparr>sdToken = ''tok'', sdShareMode = [], sdBackendMode = [], sdFrontendEndpoint = [],
     sdBackendEndpoint = ''http://web'', sdStatus = [], sdClosed = False\<rparr>"

definition lab_share_setting :: share_setting where
  "lab_share_setting = \<lparr>swEnv = lab_ready_env, swToken = lab_secret ''prod'' ''token'' [DefaultEnableTokenKey \<mapsto> ''t0''],
     swShares = [lab_served_share], swRemotes = Some [], swAgent = \<lparr>stShares = [Some lab_detail], stAccesses = []\<rparr>,
     swDetail = lab_detail\<rparr>"

definition lab_share_world :: api where
  "lab_share_world = lab [lab_served_share] [lab_ready_env] [swToken lab_share_setting] []
     (swAgent lab_share_setting) []"

lemma lab_share_fields [simp]:
  "Name lab_served_share = ''web''" "Namespace lab_served_share = ''prod''"
  "shEnvironmentRef (ShareSpec lab_served_share) = ''main''" "shUpstreamURL (ShareSpec lab_served_share) = ''http://web''"
  "shNameSelection (ShareSpec lab_served_share) = None" "shBasicAuthSecretRef (ShareSpec lab_served_share) = None"
  "shPrivateShareToken (ShareSpec lab_served_share) = []" "shClosed (ShareSpec lab_served_share) = False"
  "shShareMode (ShareSpec lab_served_share) = []" "shShareToken (ShareStatus lab_served_share) = ''tok''"
  "shReservation (ShareStatus lab_served_share) = []" "Finalizers lab_served_share = {ShareFinalizer}"
  "Labels lab_served_share = ShareLabels lab_served_share"
  "Annotations lab_served_share = [annotationAppliedDigest \<mapsto> shareApplyDigest lab_served_share []]"
  by (simp_all add: lab_served_share_def zero_share_def Let_def ShareLabels_def shareApplyDigest_def digestInput_def
      desiredShareMode_def desiredBackendMode_def nameNamespaceToken_def reservedFrontendName_def)

lemma lab_share_is_settled: "share_settled lab_share_world False lab_served_share lab_share_setting"
proof -
  have ref: "enEnableTokenSecretRef (EnvSpec lab_env) = \<lparr>skName = ''token'', skKey = []\<rparr>"
    by (simp add: lab_env_def zero_env_def)
  have world: "share_world lab_share_world lab_served_share lab_share_setting"
    unfolding share_world_def serves_def accepts_status_def
    by (simp add: lab_share_world_def lab_def lab_client_def object_key_def lab_share_setting_def ref)
  have served: "share_served lab_served_share lab_share_setting"
    by (simp add: share_served_def lab_share_setting_def classifyShare_def reservedFrontendName_def
        agentByToken_def agents_def List.map_filter_def remoteByToken_def remotes_def FindByToken_def
        agentShareMatchesSpec_iff agentTargetOK_iff lab_detail_def isAgentShareActive_def TargetsEqual_def
        otherShareWithFrontendName_def lookup_str_def Let_def)
  show ?thesis
    unfolding share_settled_def
    using world served
    by (simp add: ContainsFinalizer_def labels_settled_def share_spec_error_def desiredShareMode_def token_there_def
        lab_share_setting_def ref lookup_str_def)
qed

lemma settled_share_is_left_alone_witness:
  "announces lab_served_share ''tok'' [] (Reconcile_live lab_share_world False lab_served_share) []"
  using settled_share_is_left_alone [OF lab_share_is_settled] by (simp add: lab_share_setting_def lab_detail_def)

end
