(* ===== verification/EndpointPolicy.thy ===== *)
theory EndpointPolicy
  imports RestClient ShareLiveness
begin

text \<open>
  The reconcilers and the REST client together: the world in which the replies of the zrok
  controller are those that \<open>HTTPRESTClient\<close> computes from its transport, what that makes of an
  environment whose endpoint the policy denies, and where the requests go.
\<close>

section \<open>The wired world\<close>

definition with_rest :: "api \<Rightarrow> (event list \<Rightarrow> rest_api) \<Rightarrow> string list \<Rightarrow> api" where
  \<comment> \<open>the client of \<open>NewDefaultClients\<close> with the given allowlist, over the controller \<open>R h\<close>\<close>
  "with_rest A R allowed = A\<lparr>
     restEnable := (\<lambda>h ep tok hst desc. result_of (HTTP_Enable (R h) allowed ep tok hst desc)),
     restDisable := (\<lambda>h ep tok zid. result_of (HTTP_Disable (R h) allowed ep tok zid)),
     restCreateShareName := (\<lambda>h ep tok ns n. result_of (HTTP_CreateShareName (R h) allowed ep tok ns n)),
     restUpdateShareName :=
       (\<lambda>h ep tok ns n reserved. result_of (HTTP_UpdateShareName (R h) allowed ep tok ns n reserved)),
     restDeleteShareName := (\<lambda>h ep tok ns n. result_of (HTTP_DeleteShareName (R h) allowed ep tok ns n)),
     restUnshare := (\<lambda>h ep tok zid shr. result_of (HTTP_Unshare (R h) allowed ep tok zid shr)),
     restListShares := (\<lambda>h ep tok zid. result_of (HTTP_ListShares (R h) allowed ep tok zid))\<rparr>"

fun http_of :: "(event list \<Rightarrow> rest_api) \<Rightarrow> string list \<Rightarrow> event list \<Rightarrow> event \<Rightarrow> http_event list" where
  \<comment> \<open>the requests behind one call\<close>
  "http_of R allowed h (RestEnable ep tok hst desc r) = trace_of (HTTP_Enable (R h) allowed ep tok hst desc)"
| "http_of R allowed h (RestDisable ep tok zid r) = trace_of (HTTP_Disable (R h) allowed ep tok zid)"
| "http_of R allowed h (RestCreateShareName ep tok ns n r) = trace_of (HTTP_CreateShareName (R h) allowed ep tok ns n)"
| "http_of R allowed h (RestUpdateShareName ep tok ns n reserved r) =
     trace_of (HTTP_UpdateShareName (R h) allowed ep tok ns n reserved)"
| "http_of R allowed h (RestDeleteShareName ep tok ns n r) = trace_of (HTTP_DeleteShareName (R h) allowed ep tok ns n)"
| "http_of R allowed h (RestUnshare ep tok zid shr r) = trace_of (HTTP_Unshare (R h) allowed ep tok zid shr)"
| "http_of R allowed h (RestListShares ep tok zid r) = trace_of (HTTP_ListShares (R h) allowed ep tok zid)"
| "http_of R allowed h e = []"

definition http_traffic :: "(event list \<Rightarrow> rest_api) \<Rightarrow> string list \<Rightarrow> event list \<Rightarrow> http_event list" where
  "http_traffic R allowed es = concat (map (\<lambda>i. http_of R allowed (take i es) (es ! i)) [0..<length es])"

lemma http_traffic_all:
  assumes "list_all E es" and "\<And>h e. E e \<Longrightarrow> list_all P (http_of R allowed h e)"
  shows "list_all P (http_traffic R allowed es)"
proof -
  have "list_all P (http_of R allowed (take i es) (es ! i))" if "i < length es" for i
    using assms that by (simp add: list_all_length)
  then show ?thesis by (auto simp: http_traffic_def list_all_iff)
qed

section \<open>Which endpoint an environment talks to\<close>

fun rest_to :: "string \<Rightarrow> event \<Rightarrow> bool" where
  "rest_to ep (RestEnable ep' tok hst desc r) = (ep' = ep)"
| "rest_to ep (RestDisable ep' tok zid r) = (ep' = ep)"
| "rest_to ep (RestCreateShareName ep' tok ns n r) = (ep' = ep)"
| "rest_to ep (RestUpdateShareName ep' tok ns n reserved r) = (ep' = ep)"
| "rest_to ep (RestDeleteShareName ep' tok ns n r) = (ep' = ep)"
| "rest_to ep (RestUnshare ep' tok zid shr r) = (ep' = ep)"
| "rest_to ep (RestListShares ep' tok zid r) = (ep' = ep)"
| "rest_to ep e = True"

named_theorems rest_intros "programs that use one endpoint only"

lemma rest_patch [rest_intros]:
  "total_mutation m \<Longrightarrow> emits (rest_to ep) (PatchEnvStatus A env m)"
  by (rule PatchStatus_emits) (auto simp: patch_event_def)

lemma rest_env_leaves [rest_intros]:
  "emits (rest_to ep) (env_setNotReady A env rsn msg)" "emits (rest_to ep) (env_record env ty rsn action msg)"
  "emits (rest_to ep) (env_readEnableToken A env)" "emits (rest_to ep) (resolveUniqueID A env)"
  "emits (rest_to ep) (drop_secret A existing what)" "emits (rest_to ep) (ensurePVC A env)"
  "emits (rest_to ep) (ensureDeployment A env)" "emits (rest_to ep) (ensureNetworkPolicy A cfg env)"
  "emits (rest_to ep) (isAgentReady A env)" "emits (rest_to ep) (env_teardown A env)"
  unfolding env_setNotReady_def env_record_def env_readEnableToken_def resolveUniqueID_def drop_secret_def
    ensurePVC_def ensureDeployment_def ensureNetworkPolicy_def isAgentReady_def env_teardown_def
    create_if_absent_def call_defs Let_def
  by (auto intro!: emits_intros rest_intros)

lemma rest_ensureService [rest_intros]: "emits (rest_to ep) (ensureService A env)"
  unfolding ensureService_def create_if_absent_def call_defs
  by (auto intro!: emits_intros)

lemma rest_env_agent [rest_intros]:
  "emits (rest_to ep) (env_readiness A env)" "emits (rest_to ep) (env_ensure_agent A cfg env)"
  "emits (rest_to ep) (adoptIdentitySecret A env existing)"
  "emits (rest_to ep) (enable_environment A env token ep)"
  unfolding env_readiness_def env_not_yet_def env_ensure_agent_def env_step_def adoptIdentitySecret_def
    enable_environment_def call_defs Let_def
  by (auto intro!: emits_intros rest_intros)

lemma rest_env_live: "emits (rest_to (env_apiEndpoint env)) (env_live A cfg env)"
  unfolding env_live_def ensureEnabled_def call_defs Let_def
  by (auto intro!: emits_intros rest_intros)

lemma rest_env_delete: "emits (rest_to (env_apiEndpoint env)) (env_reconcileDelete A env)"
  unfolding env_reconcileDelete_def env_disable_def call_defs Let_def
  by (auto intro!: emits_intros rest_intros)

section \<open>What the reconcilers rely on\<close>









section \<open>Properties\<close>

text \<open>C15: Every request that the operator sends for an environment, be it live or being deleted,
  goes over https to an allowlisted, not blocked host under the API's base path, whatever the
  API server, the controller and the agent answer; provided that the endpoint has no
  surrounding white space.\<close>

theorem environment_requests_stay_on_allowlist:
  assumes "TrimSpace (env_apiEndpoint env) = env_apiEndpoint env"
  shows "list_all (\<lambda>q. case q of Request t tok c err \<Rightarrow> allowed_transport allowed (env_apiEndpoint env) t)
     (http_traffic R allowed (trace_of (env_live (with_rest A R allowed) cfg env))
      @ http_traffic R allowed (trace_of (env_reconcileDelete (with_rest A R allowed) env)))"
proof -
  let ?ep = "env_apiEndpoint env"
  let ?P = "\<lambda>q. case q of Request t tok c err \<Rightarrow> allowed_transport allowed ?ep t"
  have weaken: "list_all (allowed_request allowed ?ep tok) qs \<Longrightarrow> list_all ?P qs" for tok qs
    by (erule list.pred_mono_strong) (auto split: http_event.split elim: allowed_request.elims)
  have one: "list_all ?P (http_of R allowed h e)" if "rest_to ?ep e" for h e
    using that http_emits [OF assms, THEN emits_trace, THEN weaken] by (cases e) auto
  show ?thesis
    using http_traffic_all [OF emits_trace [OF rest_env_live] one]
      http_traffic_all [OF emits_trace [OF rest_env_delete] one]
    by simp
qed

lemma environment_requests_stay_on_allowlist_witness:
  "list_all (\<lambda>q. case q of Request t tok c err \<Rightarrow> allowed_transport [] DefaultAPIEndpoint t)
     (http_traffic (\<lambda>h. quiet_rest) [] (trace_of (env_live (with_rest lab_fresh (\<lambda>h. quiet_rest) []) lab_config lab_env)))"
proof -
  have ep: "env_apiEndpoint lab_env = DefaultAPIEndpoint"
    by (simp add: env_apiEndpoint_def lab_env_def zero_env_def)
  have "TrimSpace DefaultAPIEndpoint = DefaultAPIEndpoint"
    by (simp add: DefaultAPIEndpoint_def TrimSpace_def is_space_def)
  then show ?thesis
    using environment_requests_stay_on_allowlist [of lab_env "[]" "\<lambda>h. quiet_rest" lab_fresh lab_config]
    unfolding ep by simp
qed




end
