(* ===== verification/CallBounds.thy ===== *)
theory CallBounds
  imports ShareReconcile AccessReconcile EnvReconcile IngressReconcile StatusPatching
begin

text \<open>
  Termination with a bound: how many calls to the outside one reconcile can make, whatever is
  answered. \<open>patch_calls A\<close> is the cost of one \<open>PatchStatus\<close>, the only loop of the reconcilers
  that the outside can prolong.
\<close>

section \<open>Counting calls\<close>

definition bounded :: "nat \<Rightarrow> ('e, 'a) prog \<Rightarrow> bool" where
  "bounded n m \<longleftrightarrow> yields (\<lambda>_. True) (\<lambda>_ es. length es \<le> n) m"

definition patch_calls :: "api \<Rightarrow> nat" where
  "patch_calls A = 2 * Suc (retrySteps A)"

named_theorems bounded_intros "how many calls a program makes"

lemma bounded_trace: "bounded n m \<Longrightarrow> length (trace_of m) \<le> n"
  unfolding bounded_def trace_of_def by (erule yieldsE [where h = "[]"]) simp

lemma bounded_calls [bounded_intros]:
  "bounded 0 (ret x)" "bounded 1 (perform reply ev)" "bounded 1 (emit e)" "bounded 0 (consult g)"
  unfolding bounded_def by (auto intro!: yields_intros)

lemma bounded_le: "bounded a m \<Longrightarrow> a \<le> n \<Longrightarrow> bounded n m"
  unfolding bounded_def by (erule yields_conseq) auto

lemma bounded_bind [bounded_intros]:
  assumes "bounded a m" and "\<And>x. bounded b (f x)"
  shows "bounded (a + b) (m \<bind> f)"
  unfolding bounded_def
proof (rule yields_bind [OF assms(1) [unfolded bounded_def]])
  fix x and es :: "'a list" assume "length es \<le> a"
  then show "yields (\<lambda>_. True) (\<lambda>y es'. length (es @ es') \<le> a + b) (f x)"
    by (intro yields_conseq [OF assms(2) [unfolded bounded_def]]) simp_all
qed

lemmas bounded_max = bounded_le [OF _ max.cobounded1] bounded_le [OF _ max.cobounded2]

lemma bounded_if [bounded_intros]:
  "bounded a x \<Longrightarrow> bounded b y \<Longrightarrow> bounded (max a b) (if c then x else y)"
  by (auto intro: bounded_max)

lemma bounded_case_option [bounded_intros]:
  "bounded a x \<Longrightarrow> (\<And>y. bounded b (f y)) \<Longrightarrow> bounded (max a b) (case v of None \<Rightarrow> x | Some y \<Rightarrow> f y)"
  by (cases v) (auto intro: bounded_max)

lemma bounded_case_sum [bounded_intros]:
  "(\<And>e. bounded a (f e)) \<Longrightarrow> (\<And>y. bounded b (g y)) \<Longrightarrow> bounded (max a b) (case v of Inl e \<Rightarrow> f e | Inr y \<Rightarrow> g y)"
  by (cases v) (auto intro: bounded_max)

lemma bounded_case_prod [bounded_intros]:
  "(\<And>x y. bounded a (f x y)) \<Longrightarrow> bounded a (case v of (x, y) \<Rightarrow> f x y)"
  "(\<And>x y. bounded a (g x y z)) \<Longrightarrow> bounded a ((case v of (x, y) \<Rightarrow> g x y) z)"
  by (cases v; simp)+

lemma bounded_PatchStatus [bounded_intros]: "bounded (patch_calls A) (PatchStatus A kd wrap c obj mutate)"
  unfolding bounded_def patch_calls_def
  by (rule yields_conseq [OF PatchStatus_outcome]) (auto simp: patch_outcome_def)

section \<open>Shares\<close>

lemma share_calls_0 [bounded_intros]:
  "bounded (patch_calls A + 1) (share_setNotReady A share rsn msg)"
  "bounded 1 (share_record share ty rsn action note)"
  "bounded 1 (patchShareAnnotation A share k v)"
  "bounded 1 (ensureFinalizerAndLabels A share0)"
  "bounded 1 (getEnvironment A share)"
  "bounded 1 (share_readEnableToken A env)"
  "bounded 1 (readBasicAuth A share)"
  "bounded 1 (otherShareClaimingName A share)"
  "bounded 2 (loadInventory A env apiEndpoint enableToken baseURL)"
  "bounded (patch_calls A + 4) (ensureReservedName A share apiEndpoint enableToken)"
  "bounded 2 (releaseOurs A env apiEndpoint enableToken baseURL shareToken)"
  "bounded (patch_calls A) (clearShareBinding A share)"
  "bounded 2 (delete_finish A share)"
  unfolding share_setNotReady_def share_record_def patchShareAnnotation_def
    ensureFinalizerAndLabels_def getEnvironment_def share_readEnableToken_def readBasicAuth_def
    otherShareClaimingName_def loadInventory_def ensureReservedName_def releaseOurs_def
    clearShareBinding_def delete_finish_def call_defs Let_def
  by (rule bounded_le, (rule bounded_intros)+, simp)+

lemma share_calls_1 [bounded_intros]:
  "bounded (patch_calls A + 2) (setNameConflict A share msg)"
  "bounded (patch_calls A + 3) (releaseAndClear A share env apiEndpoint enableToken baseURL shareToken)"
  "bounded 2 (flushReclaimName A share apiEndpoint enableToken)"
  "bounded (patch_calls A + 3) (markShareReady A share token endpoints digest)"
  "bounded 2 (inventory_of A v)"
  "bounded 4 (delete_name A d share)"
  unfolding setNameConflict_def releaseAndClear_def flushReclaimName_def markShareReady_def
    inventory_of_def delete_name_def call_defs Let_def
  by (rule bounded_le, (rule bounded_intros)+, simp)+

lemma share_calls_2 [bounded_intros]:
  "bounded 4 (reclaimPreviousName A share apiEndpoint enableToken oldName prevReserved)"
  "bounded (patch_calls A + 5) (handleShareConflict A v share)"
  "bounded (patch_calls A + 6) (delete_unshare A d shareToken share)"
  unfolding reclaimPreviousName_def handleShareConflict_def delete_unshare_def call_defs Let_def
  by (rule bounded_le, (rule bounded_intros)+, simp)+

lemma share_calls_3 [bounded_intros]:
  "bounded (patch_calls A + 6) (Reconcile_create A v share)"
  "bounded (patch_calls A + 9) (delete_with_env A env apiEndpoint enableToken share)"
  unfolding Reconcile_create_def delete_with_env_def call_defs Let_def
  by (rule bounded_le, (rule bounded_intros)+, simp)+

lemma share_calls_4 [bounded_intros]:
  "bounded (2 * patch_calls A + 13) (Reconcile_heal A v cls share)"
  "bounded (patch_calls A + 11) (share_reconcileDelete A share)"
  unfolding Reconcile_heal_def share_reconcileDelete_def call_defs Let_def
  by (rule bounded_le, (rule bounded_intros)+, simp)+

lemma share_calls_5 [bounded_intros]:
  "bounded (3 * patch_calls A + 19) (Reconcile_name A v cls share)"
  unfolding Reconcile_name_def call_defs Let_def
  by (rule bounded_le, (rule bounded_intros)+, simp)

lemma share_calls_6 [bounded_intros]:
  "bounded (3 * patch_calls A + 21) (Reconcile_inventory A v share)"
  unfolding Reconcile_inventory_def call_defs Let_def
  by (rule bounded_le, (rule bounded_intros)+, simp)

lemma share_calls_7 [bounded_intros]:
  "bounded (3 * patch_calls A + 24) (Reconcile_inputs A mode env share)"
  unfolding Reconcile_inputs_def call_defs Let_def
  by (rule bounded_le, (rule bounded_intros)+, simp)

lemma share_calls_8 [bounded_intros]:
  "bounded (3 * patch_calls A + 25) (Reconcile_env A mode share)"
  unfolding Reconcile_env_def call_defs Let_def
  by (rule bounded_le, (rule bounded_intros)+, simp)

lemma share_calls_9 [bounded_intros]:
  "bounded (3 * patch_calls A + 26) (Reconcile_live A restrictUpstream share)"
  unfolding Reconcile_live_def call_defs Let_def
  by (rule bounded_le, (rule bounded_intros)+, simp)

lemma share_calls_10 [bounded_intros]:
  "bounded (3 * patch_calls A + 27) (share_Reconcile A restrictUpstream req)"
  unfolding share_Reconcile_def call_defs Let_def
  by (rule bounded_le, (rule bounded_intros)+, simp)

section \<open>Accesses\<close>

lemma access_calls_0 [bounded_intros]:
  "bounded (patch_calls A) (access_setNotReady A access rsn msg)"
  "bounded (patch_calls A + 1) (markAccessReady A access token bindAddress)"
  "bounded 3 (access_reconcileDelete A access)"
  unfolding access_setNotReady_def markAccessReady_def access_reconcileDelete_def call_defs
    Let_def
  by (rule bounded_le, (rule bounded_intros)+, simp)+

lemma access_calls_1 [bounded_intros]:
  "bounded (patch_calls A + 3) (access_create A addr access)"
  unfolding access_create_def call_defs Let_def
  by (rule bounded_le, (rule bounded_intros)+, simp)

lemma access_calls_2 [bounded_intros]:
  "bounded (patch_calls A + 3) (access_ensure A addr access)"
  unfolding access_ensure_def call_defs Let_def
  by (rule bounded_le, (rule bounded_intros)+, simp)

lemma access_calls_3 [bounded_intros]:
  "bounded (2 * patch_calls A + 5) (access_refresh A addr access)"
  unfolding access_refresh_def call_defs Let_def
  by (rule bounded_le, (rule bounded_intros)+, simp)

lemma access_calls_4 [bounded_intros]:
  "bounded (2 * patch_calls A + 6) (access_live A access)"
  unfolding access_live_def call_defs Let_def
  by (rule bounded_le, (rule bounded_intros)+, simp)

lemma access_calls_5 [bounded_intros]:
  "bounded (2 * patch_calls A + 7) (access_Reconcile A req)"
  unfolding access_Reconcile_def call_defs Let_def
  by (rule bounded_le, (rule bounded_intros)+, simp)

section \<open>Environments\<close>

lemma env_calls_0 [bounded_intros]:
  "bounded (patch_calls A + 1) (env_setNotReady A env rsn msg)"
  "bounded 1 (env_record env ty rsn action msg)"
  "bounded 1 (env_readEnableToken A env)"
  "bounded 1 (resolveUniqueID A env)"
  "bounded 1 (drop_secret A existing what)"
  "bounded 1 (create_if_absent wrap c desired)"
  "bounded 1 (isAgentReady A env)"
  "bounded 7 (env_teardown A env)"
  unfolding env_setNotReady_def env_record_def env_readEnableToken_def resolveUniqueID_def
    drop_secret_def create_if_absent_def isAgentReady_def env_teardown_def call_defs Let_def
  by (rule bounded_le, (rule bounded_intros)+, simp)+

lemma env_calls_1 [bounded_intros]:
  "bounded (patch_calls A + 1) (adoptIdentitySecret A env existing)"
  "bounded (patch_calls A + 4) (enable_environment A env token ep)"
  "bounded 2 (ensurePVC A env)"
  "bounded 2 (ensureService A env)"
  "bounded 2 (ensureDeployment A env)"
  "bounded 2 (ensureNetworkPolicy A cfg env)"
  "bounded (patch_calls A + 4) (env_readiness A env)"
  "bounded 10 (env_disable A env)"
  unfolding adoptIdentitySecret_def enable_environment_def ensurePVC_def ensureService_def
    ensureDeployment_def ensureNetworkPolicy_def env_readiness_def env_not_yet_def
    env_disable_def call_defs Let_def
  by (rule bounded_le, (rule bounded_intros)+, simp)+

lemma env_calls_2 [bounded_intros]:
  "bounded (2 * patch_calls A + 5) (ensureEnabled A env token)"
  "bounded (patch_calls A + 12) (env_ensure_agent A cfg env)"
  "bounded (patch_calls A + 11) (env_reconcileDelete A env)"
  unfolding ensureEnabled_def env_ensure_agent_def env_step_def env_reconcileDelete_def
    call_defs Let_def
  by (rule bounded_le, (rule bounded_intros)+, simp)+

lemma env_calls_3 [bounded_intros]:
  "bounded (3 * patch_calls A + 18) (env_live A cfg env)"
  unfolding env_live_def call_defs Let_def
  by (rule bounded_le, (rule bounded_intros)+, simp)

lemma env_calls_4 [bounded_intros]:
  "bounded (3 * patch_calls A + 19) (env_Reconcile A cfg req)"
  unfolding env_Reconcile_def call_defs Let_def
  by (rule bounded_le, (rule bounded_intros)+, simp)

section \<open>Ingresses\<close>

lemma ingress_calls_0 [bounded_intros]:
  "bounded 2 (CreateOrUpdate wrap kd c obj mutate)"
  "bounded (patch_calls A + 1) (ingress_status A ing)"
  unfolding CreateOrUpdate_def ingress_status_def call_defs Let_def
  by (rule bounded_le, (rule bounded_intros)+, simp)+

lemma ingress_calls_1 [bounded_intros]:
  "bounded (patch_calls A + 3) (ingress_live A ing)"
  unfolding ingress_live_def call_defs Let_def
  by (rule bounded_le, (rule bounded_intros)+, simp)

lemma ingress_calls_2 [bounded_intros]:
  "bounded (patch_calls A + 4) (ingress_Reconcile A req)"
  unfolding ingress_Reconcile_def call_defs Let_def
  by (rule bounded_le, (rule bounded_intros)+, simp)

section \<open>Properties\<close>

text \<open>C27: Every reconcile ends, after a bounded number of calls and reports, whatever the API server,
  the zrok controller and the agent answer: the only loop that replies can prolong is the one of
  \<open>PatchStatus\<close>, with two calls for each of its attempts, and one reconcile goes through at most three
  of them. (With the four retries of \<open>retry.DefaultRetry\<close> that is at most 57 for a share.)\<close>

theorem reconciles_are_bounded:
  "length (trace_of (share_Reconcile A restrictUpstream req)) \<le> 3 * (2 * Suc (retrySteps A)) + 27
   \<and> length (trace_of (access_Reconcile A req)) \<le> 2 * (2 * Suc (retrySteps A)) + 7
   \<and> length (trace_of (env_Reconcile A cfg req)) \<le> 3 * (2 * Suc (retrySteps A)) + 19
   \<and> length (trace_of (ingress_Reconcile A req)) \<le> (2 * Suc (retrySteps A)) + 4"
  unfolding patch_calls_def [symmetric]
  by (intro conjI bounded_trace; rule bounded_le, rule bounded_intros, simp)

end
