(* ===== verification/FrontendNames.thy ===== *)
theory FrontendNames
  imports IngressReconcile Upstream RemoteShares
begin

text \<open>
  The ways a reserved name travels: from an Ingress into \<open>nameSelection\<close>, from there to the zrok
  controller, and back in the URLs of frontends. On DNS labels all readers agree.
\<close>

section \<open>Frontend URLs of a label\<close>

abbreviation frontend_host :: "string \<Rightarrow> string" where
  "frontend_host n \<equiv> n @ ''.shares.zrok.io''"

abbreviation frontend_url :: "string \<Rightarrow> string" where
  "frontend_url n \<equiv> ''https://'' @ frontend_host n"

lemma plain_frontend_host: "plain n \<Longrightarrow> plain (frontend_host n)"
  by (simp add: plain_char_def)

lemma plain_not_space: "plain_char c \<Longrightarrow> \<not> is_space c"
  by (auto simp: plain_char_def is_space_def is_digit_def)

lemma plain_TrimSpace:
  assumes "plain s"
  shows "TrimSpace s = s" and "TrimSpace (''https://'' @ s) = ''https://'' @ s"
proof -
  have ns: "\<not> is_space c" if "c \<in> set s" for c using plain_mem [OF assms that] by (rule plain_not_space)
  show "TrimSpace s = s" by (rule TrimSpace_id) (cases "s = []"; simp add: ns)
  have "\<not> is_space (last (''https://'' @ s))" using ns [of "last s"] by (cases "s = []") (simp_all add: is_space_def)
  then show "TrimSpace (''https://'' @ s) = ''https://'' @ s"
    by (intro TrimSpace_id) (simp add: is_space_def)
qed

lemma plain_no_scheme:
  assumes "plain s"
  shows "TrimPrefix s ''http://'' = s" and "TrimPrefix s ''https://'' = s"
proof -
  have "CHR '':'' \<notin> set s" using plain_absent [OF assms] by simp
  then have "\<not> HasPrefix s ''http://''" and "\<not> HasPrefix s ''https://''"
    by (auto elim!: HasPrefixE)
  then show "TrimPrefix s ''http://'' = s" and "TrimPrefix s ''https://'' = s"
    by (simp_all only: TrimPrefix_def if_False)
qed

lemma plain_cuts:
  assumes "plain s"
  shows "IndexByte s (CHR ''/'') = None" and "IndexByte s (CHR '':'') = None"
  unfolding IndexByte_None_iff using plain_absent [OF assms] by simp_all

lemma ToLower_url: "plain s \<Longrightarrow> ToLower (''https://'' @ s) = ''https://'' @ s"
  unfolding ToLower_append plain_ToLower by (simp add: ToLower_def lower_char_def)

lemma frontendHost_label:
  assumes "plain s"
  shows "frontendHost (''https://'' @ s) = s"
  unfolding frontendHost_def Let_def plain_TrimSpace(2) [OF assms] ToLower_url [OF assms] TrimPrefix_append
    plain_no_scheme(1) [OF assms] cut_at_def plain_cuts [OF assms]
    option.case
  by (simp add: plain_cuts [OF assms])

lemma IndexByte_label: "c \<notin> set n \<Longrightarrow> IndexByte (n @ c # r) c = Some (length n)"
  by (induction n) auto

lemma reserved_name_readers:
  assumes "isDNSLabel n"
  shows "ingressReservedName (frontend_url n) = n" and "ingressReservedName (frontend_host n) = n"
    and "ingressReservedName n = n" and "FrontendNameFromEndpoint (frontend_url n) = n"
proof -
  have p: "plain n" and ne: "n \<noteq> []" and nd: "CHR ''.'' \<notin> set n"
    using isDNSLabel_plain isDNSLabel_nonempty isDNSLabel_no_dot assms by blast+
  note ph = plain_frontend_host [OF p]
  have cut: "cut_suffixes (frontend_host n) [''.shares.zrok.io'', ''.share.zrok.io''] = n"
    by (simp only: cut_suffixes.simps CutSuffix_append option.case)
  have "CutSuffix n s = None" if "CHR ''.'' \<in> set s" for s
    using nd that by (cases "CutSuffix n s") (auto simp: CutSuffix_Some_iff)
  then have cut': "cut_suffixes n [''.shares.zrok.io'', ''.share.zrok.io''] = n" by simp
  show "ingressReservedName (frontend_url n) = n"
    unfolding ingressReservedName_def Let_def ToLower_url [OF ph] plain_TrimSpace(2) [OF ph] TrimPrefix_append
      plain_no_scheme(1) [OF ph] plain_cuts [OF ph] option.case cut
    by simp
  show "ingressReservedName (frontend_host n) = n"
    unfolding ingressReservedName_def Let_def plain_ToLower [OF ph] plain_TrimSpace(1) [OF ph]
      plain_no_scheme [OF ph] plain_cuts [OF ph] option.case cut
    by simp
  show "ingressReservedName n = n"
    unfolding ingressReservedName_def Let_def plain_ToLower [OF p] plain_TrimSpace(1) [OF p]
      plain_no_scheme [OF p] plain_cuts [OF p] option.case cut'
    using ne by simp
  show "FrontendNameFromEndpoint (frontend_url n) = n"
    unfolding FrontendNameFromEndpoint_def Let_def frontendHost_label [OF ph]
    using IndexByte_label [OF nd, of "''shares.zrok.io''"] ne by simp
qed

lemma takeWhile_sep_append: "c \<notin> set n \<Longrightarrow> takeWhile (\<lambda>x. x \<noteq> c) (n @ c # r) = n"
  by (induction n) auto

lemma matches_label:
  assumes "isDNSLabel n" and "isDNSLabel m"
  shows "FrontendEndpointMatchesName (frontend_url n) m \<longleftrightarrow> m = n"
proof -
  have nd: "CHR ''.'' \<notin> set n" "CHR ''.'' \<notin> set m" and ne: "m \<noteq> []" and pm: "ToLower m = m"
    using isDNSLabel_no_dot isDNSLabel_nonempty plain_ToLower [OF isDNSLabel_plain] assms by blast+
  have "takeWhile (\<lambda>x. x \<noteq> CHR ''.'') (frontend_host n) = n"
    by (rule takeWhile_sep_append [OF nd(1)])
  then have "HasPrefix (frontend_host n) (m @ ''.'') \<longleftrightarrow> m = n"
    unfolding prefix_label_iff [OF nd(2)] by auto
  then show ?thesis
    using ne frontendHost_label [OF plain_frontend_host [OF isDNSLabel_plain [OF assms(1)]]]
    unfolding FrontendEndpointMatchesName_def pm by simp
qed

section \<open>Properties\<close>

text \<open>C38: A reserved name survives its round trip: for a DNS label the name read from an Ingress - be
  it the label itself, the host name of its public frontend or that frontend's URL - and the
  name read from the frontend URL that the agent reports are the label again, and among all
  labels that URL matches this one only.\<close>

theorem reserved_name_roundtrip:
  assumes "isDNSLabel n" and "isDNSLabel m"
  shows "ingressReservedName n = n \<and> ingressReservedName (n @ ''.shares.zrok.io'') = n
    \<and> ingressReservedName (''https://'' @ n @ ''.shares.zrok.io'') = n
    \<and> FrontendNameFromEndpoint (''https://'' @ n @ ''.shares.zrok.io'') = n
    \<and> FrontendEndpointMatchesName (''https://'' @ n @ ''.shares.zrok.io'') m = (m = n)"
  using reserved_name_readers [OF assms(1)] matches_label [OF assms] by blast

lemma reserved_name_roundtrip_witness:
  "ingressReservedName ''https://api-1.shares.zrok.io'' = ''api-1''
   \<and> \<not> FrontendEndpointMatchesName ''https://api-1.shares.zrok.io'' ''api''"
proof -
  have "isDNSLabel ''api-1''" and "isDNSLabel ''api''"
    by (simp_all add: isDNSLabel_def dnsLabelRE_def lower_alnum_def is_digit_def)
  from reserved_name_roundtrip [OF this] show ?thesis by simp
qed

end
