(* ===== verification/DeepCopy.thy ===== *)
theory DeepCopy
  imports ApiTypes Prelude
begin

text \<open>
  \<open>api/v1alpha1/zz_generated.deepcopy.go\<close>: the deep copies of the custom resources, on a memory
  with pointers. \<open>PatchStatus\<close> relies on them: it keeps a copy of the object it read, lets the
  caller change the object in place, and sends the difference. Elsewhere in the development
  objects are values; this theory is why they may be.
\<close>

section \<open>Memory\<close>

text \<open>
  Memory is a list of cells that allocation extends; an address is an index. A slice or a map is
  the address of its contents; a nil pointer, slice or map is \<open>None\<close>. The structures of the
  libraries - metadata, quantities, resource requirements, key selectors - have their pointers,
  slices and maps too; how they are copied is up to the libraries, so their copy functions are a
  parameter, the record \<open>library\<close>. Two variables that are filled by the same function never
  share a cell unless the function says so, so a pointer is all there is to aliasing. (A condition
  has no pointer that anyone writes through.)
\<close>

type_synonym addr = nat

section \<open>The structures of the libraries\<close>

record OwnerReference_mem =
  orUID :: string
  orController :: "addr option"
  orBlockOwnerDeletion :: "addr option"

record ObjectMeta_mem =
  mmName :: string
  mmNamespace :: string
  mmUID :: string
  mmGeneration :: int
  mmDeletionTimestamp :: "addr option"
  mmFinalizers :: "addr option"
  mmLabels :: "addr option"
  mmAnnotations :: "addr option"
  mmOwnerReferences :: "addr option"

record ListMeta_mem =
  lmResourceVersion :: string
  lmRemainingItemCount :: "addr option"

text \<open>A quantity keeps its value in thousandths, or behind a pointer to a decimal.\<close>

record Quantity_mem =
  qmInt :: int
  qmDec :: "addr option"

record ResourceRequirements_mem =
  rmRequests :: "addr option"
  rmLimits :: "addr option"

record SecretKeySelector_mem =
  kmName :: string
  kmKey :: string
  kmOptional :: "addr option"

section \<open>The structures in memory\<close>

record OAuthSpec_mem =
  omProvider :: string
  omEmailDomains :: "addr option"
  omRefreshInterval :: string

record ZrokShareSpec_mem =
  smEnvironmentRef :: string
  smShareMode :: string
  smBackendMode :: string
  smUpstreamURL :: string
  smNameSelection :: "addr option"
  smPrivateShareToken :: string
  smInsecure :: bool
  smClosed :: bool
  smAccessGrants :: "addr option"
  smBasicAuthSecretRef :: "addr option"
  smOAuth :: "addr option"
  smReclaimPolicy :: string

record ZrokShareStatus_mem =
  stmObservedGeneration :: int
  stmAssignedURL :: string
  stmFrontendEndpoints :: "addr option"
  stmShareToken :: string
  stmReservation :: string
  stmConditions :: "addr option"

record ZrokShare_mem =
  shareMeta :: ObjectMeta_mem
  shareSpec :: ZrokShareSpec_mem
  shareStatus :: ZrokShareStatus_mem

record AgentPersistence_mem =
  pmSize :: Quantity_mem
  pmStorageClassName :: "addr option"

record AgentSpec_mem =
  amImage :: string
  amReplicas :: "addr option"
  amConsolePort :: int
  amPersistence :: AgentPersistence_mem
  amResources :: ResourceRequirements_mem

record ZrokEnvironmentSpec_mem =
  emApiEndpoint :: string
  emUniqueID :: string
  emEnableTokenSecretRef :: SecretKeySelector_mem
  emAgent :: AgentSpec_mem
  emReclaimPolicy :: string

record ZrokEnvironmentStatus_mem =
  etmObservedGeneration :: int
  etmEnvZID :: string
  etmUniqueID :: string
  etmAgentService :: string
  etmAgentReady :: bool
  etmConditions :: "addr option"

record ZrokEnvironment_mem =
  envMeta :: ObjectMeta_mem
  envSpec :: ZrokEnvironmentSpec_mem
  envStatus :: ZrokEnvironmentStatus_mem

record ZrokAccessStatus_mem =
  atmObservedGeneration :: int
  atmFrontendEndpoint :: string
  atmAccessToken :: string
  atmConditions :: "addr option"

record ZrokAccess_mem =
  accessMeta :: ObjectMeta_mem
  accessSpec :: ZrokAccessSpec
  accessStatus :: ZrokAccessStatus_mem

text \<open>The lists: \<open>Items\<close> is a slice.\<close>

record ZrokShareList_mem =
  shareListMeta :: ListMeta_mem
  shareItems :: "addr option"

record ZrokEnvironmentList_mem =
  envListMeta :: ListMeta_mem
  envItems :: "addr option"

record ZrokAccessList_mem =
  accessListMeta :: ListMeta_mem
  accessItems :: "addr option"

datatype cell =
    StringVal (as_string: string)
  | IntVal (as_int: int)
  | BoolVal (as_bool: bool)
  | StringMap (as_map: "string \<rightharpoonup> string")
  | OwnerArray (as_owners: "OwnerReference_mem list")
  | QuantityMap (as_quantities: "(string \<times> Quantity_mem) list")
  | StringArray (as_strings: "string list")
  | ConditionArray (as_conditions: "Condition list")
  | NameSelectionVal (as_name_selection: NameSelectionSpec)
  | OAuthVal (as_oauth: OAuthSpec_mem)
  | ShareArray (as_shares: "ZrokShare_mem list")
  | EnvironmentArray (as_environments: "ZrokEnvironment_mem list")
  | AccessArray (as_accesses: "ZrokAccess_mem list")

type_synonym heap = "cell list"
type_synonym 'a mem = "(heap, 'a) state"

definition new_cell :: "cell \<Rightarrow> addr mem" where
  "new_cell c = State (\<lambda>h. (length h, h @ [c]))"

definition load :: "addr \<Rightarrow> cell mem" where
  "load a = State (\<lambda>h. (h ! a, h))"

lemma run_new_cell [simp]: "run_state (new_cell c) h = (length h, h @ [c])"
  by (simp add: new_cell_def)

lemma run_load [simp]: "run_state (load a) h = (h ! a, h)"
  by (simp add: load_def)

text \<open>The copy functions of the libraries: \<open>DeepCopyInto\<close> of \<open>ObjectMeta\<close>, \<open>ListMeta\<close>, \<open>Condition\<close>,
  \<open>SecretKeySelector\<close> and \<open>ResourceRequirements\<close>, and \<open>DeepCopy\<close> of \<open>Quantity\<close>.\<close>

record library =
  lib_meta :: "ObjectMeta_mem \<Rightarrow> ObjectMeta_mem mem"
  lib_list_meta :: "ListMeta_mem \<Rightarrow> ListMeta_mem mem"
  lib_condition :: "Condition \<Rightarrow> Condition mem"
  lib_key_selector :: "SecretKeySelector_mem \<Rightarrow> SecretKeySelector_mem mem"
  lib_resources :: "ResourceRequirements_mem \<Rightarrow> ResourceRequirements_mem mem"
  lib_quantity :: "Quantity_mem \<Rightarrow> Quantity_mem mem"

section \<open>The copies\<close>

primrec copy_elements :: "('g \<Rightarrow> 'g mem) \<Rightarrow> 'g list \<Rightarrow> 'g list mem" where
  \<comment> \<open>\<open>for i := range *in { (*in)[i].DeepCopyInto(&(*out)[i]) }\<close>\<close>
  "copy_elements copy_into [] = ret []"
| "copy_elements copy_into (x # xs) =
     do { y \<leftarrow> copy_into x; ys \<leftarrow> copy_elements copy_into xs; ret (y # ys) }"

definition copy_new :: "('b \<Rightarrow> cell) \<Rightarrow> (cell \<Rightarrow> 'b) \<Rightarrow> ('b \<Rightarrow> 'b mem) \<Rightarrow> addr option \<Rightarrow> addr option mem" where
  \<comment> \<open>\<open>if in.F != nil { *out = new(T); ... }\<close>: a new variable or array, filled from the old one\<close>
  "copy_new mk contents copy_into p =
     (case p of
        None \<Rightarrow> ret None
      | Some a \<Rightarrow> do { c \<leftarrow> load a; y \<leftarrow> copy_into (contents c); b \<leftarrow> new_cell (mk y); ret (Some b) })"

definition copy_string :: "addr option \<Rightarrow> addr option mem" where
  "copy_string = copy_new StringVal as_string ret"

definition copy_int32 :: "addr option \<Rightarrow> addr option mem" where
  "copy_int32 = copy_new IntVal as_int ret"

definition copy_strings :: "addr option \<Rightarrow> addr option mem" where
  "copy_strings = copy_new StringArray as_strings ret"

definition copy_conditions :: "library \<Rightarrow> addr option \<Rightarrow> addr option mem" where
  "copy_conditions L = copy_new ConditionArray as_conditions (copy_elements (lib_condition L))"

definition OAuthSpec_DeepCopyInto :: "OAuthSpec_mem \<Rightarrow> OAuthSpec_mem mem" where
  "OAuthSpec_DeepCopyInto oa =
     do { domains \<leftarrow> copy_strings (omEmailDomains oa); ret (oa\<lparr>omEmailDomains := domains\<rparr>) }"

definition NameSelectionSpec_DeepCopyInto :: "NameSelectionSpec \<Rightarrow> NameSelectionSpec mem" where
  "NameSelectionSpec_DeepCopyInto x = ret x"

definition copy_name_selection :: "addr option \<Rightarrow> addr option mem" where
  "copy_name_selection = copy_new NameSelectionVal as_name_selection NameSelectionSpec_DeepCopyInto"

definition copy_oauth :: "addr option \<Rightarrow> addr option mem" where
  "copy_oauth = copy_new OAuthVal as_oauth OAuthSpec_DeepCopyInto"

definition ZrokShareSpec_DeepCopyInto :: "ZrokShareSpec_mem \<Rightarrow> ZrokShareSpec_mem mem" where
  "ZrokShareSpec_DeepCopyInto x =
     do { ns \<leftarrow> copy_name_selection (smNameSelection x);
          grants \<leftarrow> copy_strings (smAccessGrants x);
          ref \<leftarrow> copy_string (smBasicAuthSecretRef x);
          oa \<leftarrow> copy_oauth (smOAuth x);
          ret (x\<lparr>smNameSelection := ns, smAccessGrants := grants, smBasicAuthSecretRef := ref, smOAuth := oa\<rparr>) }"

definition ZrokShareStatus_DeepCopyInto :: "library \<Rightarrow> ZrokShareStatus_mem \<Rightarrow> ZrokShareStatus_mem mem" where
  "ZrokShareStatus_DeepCopyInto L x =
     do { eps \<leftarrow> copy_strings (stmFrontendEndpoints x);
          conds \<leftarrow> copy_conditions L (stmConditions x);
          ret (x\<lparr>stmFrontendEndpoints := eps, stmConditions := conds\<rparr>) }"

definition ZrokShare_DeepCopyInto :: "library \<Rightarrow> ZrokShare_mem \<Rightarrow> ZrokShare_mem mem" where
  "ZrokShare_DeepCopyInto L x =
     do { m \<leftarrow> lib_meta L (shareMeta x);
          sp \<leftarrow> ZrokShareSpec_DeepCopyInto (shareSpec x);
          st \<leftarrow> ZrokShareStatus_DeepCopyInto L (shareStatus x);
          ret (x\<lparr>shareMeta := m, shareSpec := sp, shareStatus := st\<rparr>) }"

definition AgentPersistence_DeepCopyInto :: "library \<Rightarrow> AgentPersistence_mem \<Rightarrow> AgentPersistence_mem mem" where
  "AgentPersistence_DeepCopyInto L x =
     do { size \<leftarrow> lib_quantity L (pmSize x);
          cls \<leftarrow> copy_string (pmStorageClassName x);
          ret (x\<lparr>pmSize := size, pmStorageClassName := cls\<rparr>) }"

definition AgentSpec_DeepCopyInto :: "library \<Rightarrow> AgentSpec_mem \<Rightarrow> AgentSpec_mem mem" where
  "AgentSpec_DeepCopyInto L x =
     do { replicas \<leftarrow> copy_int32 (amReplicas x);
          persistence \<leftarrow> AgentPersistence_DeepCopyInto L (amPersistence x);
          resources \<leftarrow> lib_resources L (amResources x);
          ret (x\<lparr>amReplicas := replicas, amPersistence := persistence, amResources := resources\<rparr>) }"

definition ZrokEnvironmentSpec_DeepCopyInto :: "library \<Rightarrow> ZrokEnvironmentSpec_mem \<Rightarrow> ZrokEnvironmentSpec_mem mem" where
  "ZrokEnvironmentSpec_DeepCopyInto L x =
     do { ref \<leftarrow> lib_key_selector L (emEnableTokenSecretRef x);
          ag \<leftarrow> AgentSpec_DeepCopyInto L (emAgent x);
          ret (x\<lparr>emEnableTokenSecretRef := ref, emAgent := ag\<rparr>) }"

definition ZrokEnvironmentStatus_DeepCopyInto :: "library \<Rightarrow> ZrokEnvironmentStatus_mem \<Rightarrow> ZrokEnvironmentStatus_mem mem" where
  "ZrokEnvironmentStatus_DeepCopyInto L x =
     do { conds \<leftarrow> copy_conditions L (etmConditions x); ret (x\<lparr>etmConditions := conds\<rparr>) }"

definition ZrokEnvironment_DeepCopyInto :: "library \<Rightarrow> ZrokEnvironment_mem \<Rightarrow> ZrokEnvironment_mem mem" where
  "ZrokEnvironment_DeepCopyInto L x =
     do { m \<leftarrow> lib_meta L (envMeta x);
          sp \<leftarrow> ZrokEnvironmentSpec_DeepCopyInto L (envSpec x);
          st \<leftarrow> ZrokEnvironmentStatus_DeepCopyInto L (envStatus x);
          ret (x\<lparr>envMeta := m, envSpec := sp, envStatus := st\<rparr>) }"

definition ZrokAccessStatus_DeepCopyInto :: "library \<Rightarrow> ZrokAccessStatus_mem \<Rightarrow> ZrokAccessStatus_mem mem" where
  "ZrokAccessStatus_DeepCopyInto L x =
     do { conds \<leftarrow> copy_conditions L (atmConditions x); ret (x\<lparr>atmConditions := conds\<rparr>) }"

definition ZrokAccessSpec_DeepCopyInto :: "ZrokAccessSpec \<Rightarrow> ZrokAccessSpec mem" where
  "ZrokAccessSpec_DeepCopyInto x = ret x"

definition ZrokAccess_DeepCopyInto :: "library \<Rightarrow> ZrokAccess_mem \<Rightarrow> ZrokAccess_mem mem" where
  "ZrokAccess_DeepCopyInto L x =
     do { m \<leftarrow> lib_meta L (accessMeta x);
          sp \<leftarrow> ZrokAccessSpec_DeepCopyInto (accessSpec x);
          st \<leftarrow> ZrokAccessStatus_DeepCopyInto L (accessStatus x);
          ret (x\<lparr>accessMeta := m, accessSpec := sp, accessStatus := st\<rparr>) }"

definition ZrokShareList_DeepCopyInto :: "library \<Rightarrow> ZrokShareList_mem \<Rightarrow> ZrokShareList_mem mem" where
  "ZrokShareList_DeepCopyInto L l =
     do { m \<leftarrow> lib_list_meta L (shareListMeta l);
          items \<leftarrow> copy_new ShareArray as_shares (copy_elements (ZrokShare_DeepCopyInto L)) (shareItems l);
          ret (l\<lparr>shareListMeta := m, shareItems := items\<rparr>) }"

definition ZrokEnvironmentList_DeepCopyInto :: "library \<Rightarrow> ZrokEnvironmentList_mem \<Rightarrow> ZrokEnvironmentList_mem mem" where
  "ZrokEnvironmentList_DeepCopyInto L l =
     do { m \<leftarrow> lib_list_meta L (envListMeta l);
          items \<leftarrow> copy_new EnvironmentArray as_environments
                     (copy_elements (ZrokEnvironment_DeepCopyInto L)) (envItems l);
          ret (l\<lparr>envListMeta := m, envItems := items\<rparr>) }"

definition ZrokAccessList_DeepCopyInto :: "library \<Rightarrow> ZrokAccessList_mem \<Rightarrow> ZrokAccessList_mem mem" where
  "ZrokAccessList_DeepCopyInto L l =
     do { m \<leftarrow> lib_list_meta L (accessListMeta l);
          items \<leftarrow> copy_new AccessArray as_accesses (copy_elements (ZrokAccess_DeepCopyInto L)) (accessItems l);
          ret (l\<lparr>accessListMeta := m, accessItems := items\<rparr>) }"

definition DeepCopy :: "('g \<Rightarrow> 'g mem) \<Rightarrow> 'g option \<Rightarrow> 'g option mem" where
  \<comment> \<open>\<open>DeepCopy\<close> and \<open>DeepCopyObject\<close> of a type: nil for nil, else a new structure\<close>
  "DeepCopy copy_into x =
     (case x of None \<Rightarrow> ret None | Some g \<Rightarrow> do { g' \<leftarrow> copy_into g; ret (Some g') })"

text \<open>The methods of each type, for a receiver that may be nil.\<close>

definition AgentPersistence_DeepCopy :: "library \<Rightarrow> AgentPersistence_mem option \<Rightarrow> AgentPersistence_mem option mem" where
  "AgentPersistence_DeepCopy L = DeepCopy (AgentPersistence_DeepCopyInto L)"

definition AgentSpec_DeepCopy :: "library \<Rightarrow> AgentSpec_mem option \<Rightarrow> AgentSpec_mem option mem" where
  "AgentSpec_DeepCopy L = DeepCopy (AgentSpec_DeepCopyInto L)"

definition NameSelectionSpec_DeepCopy :: "NameSelectionSpec option \<Rightarrow> NameSelectionSpec option mem" where
  "NameSelectionSpec_DeepCopy = DeepCopy NameSelectionSpec_DeepCopyInto"

definition OAuthSpec_DeepCopy :: "OAuthSpec_mem option \<Rightarrow> OAuthSpec_mem option mem" where
  "OAuthSpec_DeepCopy = DeepCopy OAuthSpec_DeepCopyInto"

definition ZrokAccess_DeepCopy :: "library \<Rightarrow> ZrokAccess_mem option \<Rightarrow> ZrokAccess_mem option mem" where
  "ZrokAccess_DeepCopy L = DeepCopy (ZrokAccess_DeepCopyInto L)"

definition ZrokAccessList_DeepCopy :: "library \<Rightarrow> ZrokAccessList_mem option \<Rightarrow> ZrokAccessList_mem option mem" where
  "ZrokAccessList_DeepCopy L = DeepCopy (ZrokAccessList_DeepCopyInto L)"

definition ZrokAccessSpec_DeepCopy :: "ZrokAccessSpec option \<Rightarrow> ZrokAccessSpec option mem" where
  "ZrokAccessSpec_DeepCopy = DeepCopy ZrokAccessSpec_DeepCopyInto"

definition ZrokAccessStatus_DeepCopy :: "library \<Rightarrow> ZrokAccessStatus_mem option \<Rightarrow> ZrokAccessStatus_mem option mem" where
  "ZrokAccessStatus_DeepCopy L = DeepCopy (ZrokAccessStatus_DeepCopyInto L)"

definition ZrokEnvironment_DeepCopy :: "library \<Rightarrow> ZrokEnvironment_mem option \<Rightarrow> ZrokEnvironment_mem option mem" where
  "ZrokEnvironment_DeepCopy L = DeepCopy (ZrokEnvironment_DeepCopyInto L)"

definition ZrokEnvironmentList_DeepCopy :: "library \<Rightarrow> ZrokEnvironmentList_mem option \<Rightarrow> ZrokEnvironmentList_mem option mem" where
  "ZrokEnvironmentList_DeepCopy L = DeepCopy (ZrokEnvironmentList_DeepCopyInto L)"

definition ZrokEnvironmentSpec_DeepCopy :: "library \<Rightarrow> ZrokEnvironmentSpec_mem option \<Rightarrow> ZrokEnvironmentSpec_mem option mem" where
  "ZrokEnvironmentSpec_DeepCopy L = DeepCopy (ZrokEnvironmentSpec_DeepCopyInto L)"

definition ZrokEnvironmentStatus_DeepCopy :: "library \<Rightarrow> ZrokEnvironmentStatus_mem option \<Rightarrow> ZrokEnvironmentStatus_mem option mem" where
  "ZrokEnvironmentStatus_DeepCopy L = DeepCopy (ZrokEnvironmentStatus_DeepCopyInto L)"

definition ZrokShare_DeepCopy :: "library \<Rightarrow> ZrokShare_mem option \<Rightarrow> ZrokShare_mem option mem" where
  "ZrokShare_DeepCopy L = DeepCopy (ZrokShare_DeepCopyInto L)"

definition ZrokShareList_DeepCopy :: "library \<Rightarrow> ZrokShareList_mem option \<Rightarrow> ZrokShareList_mem option mem" where
  "ZrokShareList_DeepCopy L = DeepCopy (ZrokShareList_DeepCopyInto L)"

definition ZrokShareSpec_DeepCopy :: "ZrokShareSpec_mem option \<Rightarrow> ZrokShareSpec_mem option mem" where
  "ZrokShareSpec_DeepCopy = DeepCopy ZrokShareSpec_DeepCopyInto"

definition ZrokShareStatus_DeepCopy :: "library \<Rightarrow> ZrokShareStatus_mem option \<Rightarrow> ZrokShareStatus_mem option mem" where
  "ZrokShareStatus_DeepCopy L = DeepCopy (ZrokShareStatus_DeepCopyInto L)"

lemmas DeepCopy_methods = AgentPersistence_DeepCopy_def AgentSpec_DeepCopy_def
  NameSelectionSpec_DeepCopy_def OAuthSpec_DeepCopy_def ZrokAccess_DeepCopy_def
  ZrokAccessList_DeepCopy_def ZrokAccessSpec_DeepCopy_def ZrokAccessStatus_DeepCopy_def
  ZrokEnvironment_DeepCopy_def ZrokEnvironmentList_DeepCopy_def ZrokEnvironmentSpec_DeepCopy_def
  ZrokEnvironmentStatus_DeepCopy_def ZrokShare_DeepCopy_def ZrokShareList_DeepCopy_def
  ZrokShareSpec_DeepCopy_def ZrokShareStatus_DeepCopy_def

section \<open>What a copy shares with its original\<close>

text \<open>
  An object is read back from memory by \<open>value_of\<close>, and \<open>reach\<close> is the set of the cells it
  refers to, directly or through another. A copy function that allocates everything it does not
  copy by value satisfies the contract below.
\<close>

definition agree :: "addr set \<Rightarrow> heap \<Rightarrow> heap \<Rightarrow> bool" where
  "agree S h h' \<longleftrightarrow> (\<forall>a\<in>S. h' ! a = h ! a)"

lemma agree_simps [simp]:
  "agree {} h h'"
  "agree (insert a S) h h' \<longleftrightarrow> h' ! a = h ! a \<and> agree S h h'"
  "agree (S \<union> T) h h' \<longleftrightarrow> agree S h h' \<and> agree T h h'"
  "agree (\<Union> (f ` X)) h h' \<longleftrightarrow> (\<forall>x\<in>X. agree (f x) h h')"
  by (auto simp: agree_def)

lemma agree_append: "S \<subseteq> {..<length h} \<Longrightarrow> agree S h (h @ cs)"
  by (auto simp: agree_def nth_append)

locale deep_copy =
  fixes value_of :: "heap \<Rightarrow> 'g \<Rightarrow> 'v"
    and reach :: "heap \<Rightarrow> 'g \<Rightarrow> addr set"
    and copy_into :: "'g \<Rightarrow> 'g mem"
  assumes value_local: "agree (reach h x) h h' \<Longrightarrow> value_of h' x = value_of h x"
    and reach_local: "agree (reach h x) h h' \<Longrightarrow> reach h' x = reach h x"
    and copies: "reach h x \<subseteq> {..<length h} \<Longrightarrow>
      \<exists>x' cs. run_state (copy_into x) h = (x', h @ cs) \<and> value_of (h @ cs) x' = value_of h x \<and>
        reach (h @ cs) x' \<subseteq> {length h..<length h + length cs}"
begin

lemma value_append: "reach h x \<subseteq> {..<length h} \<Longrightarrow> value_of (h @ cs) x = value_of h x"
  by (intro value_local agree_append)

lemma reach_append: "reach h x \<subseteq> {..<length h} \<Longrightarrow> reach (h @ cs) x = reach h x"
  by (intro reach_local agree_append)

end

definition stores :: "(addr \<times> cell) list \<Rightarrow> heap \<Rightarrow> heap" where
  \<comment> \<open>assignments through pointers, in order\<close>
  "stores ws h = foldl (\<lambda>g (a, c). g[a := c]) h ws"

lemma stores_other: "a \<notin> fst ` set ws \<Longrightarrow> stores ws h ! a = h ! a"
proof (induction ws arbitrary: h)
  case (Cons w ws)
  then show ?case by (cases w) (simp add: stores_def)
qed (simp add: stores_def)

text \<open>
  A copy is independent of its original when it has the same value, and whatever is later
  allocated (\<open>ds\<close>) and written, in new cells and in the cells that belong to one of the two,
  leaves the value of the other as it was.
\<close>

definition independent_copy ::
    "(heap \<Rightarrow> 'g \<Rightarrow> 'v) \<Rightarrow> (heap \<Rightarrow> 'g \<Rightarrow> addr set) \<Rightarrow> heap \<Rightarrow> 'g \<Rightarrow> heap \<Rightarrow> 'g \<Rightarrow> bool" where
  "independent_copy value_of reach h x h' x' \<longleftrightarrow>
     value_of h' x' = value_of h x \<and> value_of h' x = value_of h x \<and>
     (\<forall>ds ws. fst ` set ws \<subseteq> reach h' x \<union> {length h'..} \<longrightarrow>
        value_of (stores ws (h' @ ds)) x' = value_of h x) \<and>
     (\<forall>ds ws. fst ` set ws \<subseteq> reach h' x' \<union> {length h'..} \<longrightarrow>
        value_of (stores ws (h' @ ds)) x = value_of h x)"

context deep_copy
begin

lemma unaffected:
  assumes "reach h x \<subseteq> {..<length h}" and "fst ` set ws \<inter> reach h x = {}"
  shows "value_of (stores ws (h @ ds)) x = value_of h x"
proof (intro value_local, unfold agree_def, rule ballI)
  fix a assume "a \<in> reach h x"
  with assms have "a \<notin> fst ` set ws" "a < length h" by blast+
  then show "stores ws (h @ ds) ! a = h ! a" by (simp add: stores_other nth_append)
qed

lemma copy_is_independent:
  assumes within: "reach h x \<subseteq> {..<length h}" and run: "run_state (copy_into x) h = (x', h')"
  shows "independent_copy value_of reach h x h' x'"
proof -
  from copies [OF within] run obtain cs where h': "h' = h @ cs"
    and same: "value_of h' x' = value_of h x"
    and fresh: "reach h' x' \<subseteq> {length h..<length h + length cs}" by auto
  have old: "value_of h' x = value_of h x" "reach h' x = reach h x"
    using within h' by (simp_all add: value_append reach_append)
  have new: "value_of (stores ws (h' @ ds)) x' = value_of h x"
    if "fst ` set ws \<subseteq> reach h' x \<union> {length h'..}" for ws ds
  proof -
    have "reach h' x' \<subseteq> {..<length h'}" using fresh h' by auto
    moreover have "fst ` set ws \<inter> reach h' x' = {}" using that fresh within old(2) h' by fastforce
    ultimately show ?thesis by (simp add: unaffected same)
  qed
  have orig: "value_of (stores ws (h' @ ds)) x = value_of h x"
    if "fst ` set ws \<subseteq> reach h' x' \<union> {length h'..}" for ws ds
  proof -
    have "reach h' x \<subseteq> {..<length h'}" using within old(2) h' by auto
    moreover have "fst ` set ws \<inter> reach h' x = {}" using that fresh within old(2) h' by fastforce
    ultimately show ?thesis by (simp add: unaffected old(1))
  qed
  from same old new orig show ?thesis by (simp add: independent_copy_def)
qed

end

context deep_copy
begin

lemma DeepCopy_independent:
  assumes "reach h x \<subseteq> {..<length h}"
  shows "\<exists>x' h'. run_state (DeepCopy copy_into (Some x)) h = (Some x', h') \<and>
    independent_copy value_of reach h x h' x'"
proof -
  obtain x' h' where run: "run_state (copy_into x) h = (x', h')" by fastforce
  with copy_is_independent [OF assms run] show ?thesis by (simp add: DeepCopy_def)
qed

end

section \<open>Copies are put together from copies\<close>

lemma deep_copy_plain: "deep_copy (\<lambda>_ x. x) (\<lambda>_ _. {}) ret"
  by unfold_locales auto

lemma deep_copy_map:
  assumes "deep_copy v r c"
  shows "deep_copy (\<lambda>h x. f (v h x)) r c"
  using assms unfolding deep_copy_def by metis

lemma deep_copy_field:
  assumes dc: "deep_copy v r c"
    and copy: "\<And>x. copy_into x = do { y \<leftarrow> c (sel x); ret (put x y) }"
    and val: "\<And>h x. value_of h x = mk x (v h (sel x))"
    and reach: "\<And>h x. reach h x = r h (sel x)"
    and put: "\<And>x y. sel (put x y) = y" "\<And>x y. mk (put x y) = mk x"
  shows "deep_copy value_of reach copy_into"
proof unfold_locales
  fix h x assume "reach h x \<subseteq> {..<length h}"
  then obtain y cs where "run_state (c (sel x)) h = (y, h @ cs)" "v (h @ cs) y = v h (sel x)"
    "r (h @ cs) y \<subseteq> {length h..<length h + length cs}"
    using deep_copy.copies [OF dc, of h "sel x"] unfolding reach by blast
  then show "\<exists>x' cs. run_state (copy_into x) h = (x', h @ cs) \<and> value_of (h @ cs) x' = value_of h x \<and>
      reach (h @ cs) x' \<subseteq> {length h..<length h + length cs}"
    by (auto simp: copy val reach put)
qed (simp_all add: val reach deep_copy.value_local [OF dc] deep_copy.reach_local [OF dc])

definition copy_pair :: "('b \<Rightarrow> 'b mem) \<Rightarrow> ('c \<Rightarrow> 'c mem) \<Rightarrow> 'b \<times> 'c \<Rightarrow> ('b \<times> 'c) mem" where
  "copy_pair c1 c2 p = do { x \<leftarrow> c1 (fst p); y \<leftarrow> c2 (snd p); ret (x, y) }"

lemma deep_copy_pair:
  assumes dc1: "deep_copy v1 r1 c1" and dc2: "deep_copy v2 r2 c2"
  shows "deep_copy (\<lambda>h p. (v1 h (fst p), v2 h (snd p))) (\<lambda>h p. r1 h (fst p) \<union> r2 h (snd p)) (copy_pair c1 c2)"
proof unfold_locales
  fix h p assume within: "r1 h (fst p) \<union> r2 h (snd p) \<subseteq> {..<length h}"
  from within obtain x cs where x: "run_state (c1 (fst p)) h = (x, h @ cs)" "v1 (h @ cs) x = v1 h (fst p)"
      "r1 (h @ cs) x \<subseteq> {length h..<length h + length cs}"
    using deep_copy.copies [OF dc1, of h "fst p"] by auto
  from within have r2: "r2 (h @ cs) (snd p) = r2 h (snd p)" "v2 (h @ cs) (snd p) = v2 h (snd p)"
    using deep_copy.reach_append [OF dc2] deep_copy.value_append [OF dc2] by auto
  with within obtain y ds where y: "run_state (c2 (snd p)) (h @ cs) = (y, h @ cs @ ds)"
      "v2 (h @ cs @ ds) y = v2 h (snd p)"
      "r2 (h @ cs @ ds) y \<subseteq> {length h + length cs..<length h + length cs + length ds}"
    using deep_copy.copies [OF dc2, of "h @ cs" "snd p"] by fastforce
  have "r1 (h @ cs) x \<subseteq> {..<length (h @ cs)}" using x(3) by auto
  then have "v1 ((h @ cs) @ ds) x = v1 h (fst p)" "r1 ((h @ cs) @ ds) x = r1 (h @ cs) x"
    using x(2) by (simp_all only: deep_copy.value_append [OF dc1] deep_copy.reach_append [OF dc1])
  with x y show "\<exists>p' es. run_state (copy_pair c1 c2 p) h = (p', h @ es) \<and>
      (v1 (h @ es) (fst p'), v2 (h @ es) (snd p')) = (v1 h (fst p), v2 h (snd p)) \<and>
      r1 (h @ es) (fst p') \<union> r2 (h @ es) (snd p') \<subseteq> {length h..<length h + length es}"
    by (intro exI [of _ "(x, y)"] exI [of _ "cs @ ds"]) (auto simp: copy_pair_def)
next
  fix h p h'
  assume "agree (r1 h (fst p) \<union> r2 h (snd p)) h h'"
  then have one: "agree (r1 h (fst p)) h h'" and two: "agree (r2 h (snd p)) h h'" by simp_all
  show "(v1 h' (fst p), v2 h' (snd p)) = (v1 h (fst p), v2 h (snd p))"
    by (simp add: deep_copy.value_local [OF dc1 one] deep_copy.value_local [OF dc2 two])
  show "r1 h' (fst p) \<union> r2 h' (snd p) = r1 h (fst p) \<union> r2 h (snd p)"
    by (simp add: deep_copy.reach_local [OF dc1 one] deep_copy.reach_local [OF dc2 two])
qed

definition pointee :: "(cell \<Rightarrow> 'b) \<Rightarrow> (heap \<Rightarrow> 'b \<Rightarrow> 'v) \<Rightarrow> heap \<Rightarrow> addr option \<Rightarrow> 'v option" where
  "pointee contents v h p = (case p of None \<Rightarrow> None | Some a \<Rightarrow> Some (v h (contents (h ! a))))"

definition pointer_reach :: "(cell \<Rightarrow> 'b) \<Rightarrow> (heap \<Rightarrow> 'b \<Rightarrow> addr set) \<Rightarrow> heap \<Rightarrow> addr option \<Rightarrow> addr set" where
  "pointer_reach contents r h p = (case p of None \<Rightarrow> {} | Some a \<Rightarrow> insert a (r h (contents (h ! a))))"

lemma deep_copy_new:
  assumes dc: "deep_copy v r c" and tag: "\<And>y. contents (mk y) = y"
  shows "deep_copy (pointee contents v) (pointer_reach contents r) (copy_new mk contents c)"
proof unfold_locales
  fix h p assume within: "pointer_reach contents r h p \<subseteq> {..<length h}"
  show "\<exists>p' cs. run_state (copy_new mk contents c p) h = (p', h @ cs) \<and>
      pointee contents v (h @ cs) p' = pointee contents v h p \<and>
      pointer_reach contents r (h @ cs) p' \<subseteq> {length h..<length h + length cs}"
  proof (cases p)
    case None
    then show ?thesis by (simp add: copy_new_def pointee_def pointer_reach_def)
  next
    case (Some a)
    with within obtain y cs where y: "run_state (c (contents (h ! a))) h = (y, h @ cs)"
        "v (h @ cs) y = v h (contents (h ! a))" "r (h @ cs) y \<subseteq> {length h..<length h + length cs}"
      using deep_copy.copies [OF dc, of h "contents (h ! a)"] by (auto simp: pointer_reach_def)
    have "r (h @ cs) y \<subseteq> {..<length (h @ cs)}" using y(3) by auto
    then have "v ((h @ cs) @ [mk y]) y = v (h @ cs) y" "r ((h @ cs) @ [mk y]) y = r (h @ cs) y"
      by (rule deep_copy.value_append [OF dc], rule deep_copy.reach_append [OF dc])
    with y Some show ?thesis
      by (intro exI [of _ "Some (length h + length cs)"] exI [of _ "cs @ [mk y]"])
        (auto simp: copy_new_def pointee_def pointer_reach_def tag nth_append)
  qed
next
  fix h p h'
  assume agr: "agree (pointer_reach contents r h p) h h'"
  show "pointee contents v h' p = pointee contents v h p"
  proof (cases p)
    case (Some a)
    with agr have "agree (r h (contents (h ! a))) h h'" "h' ! a = h ! a" by (simp_all add: pointer_reach_def)
    then show ?thesis using Some by (simp add: pointee_def deep_copy.value_local [OF dc])
  qed (simp add: pointee_def)
  show "pointer_reach contents r h' p = pointer_reach contents r h p"
  proof (cases p)
    case (Some a)
    with agr have "agree (r h (contents (h ! a))) h h'" "h' ! a = h ! a" by (simp_all add: pointer_reach_def)
    then show ?thesis using Some deep_copy.reach_local [OF dc] by (simp add: pointer_reach_def)
  qed (simp add: pointer_reach_def)
qed

lemma deep_copy_elements:
  assumes dc: "deep_copy v r c"
  shows "deep_copy (\<lambda>h. map (v h)) (\<lambda>h xs. \<Union> (r h ` set xs)) (copy_elements c)"
proof unfold_locales
  fix h h' :: heap and xs
  assume "agree (\<Union> (r h ` set xs)) h h'"
  then have agr: "agree (r h x) h h'" if "x \<in> set xs" for x using that by simp
  show "map (v h') xs = map (v h) xs"
    using agr by (simp add: deep_copy.value_local [OF dc])
  show "\<Union> (r h' ` set xs) = \<Union> (r h ` set xs)"
    using deep_copy.reach_local [OF dc agr] by (intro SUP_cong) simp_all
next
  fix h xs assume "\<Union> (r h ` set xs) \<subseteq> {..<length h}"
  then show "\<exists>xs' cs. run_state (copy_elements c xs) h = (xs', h @ cs) \<and> map (v (h @ cs)) xs' = map (v h) xs \<and>
      \<Union> (r (h @ cs) ` set xs') \<subseteq> {length h..<length h + length cs}"
  proof (induction xs arbitrary: h)
    case Nil
    show ?case by simp
  next
    case (Cons x xs)
    have x_in: "r h x \<subseteq> {..<length h}" and xs_in: "\<And>z. z \<in> set xs \<Longrightarrow> r h z \<subseteq> {..<length h}"
      using Cons.prems by auto
    obtain y cs where y: "run_state (c x) h = (y, h @ cs)" "v (h @ cs) y = v h x"
        "r (h @ cs) y \<subseteq> {length h..<length h + length cs}"
      using deep_copy.copies [OF dc x_in] by blast
    have xs_cs: "map (v (h @ cs)) xs = map (v h) xs" "\<Union> (r (h @ cs) ` set xs) \<subseteq> {..<length (h @ cs)}"
      using xs_in by (fastforce simp: deep_copy.value_append [OF dc] deep_copy.reach_append [OF dc])+
    obtain ys ds where ys: "run_state (copy_elements c xs) (h @ cs) = (ys, (h @ cs) @ ds)"
        "map (v ((h @ cs) @ ds)) ys = map (v h) xs"
        "\<Union> (r ((h @ cs) @ ds) ` set ys) \<subseteq> {length (h @ cs)..<length (h @ cs) + length ds}"
      using Cons.IH [OF xs_cs(2)] unfolding xs_cs(1) by blast
    have "r (h @ cs) y \<subseteq> {..<length (h @ cs)}" using y(3) by auto
    then have "v ((h @ cs) @ ds) y = v (h @ cs) y" "r ((h @ cs) @ ds) y = r (h @ cs) y"
      by (rule deep_copy.value_append [OF dc], rule deep_copy.reach_append [OF dc])
    then have "map (v (h @ cs @ ds)) (y # ys) = map (v h) (x # xs)"
      "\<Union> (r (h @ cs @ ds) ` set (y # ys)) = r (h @ cs) y \<union> \<Union> (r (h @ cs @ ds) ` set ys)"
      using y(2) ys(2) by simp_all
    moreover have "r (h @ cs) y \<union> \<Union> (r (h @ cs @ ds) ` set ys) \<subseteq> {length h..<length h + length (cs @ ds)}"
      using y(3) ys(3) by fastforce
    moreover have "run_state (copy_elements c (x # xs)) h = (y # ys, h @ cs @ ds)"
      using y(1) ys(1) by simp
    ultimately show ?case by metis
  qed
qed

section \<open>The custom resources, read back\<close>

definition strings_at :: "heap \<Rightarrow> addr option \<Rightarrow> string list" where
  "strings_at h p = (case p of None \<Rightarrow> [] | Some a \<Rightarrow> as_strings (h ! a))"

definition conditions_at :: "heap \<Rightarrow> addr option \<Rightarrow> Condition list" where
  "conditions_at h p = (case p of None \<Rightarrow> [] | Some a \<Rightarrow> as_conditions (h ! a))"

definition cell_of :: "heap \<Rightarrow> addr option \<Rightarrow> addr set" where
  "cell_of h p = set_option p"

definition map_at :: "heap \<Rightarrow> addr option \<Rightarrow> string \<rightharpoonup> string" where
  "map_at h p = (case p of None \<Rightarrow> Map.empty | Some a \<Rightarrow> as_map (h ! a))"

definition owner_value :: "heap \<Rightarrow> OwnerReference_mem \<Rightarrow> string \<times> bool option \<times> bool option" where
  "owner_value h x = (orUID x, pointee as_bool (\<lambda>_ y. y) h (orController x),
     pointee as_bool (\<lambda>_ y. y) h (orBlockOwnerDeletion x))"

definition owner_reach :: "heap \<Rightarrow> OwnerReference_mem \<Rightarrow> addr set" where
  "owner_reach h x = cell_of h (orController x) \<union> cell_of h (orBlockOwnerDeletion x)"

definition items_value :: "(cell \<Rightarrow> 'g list) \<Rightarrow> (heap \<Rightarrow> 'g \<Rightarrow> 'v) \<Rightarrow> heap \<Rightarrow> addr option \<Rightarrow> 'v list option" where
  \<comment> \<open>the elements of a slice\<close>
  "items_value contents v = pointee contents (\<lambda>h. map (v h))"

definition items_reach :: "(cell \<Rightarrow> 'g list) \<Rightarrow> (heap \<Rightarrow> 'g \<Rightarrow> addr set) \<Rightarrow> heap \<Rightarrow> addr option \<Rightarrow> addr set" where
  \<comment> \<open>the cells of the array and of everything in it\<close>
  "items_reach contents r = pointer_reach contents (\<lambda>h xs. \<Union> (r h ` set xs))"

definition controller_of :: "(string \<times> bool option \<times> bool option) list option \<Rightarrow> string option" where
  "controller_of owners =
     (case owners of None \<Rightarrow> None
      | Some xs \<Rightarrow> map_option fst (List.find (\<lambda>(uid, ctl, block). ctl = Some True) xs))"

definition meta_value :: "heap \<Rightarrow> ObjectMeta_mem \<Rightarrow> ObjectMeta" where
  "meta_value h x =
     \<lparr>Name = mmName x, Namespace = mmNamespace x, UID = mmUID x, Generation = mmGeneration x,
      DeletionTimestamp = pointee as_int (\<lambda>_ y. y) h (mmDeletionTimestamp x),
      Finalizers = set (strings_at h (mmFinalizers x)), Labels = map_at h (mmLabels x),
      Annotations = map_at h (mmAnnotations x),
      ControllerRef = controller_of (items_value as_owners owner_value h (mmOwnerReferences x))\<rparr>"

definition meta_reach :: "heap \<Rightarrow> ObjectMeta_mem \<Rightarrow> addr set" where
  "meta_reach h x =
     cell_of h (mmDeletionTimestamp x) \<union> (cell_of h (mmFinalizers x) \<union> (cell_of h (mmLabels x) \<union>
     (cell_of h (mmAnnotations x) \<union> items_reach as_owners owner_reach h (mmOwnerReferences x))))"

definition list_meta_value :: "heap \<Rightarrow> ListMeta_mem \<Rightarrow> string \<times> int option" where
  "list_meta_value h x = (lmResourceVersion x, pointee as_int (\<lambda>_ y. y) h (lmRemainingItemCount x))"

definition list_meta_reach :: "heap \<Rightarrow> ListMeta_mem \<Rightarrow> addr set" where
  "list_meta_reach h x = cell_of h (lmRemainingItemCount x)"

definition quantity_value :: "heap \<Rightarrow> Quantity_mem \<Rightarrow> quantity" where
  "quantity_value h x = (case pointee as_int (\<lambda>_ y. y) h (qmDec x) of None \<Rightarrow> qmInt x | Some n \<Rightarrow> n)"

definition quantity_reach :: "heap \<Rightarrow> Quantity_mem \<Rightarrow> addr set" where
  "quantity_reach h x = cell_of h (qmDec x)"

definition quantities_value :: "heap \<Rightarrow> addr option \<Rightarrow> resource_list option" where
  "quantities_value h p =
     map_option map_of (items_value as_quantities (\<lambda>h x. (fst x, quantity_value h (snd x))) h p)"

definition quantities_reach :: "heap \<Rightarrow> addr option \<Rightarrow> addr set" where
  "quantities_reach = items_reach as_quantities (\<lambda>h x. quantity_reach h (snd x))"

definition resources_value :: "heap \<Rightarrow> ResourceRequirements_mem \<Rightarrow> ResourceRequirements" where
  "resources_value h x =
     \<lparr>Requests = quantities_value h (rmRequests x), Limits = quantities_value h (rmLimits x)\<rparr>"

definition resources_reach :: "heap \<Rightarrow> ResourceRequirements_mem \<Rightarrow> addr set" where
  "resources_reach h x = quantities_reach h (rmRequests x) \<union> quantities_reach h (rmLimits x)"

definition selector_value :: "heap \<Rightarrow> SecretKeySelector_mem \<Rightarrow> SecretKeySelector \<times> bool option" where
  "selector_value h x =
     (\<lparr>skName = kmName x, skKey = kmKey x\<rparr>, pointee as_bool (\<lambda>_ y. y) h (kmOptional x))"

definition selector_reach :: "heap \<Rightarrow> SecretKeySelector_mem \<Rightarrow> addr set" where
  "selector_reach h x = cell_of h (kmOptional x)"

definition oauth_value :: "heap \<Rightarrow> OAuthSpec_mem \<Rightarrow> OAuthSpec" where
  "oauth_value h x =
     \<lparr>oaProvider = omProvider x, oaEmailDomains = strings_at h (omEmailDomains x),
      oaRefreshInterval = omRefreshInterval x\<rparr>"

definition oauth_reach :: "heap \<Rightarrow> OAuthSpec_mem \<Rightarrow> addr set" where
  "oauth_reach h x = cell_of h (omEmailDomains x)"

definition share_spec_value :: "heap \<Rightarrow> ZrokShareSpec_mem \<Rightarrow> ZrokShareSpec" where
  "share_spec_value h x =
     \<lparr>shEnvironmentRef = smEnvironmentRef x, shShareMode = smShareMode x, shBackendMode = smBackendMode x,
      shUpstreamURL = smUpstreamURL x,
      shNameSelection = pointee as_name_selection (\<lambda>_ y. y) h (smNameSelection x),
      shPrivateShareToken = smPrivateShareToken x, shInsecure = smInsecure x, shClosed = smClosed x,
      shAccessGrants = strings_at h (smAccessGrants x),
      shBasicAuthSecretRef = pointee as_string (\<lambda>_ y. y) h (smBasicAuthSecretRef x),
      shOAuth = pointee as_oauth oauth_value h (smOAuth x),
      shReclaimPolicy = smReclaimPolicy x\<rparr>"

definition share_spec_reach :: "heap \<Rightarrow> ZrokShareSpec_mem \<Rightarrow> addr set" where
  "share_spec_reach h x =
     cell_of h (smNameSelection x) \<union> (cell_of h (smAccessGrants x) \<union>
     (cell_of h (smBasicAuthSecretRef x) \<union> pointer_reach as_oauth oauth_reach h (smOAuth x)))"

definition share_status_value :: "heap \<Rightarrow> ZrokShareStatus_mem \<Rightarrow> ZrokShareStatus" where
  "share_status_value h x =
     \<lparr>shObservedGeneration = stmObservedGeneration x, shAssignedURL = stmAssignedURL x,
      shFrontendEndpoints = strings_at h (stmFrontendEndpoints x), shShareToken = stmShareToken x,
      shReservation = stmReservation x, shConditions = conditions_at h (stmConditions x)\<rparr>"

definition share_status_reach :: "heap \<Rightarrow> ZrokShareStatus_mem \<Rightarrow> addr set" where
  "share_status_reach h x = cell_of h (stmFrontendEndpoints x) \<union> cell_of h (stmConditions x)"

definition share_value :: "heap \<Rightarrow> ZrokShare_mem \<Rightarrow> ZrokShare" where
  "share_value h x =
     ObjectMeta.extend (meta_value h (shareMeta x))
       (ZrokShare.fields (share_spec_value h (shareSpec x)) (share_status_value h (shareStatus x)))"

definition share_reach :: "heap \<Rightarrow> ZrokShare_mem \<Rightarrow> addr set" where
  "share_reach h x =
     meta_reach h (shareMeta x) \<union> (share_spec_reach h (shareSpec x) \<union> share_status_reach h (shareStatus x))"

definition persistence_value :: "heap \<Rightarrow> AgentPersistence_mem \<Rightarrow> AgentPersistence" where
  "persistence_value h x =
     \<lparr>pSize = quantity_value h (pmSize x),
      pStorageClassName = pointee as_string (\<lambda>_ y. y) h (pmStorageClassName x)\<rparr>"

definition persistence_reach :: "heap \<Rightarrow> AgentPersistence_mem \<Rightarrow> addr set" where
  "persistence_reach h x = quantity_reach h (pmSize x) \<union> cell_of h (pmStorageClassName x)"

definition agent_spec_value :: "heap \<Rightarrow> AgentSpec_mem \<Rightarrow> AgentSpec" where
  "agent_spec_value h x =
     \<lparr>agImage = amImage x, agReplicas = pointee as_int (\<lambda>_ y. y) h (amReplicas x),
      agConsolePort = amConsolePort x, agPersistence = persistence_value h (amPersistence x),
      agResources = resources_value h (amResources x)\<rparr>"

definition agent_spec_reach :: "heap \<Rightarrow> AgentSpec_mem \<Rightarrow> addr set" where
  "agent_spec_reach h x =
     cell_of h (amReplicas x) \<union> (persistence_reach h (amPersistence x) \<union> resources_reach h (amResources x))"

definition env_value :: "heap \<Rightarrow> ZrokEnvironment_mem \<Rightarrow> ZrokEnvironment" where
  "env_value h x =
     ObjectMeta.extend (meta_value h (envMeta x))
       (ZrokEnvironment.fields
          \<lparr>enApiEndpoint = emApiEndpoint (envSpec x), enUniqueID = emUniqueID (envSpec x),
           enEnableTokenSecretRef = fst (selector_value h (emEnableTokenSecretRef (envSpec x))),
           enAgent = agent_spec_value h (emAgent (envSpec x)),
           enReclaimPolicy = emReclaimPolicy (envSpec x)\<rparr>
          \<lparr>enObservedGeneration = etmObservedGeneration (envStatus x), enEnvZID = etmEnvZID (envStatus x),
           enStatusUniqueID = etmUniqueID (envStatus x), enAgentService = etmAgentService (envStatus x),
           enAgentReady = etmAgentReady (envStatus x),
           enConditions = conditions_at h (etmConditions (envStatus x))\<rparr>)"

definition env_reach :: "heap \<Rightarrow> ZrokEnvironment_mem \<Rightarrow> addr set" where
  "env_reach h x =
     meta_reach h (envMeta x) \<union> (selector_reach h (emEnableTokenSecretRef (envSpec x)) \<union>
     (agent_spec_reach h (emAgent (envSpec x)) \<union> cell_of h (etmConditions (envStatus x))))"

definition access_value :: "heap \<Rightarrow> ZrokAccess_mem \<Rightarrow> ZrokAccess" where
  "access_value h x =
     ObjectMeta.extend (meta_value h (accessMeta x))
       (ZrokAccess.fields (accessSpec x)
          \<lparr>acObservedGeneration = atmObservedGeneration (accessStatus x),
           acFrontendEndpoint = atmFrontendEndpoint (accessStatus x),
           acAccessToken = atmAccessToken (accessStatus x),
           acConditions = conditions_at h (atmConditions (accessStatus x))\<rparr>)"

definition access_reach :: "heap \<Rightarrow> ZrokAccess_mem \<Rightarrow> addr set" where
  "access_reach h x = meta_reach h (accessMeta x) \<union> cell_of h (atmConditions (accessStatus x))"

section \<open>Every copy is deep\<close>

lemma deep_copy_cell:
  assumes "\<And>y. contents (mk y) = y"
  shows "deep_copy (pointee contents (\<lambda>_ y. y)) cell_of (copy_new mk contents ret)"
proof -
  have "pointer_reach contents (\<lambda>_ _. {}) = cell_of"
    by (intro ext) (auto simp: pointer_reach_def cell_of_def split: option.split)
  then show ?thesis using deep_copy_new [OF deep_copy_plain, of contents mk] assms by simp
qed

lemma deep_copy_strings: "deep_copy strings_at cell_of copy_strings"
proof -
  have "strings_at = (\<lambda>h p. case_option [] (\<lambda>y. y) (pointee as_strings (\<lambda>_ y. y) h p))"
    by (intro ext) (simp add: strings_at_def pointee_def split: option.split)
  then show ?thesis unfolding copy_strings_def
    using deep_copy_map [OF deep_copy_cell, of as_strings StringArray "case_option [] (\<lambda>y. y)"] by simp
qed

lemma deep_copy_string: "deep_copy (pointee as_string (\<lambda>_ y. y)) cell_of copy_string"
  unfolding copy_string_def by (rule deep_copy_cell) simp

lemma deep_copy_int32: "deep_copy (pointee as_int (\<lambda>_ y. y)) cell_of copy_int32"
  unfolding copy_int32_def by (rule deep_copy_cell) simp

lemma deep_copy_name_selection:
  "deep_copy (pointee as_name_selection (\<lambda>_ y. y)) cell_of copy_name_selection"
proof -
  have "NameSelectionSpec_DeepCopyInto = ret"
    by (intro ext) (simp add: NameSelectionSpec_DeepCopyInto_def)
  then show ?thesis unfolding copy_name_selection_def by (simp add: deep_copy_cell)
qed

lemma deep_copy_oauth_spec: "deep_copy oauth_value oauth_reach OAuthSpec_DeepCopyInto"
  by (rule deep_copy_field [OF deep_copy_strings, where sel = omEmailDomains
        and put = "\<lambda>x y. x\<lparr>omEmailDomains := y\<rparr>"
        and mk = "\<lambda>x y. \<lparr>oaProvider = omProvider x, oaEmailDomains = y, oaRefreshInterval = omRefreshInterval x\<rparr>"])
    (simp_all add: OAuthSpec_DeepCopyInto_def oauth_value_def oauth_reach_def)

lemma deep_copy_oauth: "deep_copy (pointee as_oauth oauth_value) (pointer_reach as_oauth oauth_reach) copy_oauth"
  unfolding copy_oauth_def by (rule deep_copy_new [OF deep_copy_oauth_spec]) simp

lemma deep_copy_share_spec: "deep_copy share_spec_value share_spec_reach ZrokShareSpec_DeepCopyInto"
  by (rule deep_copy_field
        [OF deep_copy_pair [OF deep_copy_name_selection
            deep_copy_pair [OF deep_copy_strings deep_copy_pair [OF deep_copy_string deep_copy_oauth]]],
         where sel = "\<lambda>x. (smNameSelection x, smAccessGrants x, smBasicAuthSecretRef x, smOAuth x)"
         and put = "\<lambda>x (ns, grants, ref, oa). x\<lparr>smNameSelection := ns, smAccessGrants := grants,
                      smBasicAuthSecretRef := ref, smOAuth := oa\<rparr>"
         and mk = "\<lambda>x (ns, grants, ref, oa).
            \<lparr>shEnvironmentRef = smEnvironmentRef x, shShareMode = smShareMode x,
             shBackendMode = smBackendMode x, shUpstreamURL = smUpstreamURL x, shNameSelection = ns,
             shPrivateShareToken = smPrivateShareToken x, shInsecure = smInsecure x, shClosed = smClosed x,
             shAccessGrants = grants, shBasicAuthSecretRef = ref, shOAuth = oa,
             shReclaimPolicy = smReclaimPolicy x\<rparr>"])
    (auto simp: ZrokShareSpec_DeepCopyInto_def copy_pair_def share_spec_value_def share_spec_reach_def)

lemma deep_copy_slice:
  assumes "deep_copy v r c" and "\<And>y. contents (mk y) = y"
  shows "deep_copy (items_value contents v) (items_reach contents r) (copy_new mk contents (copy_elements c))"
  unfolding items_value_def items_reach_def by (rule deep_copy_new [OF deep_copy_elements [OF assms(1)] assms(2)])

lemmas deep_copy_parts =
  copy_pair_def share_status_value_def share_status_reach_def share_value_def share_reach_def
  persistence_value_def persistence_reach_def agent_spec_value_def agent_spec_reach_def
  env_value_def env_reach_def access_value_def access_reach_def

section \<open>What the libraries promise\<close>

text \<open>
  The interface to the libraries: their copy functions are deep copies of their own structures, as
  \<open>DeepCopyInto\<close> and \<open>DeepCopy\<close> are documented. Given that, the copies of this API group are deep.
\<close>

locale deep_library =
  fixes L :: library
  assumes meta: "deep_copy meta_value meta_reach (lib_meta L)"
    and list_meta: "deep_copy list_meta_value list_meta_reach (lib_list_meta L)"
    and condition: "deep_copy (\<lambda>_ y. y) (\<lambda>_ _. {}) (lib_condition L)"
    and key_selector: "deep_copy selector_value selector_reach (lib_key_selector L)"
    and resources: "deep_copy resources_value resources_reach (lib_resources L)"
    and quantity: "deep_copy quantity_value quantity_reach (lib_quantity L)"
begin

lemma deep_copy_conditions: "deep_copy conditions_at cell_of (copy_conditions L)"
proof -
  have "conditions_at = (\<lambda>h p. case_option [] (\<lambda>y. y) (items_value as_conditions (\<lambda>_ y. y) h p))"
    by (intro ext) (simp add: conditions_at_def items_value_def pointee_def split: option.split)
  moreover have "cell_of = items_reach as_conditions (\<lambda>_ _. {})"
    by (intro ext) (auto simp: items_reach_def pointer_reach_def cell_of_def split: option.split)
  ultimately show ?thesis unfolding copy_conditions_def
    using deep_copy_map [OF deep_copy_slice [OF condition], of as_conditions ConditionArray "case_option [] (\<lambda>y. y)"]
    by simp
qed

lemma deep_copy_share_status: "deep_copy share_status_value share_status_reach (ZrokShareStatus_DeepCopyInto L)"
  by (rule deep_copy_field [OF deep_copy_pair [OF deep_copy_strings deep_copy_conditions],
         where sel = "\<lambda>x. (stmFrontendEndpoints x, stmConditions x)"
         and put = "\<lambda>x (eps, conds). x\<lparr>stmFrontendEndpoints := eps, stmConditions := conds\<rparr>"
         and mk = "\<lambda>x (eps, conds).
            \<lparr>shObservedGeneration = stmObservedGeneration x, shAssignedURL = stmAssignedURL x,
             shFrontendEndpoints = eps, shShareToken = stmShareToken x,
             shReservation = stmReservation x, shConditions = conds\<rparr>"])
    (auto simp: ZrokShareStatus_DeepCopyInto_def deep_copy_parts)

lemma deep_copy_share: "deep_copy share_value share_reach (ZrokShare_DeepCopyInto L)"
  by (rule deep_copy_field [OF deep_copy_pair [OF meta deep_copy_pair [OF deep_copy_share_spec deep_copy_share_status]],
         where sel = "\<lambda>x. (shareMeta x, shareSpec x, shareStatus x)"
         and put = "\<lambda>x (m, sp, st). x\<lparr>shareMeta := m, shareSpec := sp, shareStatus := st\<rparr>"
         and mk = "\<lambda>x (m, sp, st). ObjectMeta.extend m (ZrokShare.fields sp st)"])
    (auto simp: ZrokShare_DeepCopyInto_def deep_copy_parts)

lemma deep_copy_persistence: "deep_copy persistence_value persistence_reach (AgentPersistence_DeepCopyInto L)"
  by (rule deep_copy_field [OF deep_copy_pair [OF quantity deep_copy_string],
         where sel = "\<lambda>x. (pmSize x, pmStorageClassName x)"
         and put = "\<lambda>x (size, cls). x\<lparr>pmSize := size, pmStorageClassName := cls\<rparr>"
         and mk = "\<lambda>x (size, cls). \<lparr>pSize = size, pStorageClassName = cls\<rparr>"])
    (auto simp: AgentPersistence_DeepCopyInto_def deep_copy_parts)

lemma deep_copy_agent_spec: "deep_copy agent_spec_value agent_spec_reach (AgentSpec_DeepCopyInto L)"
  by (rule deep_copy_field [OF deep_copy_pair [OF deep_copy_int32 deep_copy_pair [OF deep_copy_persistence resources]],
         where sel = "\<lambda>x. (amReplicas x, amPersistence x, amResources x)"
         and put = "\<lambda>x (n, pers, res). x\<lparr>amReplicas := n, amPersistence := pers, amResources := res\<rparr>"
         and mk = "\<lambda>x (n, pers, res).
            \<lparr>agImage = amImage x, agReplicas = n, agConsolePort = amConsolePort x,
             agPersistence = pers, agResources = res\<rparr>"])
    (auto simp: AgentSpec_DeepCopyInto_def deep_copy_parts)

lemma deep_copy_env: "deep_copy env_value env_reach (ZrokEnvironment_DeepCopyInto L)"
  by (rule deep_copy_field [OF deep_copy_pair [OF meta deep_copy_pair [OF key_selector
           deep_copy_pair [OF deep_copy_agent_spec deep_copy_conditions]]],
         where sel = "\<lambda>x. (envMeta x, emEnableTokenSecretRef (envSpec x), emAgent (envSpec x), etmConditions (envStatus x))"
         and put = "\<lambda>x (m, ref, ag, conds). x\<lparr>envMeta := m,
                      envSpec := (envSpec x)\<lparr>emEnableTokenSecretRef := ref, emAgent := ag\<rparr>,
                      envStatus := (envStatus x)\<lparr>etmConditions := conds\<rparr>\<rparr>"
         and mk = "\<lambda>x (m, ref, ag, conds). ObjectMeta.extend m
            (ZrokEnvironment.fields
               \<lparr>enApiEndpoint = emApiEndpoint (envSpec x), enUniqueID = emUniqueID (envSpec x),
                enEnableTokenSecretRef = fst ref, enAgent = ag, enReclaimPolicy = emReclaimPolicy (envSpec x)\<rparr>
               \<lparr>enObservedGeneration = etmObservedGeneration (envStatus x), enEnvZID = etmEnvZID (envStatus x),
                enStatusUniqueID = etmUniqueID (envStatus x), enAgentService = etmAgentService (envStatus x),
                enAgentReady = etmAgentReady (envStatus x), enConditions = conds\<rparr>)"])
    (auto simp: ZrokEnvironment_DeepCopyInto_def ZrokEnvironmentSpec_DeepCopyInto_def
       ZrokEnvironmentStatus_DeepCopyInto_def deep_copy_parts)

lemma deep_copy_access: "deep_copy access_value access_reach (ZrokAccess_DeepCopyInto L)"
  by (rule deep_copy_field [OF deep_copy_pair [OF meta deep_copy_conditions],
         where sel = "\<lambda>x. (accessMeta x, atmConditions (accessStatus x))"
         and put = "\<lambda>x (m, conds). x\<lparr>accessMeta := m, accessStatus := (accessStatus x)\<lparr>atmConditions := conds\<rparr>\<rparr>"
         and mk = "\<lambda>x (m, conds). ObjectMeta.extend m
            (ZrokAccess.fields (accessSpec x)
               \<lparr>acObservedGeneration = atmObservedGeneration (accessStatus x),
                acFrontendEndpoint = atmFrontendEndpoint (accessStatus x),
                acAccessToken = atmAccessToken (accessStatus x), acConditions = conds\<rparr>)"])
    (auto simp: ZrokAccess_DeepCopyInto_def ZrokAccessSpec_DeepCopyInto_def
       ZrokAccessStatus_DeepCopyInto_def deep_copy_parts)

lemma deep_copy_list:
  assumes "deep_copy v r c" and "\<And>y. contents (mk y) = y"
    and "\<And>x. copy_into x = do { m \<leftarrow> lib_list_meta L (sel x);
           items \<leftarrow> copy_new mk contents (copy_elements c) (sel' x); ret (put x (m, items)) }"
    and "\<And>x m items. sel (put x (m, items)) = m \<and> sel' (put x (m, items)) = items"
  shows "deep_copy (\<lambda>h x. (list_meta_value h (sel x), items_value contents v h (sel' x)))
     (\<lambda>h x. list_meta_reach h (sel x) \<union> items_reach contents r h (sel' x)) copy_into"
  by (rule deep_copy_field [OF deep_copy_pair [OF list_meta deep_copy_slice [OF assms(1,2)]],
         where sel = "\<lambda>x. (sel x, sel' x)" and put = put and mk = "\<lambda>_ y. y"])
    (auto simp: copy_pair_def assms(3,4))

end

text \<open>The objects and the lists of the API group satisfy the contract.\<close>

sublocale deep_library \<subseteq> share_object: deep_copy share_value share_reach "ZrokShare_DeepCopyInto L"
  by (rule deep_copy_share)

sublocale deep_library \<subseteq> environment_object: deep_copy env_value env_reach "ZrokEnvironment_DeepCopyInto L"
  by (rule deep_copy_env)

sublocale deep_library \<subseteq> access_object: deep_copy access_value access_reach "ZrokAccess_DeepCopyInto L"
  by (rule deep_copy_access)

sublocale deep_library \<subseteq> share_list: deep_copy
  "\<lambda>h l. (list_meta_value h (shareListMeta l), items_value as_shares share_value h (shareItems l))"
  "\<lambda>h l. list_meta_reach h (shareListMeta l) \<union> items_reach as_shares share_reach h (shareItems l)"
  "ZrokShareList_DeepCopyInto L"
  by (rule deep_copy_list [OF deep_copy_share, where mk = ShareArray
        and put = "\<lambda>x (m, y). x\<lparr>shareListMeta := m, shareItems := y\<rparr>"])
    (simp_all add: ZrokShareList_DeepCopyInto_def)

sublocale deep_library \<subseteq> environment_list: deep_copy
  "\<lambda>h l. (list_meta_value h (envListMeta l), items_value as_environments env_value h (envItems l))"
  "\<lambda>h l. list_meta_reach h (envListMeta l) \<union> items_reach as_environments env_reach h (envItems l)"
  "ZrokEnvironmentList_DeepCopyInto L"
  by (rule deep_copy_list [OF deep_copy_env, where mk = EnvironmentArray
        and put = "\<lambda>x (m, y). x\<lparr>envListMeta := m, envItems := y\<rparr>"])
    (simp_all add: ZrokEnvironmentList_DeepCopyInto_def)

sublocale deep_library \<subseteq> access_list: deep_copy
  "\<lambda>h l. (list_meta_value h (accessListMeta l), items_value as_accesses access_value h (accessItems l))"
  "\<lambda>h l. list_meta_reach h (accessListMeta l) \<union> items_reach as_accesses access_reach h (accessItems l)"
  "ZrokAccessList_DeepCopyInto L"
  by (rule deep_copy_list [OF deep_copy_access, where mk = AccessArray
        and put = "\<lambda>x (m, y). x\<lparr>accessListMeta := m, accessItems := y\<rparr>"])
    (simp_all add: ZrokAccessList_DeepCopyInto_def)

context deep_library
begin

lemmas objects_independent =
  share_object.DeepCopy_independent environment_object.DeepCopy_independent access_object.DeepCopy_independent

lemmas lists_independent =
  share_list.DeepCopy_independent environment_list.DeepCopy_independent access_list.DeepCopy_independent

end

section \<open>Libraries that keep the promise\<close>

text \<open>Copy functions that allocate every cell anew.\<close>

definition copy_bool :: "addr option \<Rightarrow> addr option mem" where
  "copy_bool = copy_new BoolVal as_bool ret"

definition copy_map :: "addr option \<Rightarrow> addr option mem" where
  "copy_map = copy_new StringMap as_map ret"

definition copy_owner :: "OwnerReference_mem \<Rightarrow> OwnerReference_mem mem" where
  "copy_owner x =
     do { c \<leftarrow> copy_bool (orController x); b \<leftarrow> copy_bool (orBlockOwnerDeletion x);
          ret (x\<lparr>orController := c, orBlockOwnerDeletion := b\<rparr>) }"

definition copy_meta :: "ObjectMeta_mem \<Rightarrow> ObjectMeta_mem mem" where
  "copy_meta x =
     do { t \<leftarrow> copy_int32 (mmDeletionTimestamp x); fin \<leftarrow> copy_strings (mmFinalizers x);
          ls \<leftarrow> copy_map (mmLabels x); as \<leftarrow> copy_map (mmAnnotations x);
          os \<leftarrow> copy_new OwnerArray as_owners (copy_elements copy_owner) (mmOwnerReferences x);
          ret (x\<lparr>mmDeletionTimestamp := t, mmFinalizers := fin, mmLabels := ls, mmAnnotations := as,
                mmOwnerReferences := os\<rparr>) }"

definition copy_quantity :: "Quantity_mem \<Rightarrow> Quantity_mem mem" where
  "copy_quantity x = do { d \<leftarrow> copy_int32 (qmDec x); ret (x\<lparr>qmDec := d\<rparr>) }"

definition copy_named_quantity :: "string \<times> Quantity_mem \<Rightarrow> (string \<times> Quantity_mem) mem" where
  "copy_named_quantity x = do { q \<leftarrow> copy_quantity (snd x); ret (fst x, q) }"

definition copy_quantities :: "addr option \<Rightarrow> addr option mem" where
  "copy_quantities = copy_new QuantityMap as_quantities (copy_elements copy_named_quantity)"

definition allocating_library :: library where
  "allocating_library =
     \<lparr>lib_meta = copy_meta,
      lib_list_meta = (\<lambda>x. do { n \<leftarrow> copy_int32 (lmRemainingItemCount x); ret (x\<lparr>lmRemainingItemCount := n\<rparr>) }),
      lib_condition = ret,
      lib_key_selector = (\<lambda>x. do { b \<leftarrow> copy_bool (kmOptional x); ret (x\<lparr>kmOptional := b\<rparr>) }),
      lib_resources = (\<lambda>x. do { r \<leftarrow> copy_quantities (rmRequests x); l \<leftarrow> copy_quantities (rmLimits x);
                               ret (x\<lparr>rmRequests := r, rmLimits := l\<rparr>) }),
      lib_quantity = copy_quantity\<rparr>"

lemma deep_copy_bool: "deep_copy (pointee as_bool (\<lambda>_ y. y)) cell_of copy_bool"
  unfolding copy_bool_def by (rule deep_copy_cell) simp

lemma deep_copy_string_map: "deep_copy map_at cell_of copy_map"
proof -
  have "map_at = (\<lambda>h p. case_option Map.empty (\<lambda>y. y) (pointee as_map (\<lambda>_ y. y) h p))"
    by (intro ext) (simp add: map_at_def pointee_def split: option.split)
  then show ?thesis unfolding copy_map_def
    using deep_copy_map [OF deep_copy_cell, of as_map StringMap "case_option Map.empty (\<lambda>y. y)"] by simp
qed

lemma deep_copy_owner: "deep_copy owner_value owner_reach copy_owner"
  by (rule deep_copy_field [OF deep_copy_pair [OF deep_copy_bool deep_copy_bool],
         where sel = "\<lambda>x. (orController x, orBlockOwnerDeletion x)"
         and put = "\<lambda>x (c, b). x\<lparr>orController := c, orBlockOwnerDeletion := b\<rparr>"
         and mk = "\<lambda>x (c, b). (orUID x, c, b)"])
    (auto simp: copy_owner_def copy_pair_def owner_value_def owner_reach_def)

lemma deep_copy_meta: "deep_copy meta_value meta_reach copy_meta"
  by (rule deep_copy_field [OF deep_copy_pair [OF deep_copy_int32 deep_copy_pair [OF deep_copy_strings
           deep_copy_pair [OF deep_copy_string_map deep_copy_pair [OF deep_copy_string_map
             deep_copy_slice [OF deep_copy_owner, of as_owners OwnerArray]]]]],
         where sel = "\<lambda>x. (mmDeletionTimestamp x, mmFinalizers x, mmLabels x, mmAnnotations x, mmOwnerReferences x)"
         and put = "\<lambda>x (t, fin, ls, as, os). x\<lparr>mmDeletionTimestamp := t, mmFinalizers := fin, mmLabels := ls,
                      mmAnnotations := as, mmOwnerReferences := os\<rparr>"
         and mk = "\<lambda>x (t, fin, ls, as, os).
            \<lparr>Name = mmName x, Namespace = mmNamespace x, UID = mmUID x, Generation = mmGeneration x,
             DeletionTimestamp = t, Finalizers = set fin, Labels = ls, Annotations = as,
             ControllerRef = controller_of os\<rparr>"])
    (auto simp: copy_meta_def copy_pair_def meta_value_def meta_reach_def)

lemma deep_copy_quantity: "deep_copy quantity_value quantity_reach copy_quantity"
  by (rule deep_copy_field [OF deep_copy_int32, where sel = qmDec and put = "\<lambda>x d. x\<lparr>qmDec := d\<rparr>"
         and mk = "\<lambda>x d. case d of None \<Rightarrow> qmInt x | Some n \<Rightarrow> n"])
    (auto simp: copy_quantity_def quantity_value_def quantity_reach_def cong: option.case_cong)

lemma deep_copy_quantities: "deep_copy quantities_value quantities_reach copy_quantities"
proof -
  have "deep_copy (\<lambda>h x. (fst x, quantity_value h (snd x))) (\<lambda>h x. quantity_reach h (snd x)) copy_named_quantity"
    by (rule deep_copy_field [OF deep_copy_quantity, where sel = snd and put = "\<lambda>x y. (fst x, y)"
          and mk = "\<lambda>x y. (fst x, y)"]) (auto simp: copy_named_quantity_def)
  from deep_copy_map [OF deep_copy_slice [OF this, of as_quantities QuantityMap], of "map_option map_of"]
  show ?thesis unfolding copy_quantities_def quantities_reach_def quantities_value_def [abs_def] by simp
qed

interpretation allocating: deep_library allocating_library
proof (rule deep_library.intro)
  show "deep_copy list_meta_value list_meta_reach (lib_list_meta allocating_library)"
    by (rule deep_copy_field [OF deep_copy_int32, where sel = lmRemainingItemCount
           and put = "\<lambda>x n. x\<lparr>lmRemainingItemCount := n\<rparr>" and mk = "\<lambda>x n. (lmResourceVersion x, n)"])
      (simp_all add: allocating_library_def list_meta_value_def list_meta_reach_def)
  show "deep_copy selector_value selector_reach (lib_key_selector allocating_library)"
    by (rule deep_copy_field [OF deep_copy_bool, where sel = kmOptional
           and put = "\<lambda>x b. x\<lparr>kmOptional := b\<rparr>" and mk = "\<lambda>x b. (\<lparr>skName = kmName x, skKey = kmKey x\<rparr>, b)"])
      (simp_all add: allocating_library_def selector_value_def selector_reach_def)
  show "deep_copy resources_value resources_reach (lib_resources allocating_library)"
    by (rule deep_copy_field [OF deep_copy_pair [OF deep_copy_quantities deep_copy_quantities],
           where sel = "\<lambda>x. (rmRequests x, rmLimits x)"
           and put = "\<lambda>x (r, l). x\<lparr>rmRequests := r, rmLimits := l\<rparr>"
           and mk = "\<lambda>x (r, l). \<lparr>Requests = r, Limits = l\<rparr>"])
      (auto simp: allocating_library_def copy_pair_def resources_value_def resources_reach_def)
qed (simp_all add: allocating_library_def deep_copy_plain deep_copy_meta deep_copy_quantity)

section \<open>Properties\<close>

text \<open>C40: Given libraries whose own copies are deep, a deep copy of a share, an environment or an access
  always succeeds and is independent of its original: it has the same value, and whatever is
  afterwards allocated and written through one of the two - a label or an annotation, a finalizer,
  an owner reference, a condition, a resource limit or any other cell - leaves the other as it was.
  This is what \<open>PatchStatus\<close> and \<open>patchShareAnnotation\<close> need: the object that is then changed in
  place shares no cell with the copy that the result is compared to.\<close>

theorem deep_copies_are_independent:
  assumes "deep_library L"
  shows "(\<forall>h s. share_reach h s \<subseteq> {..<length h} \<longrightarrow>
      (\<exists>s' h'. run_state (ZrokShare_DeepCopy L (Some s)) h = (Some s', h') \<and>
         independent_copy share_value share_reach h s h' s')) \<and>
   (\<forall>h e. env_reach h e \<subseteq> {..<length h} \<longrightarrow>
      (\<exists>e' h'. run_state (ZrokEnvironment_DeepCopy L (Some e)) h = (Some e', h') \<and>
         independent_copy env_value env_reach h e h' e')) \<and>
   (\<forall>h a. access_reach h a \<subseteq> {..<length h} \<longrightarrow>
      (\<exists>a' h'. run_state (ZrokAccess_DeepCopy L (Some a)) h = (Some a', h') \<and>
         independent_copy access_value access_reach h a h' a'))"
  unfolding DeepCopy_methods using deep_library.objects_independent [OF assms] by blast

definition copied_share :: ZrokShare_mem where
  \<comment> \<open>a share with annotations, an OAuth section and conditions, at the addresses 4, 2 and 3\<close>
  "copied_share =
     \<lparr>shareMeta = \<lparr>mmName = ''web'', mmNamespace = ''apps'', mmUID = ''u1'', mmGeneration = 1,
        mmDeletionTimestamp = None, mmFinalizers = None, mmLabels = None, mmAnnotations = Some 4,
        mmOwnerReferences = None\<rparr>,
      shareSpec = \<lparr>smEnvironmentRef = ''env'', smShareMode = ''public'', smBackendMode = ''proxy'',
        smUpstreamURL = ''http://web'', smNameSelection = None, smPrivateShareToken = [],
        smInsecure = False, smClosed = False, smAccessGrants = None, smBasicAuthSecretRef = Some 0,
        smOAuth = Some 2, smReclaimPolicy = ''Delete''\<rparr>,
      shareStatus = \<lparr>stmObservedGeneration = 1, stmAssignedURL = [], stmFrontendEndpoints = None,
        stmShareToken = [], stmReservation = [], stmConditions = Some 3\<rparr>\<rparr>"

definition copied_heap :: heap where
  "copied_heap =
     [StringVal ''auth'', StringArray [''example.com''],
      OAuthVal \<lparr>omProvider = ''google'', omEmailDomains = Some 1, omRefreshInterval = ''1h''\<rparr>,
      ConditionArray [\<lparr>cType = ''Ready'', cStatus = ''True'', cReason = ''Ready'', cMessage = [],
        cLastTransitionTime = 0, cObservedGeneration = 1\<rparr>],
      StringMap [''digest'' \<mapsto> ''d0'']]"

lemmas copy_defs = DeepCopy_def ZrokShare_DeepCopy_def ZrokShare_DeepCopyInto_def ZrokShareSpec_DeepCopyInto_def
  ZrokShareStatus_DeepCopyInto_def copy_name_selection_def copy_strings_def copy_string_def copy_int32_def
  copy_oauth_def copy_conditions_def copy_new_def OAuthSpec_DeepCopyInto_def allocating_library_def copy_meta_def
  copy_map_def

lemmas copied_defs = copied_share_def copied_heap_def share_value_def share_spec_value_def meta_value_def
  share_status_value_def oauth_value_def strings_at_def conditions_at_def map_at_def pointee_def
  ObjectMeta.defs ZrokShare.defs

text \<open>The original gets a new digest and loses its conditions and its email domains; the copy keeps all.\<close>

lemma deep_copies_are_independent_witness:
  "\<exists>s' h'. run_state (ZrokShare_DeepCopy allocating_library (Some copied_share)) copied_heap = (Some s', h') \<and>
     share_value (stores [(4, StringMap [''digest'' \<mapsto> ''d1'']), (3, ConditionArray []), (1, StringArray [])] h') s' =
       share_value copied_heap copied_share \<and>
     Annotations (share_value copied_heap copied_share) ''digest'' = Some ''d0'' \<and>
     Annotations (share_value
       (stores [(4, StringMap [''digest'' \<mapsto> ''d1'']), (3, ConditionArray []), (1, StringArray [])] h') copied_share)
       ''digest'' = Some ''d1''"
proof -
  let ?ws = "[(4, StringMap [''digest'' \<mapsto> ''d1'']), (3, ConditionArray []), (1, StringArray [])]"
  have reach: "share_reach copied_heap copied_share = {0, 1, 2, 3, 4}"
    by (auto simp: share_reach_def share_spec_reach_def share_status_reach_def meta_reach_def items_reach_def cell_of_def
        pointer_reach_def oauth_reach_def copied_share_def copied_heap_def)
  then have within: "share_reach copied_heap copied_share \<subseteq> {..<length copied_heap}"
    by (simp add: copied_heap_def)
  from deep_copies_are_independent [OF allocating.deep_library_axioms, THEN conjunct1, rule_format, OF within]
  obtain s' h' where run: "run_state (ZrokShare_DeepCopy allocating_library (Some copied_share)) copied_heap = (Some s', h')"
      and indep: "independent_copy share_value share_reach copied_heap copied_share h' s'" by blast
  have h': "h' = copied_heap @ [StringMap [''digest'' \<mapsto> ''d0''], StringVal ''auth'', StringArray [''example.com''],
      OAuthVal \<lparr>omProvider = ''google'', omEmailDomains = Some 7, omRefreshInterval = ''1h''\<rparr>,
      ConditionArray [\<lparr>cType = ''Ready'', cStatus = ''True'', cReason = ''Ready'', cMessage = [],
        cLastTransitionTime = 0, cObservedGeneration = 1\<rparr>]]"
    using run by (auto simp: copied_share_def copied_heap_def copy_defs)
  have "share_reach h' copied_share = {0, 1, 2, 3, 4}"
    using allocating.share_object.reach_append [OF within] reach by (simp add: h')
  then have "fst ` set ?ws \<subseteq> share_reach h' copied_share \<union> {length h'..}" by simp
  then have kept: "share_value (stores ?ws (h' @ [])) s' = share_value copied_heap copied_share"
    using indep unfolding independent_copy_def by blast
  moreover have "Annotations (share_value copied_heap copied_share) ''digest'' = Some ''d0''"
    by (simp add: copied_defs)
  moreover have "Annotations (share_value (stores ?ws h') copied_share) ''digest'' = Some ''d1''"
    unfolding h' by (simp add: copied_defs stores_def)
  ultimately show ?thesis using run by auto
qed

end
