(* ===== verification/Store.thy ===== *)
theory Store
  imports EnvLiveness
begin

text \<open>
  Programs run in a world that answers: \<open>wp\<close> is the weakest precondition of a program for the replies
  the world really gives, and \<open>current\<close> the version of an object that the API server has stored after a
  history. The progress of shares and accesses is stated with both.
\<close>

section \<open>Weakest preconditions\<close>

definition wp :: "('e, 'a) prog \<Rightarrow> ('a \<Rightarrow> 'e list \<Rightarrow> bool) \<Rightarrow> 'e list \<Rightarrow> bool" where
  "wp m Q h \<longleftrightarrow> (case run_state m h of (x, h') \<Rightarrow> Q x h')"

lemma wp_simps [simp]:
  shows wp_ret: "wp (ret x) Q h = Q x h"
    and wp_bind: "wp (m \<bind> f) R h = wp m (\<lambda>y. wp (f y) R) h"
    and wp_perform: "wp (perform reply ev) S h = S (reply h) (h @ [ev (reply h)])"
    and wp_emit: "wp (emit e) U h = U () (h @ [e])"
    and wp_consult: "wp (consult g) V h = V (g h) h"
  by (simp_all add: wp_def split: prod.split)

lemma wp_mono: "wp m P h \<Longrightarrow> (\<And>x h'. P x h' \<Longrightarrow> Q x h') \<Longrightarrow> wp m Q h"
  by (auto simp: wp_def split: prod.splits)

lemma wp_trace: "wp m Q [] \<longleftrightarrow> Q (result_of m) (trace_of m)"
  by (simp add: wp_def result_of_def trace_of_def split_beta)

primrec again :: "nat \<Rightarrow> ('e, 'a) prog \<Rightarrow> ('e, 'a) prog" where
  \<comment> \<open>once and \<open>n\<close> times more\<close>
  "again 0 m = m"
| "again (Suc n) m = do { _ \<leftarrow> m; again n m }"

lemma wp_again:
  \<comment> \<open>what every reconcile keeps, and what it then ends with\<close>
  assumes step: "\<And>h. I h \<Longrightarrow> wp m (\<lambda>x h'. I h' \<and> Q x h') h" and "I h"
  shows "wp (again n m) Q h"
  using assms(2)
proof (induction n arbitrary: h)
  case 0
  then show ?case by (auto intro: wp_mono [OF step])
next
  case (Suc n)
  have "wp m (\<lambda>_. wp (again n m) Q) h" by (rule wp_mono [OF step [OF Suc.prems]]) (auto intro: Suc.IH)
  then show ?case by simp
qed

section \<open>The stored version of an object\<close>

fun object_id :: "object \<Rightarrow> okind \<times> key" where
  "object_id (ShareObj x) = (KShare, object_key x)"
| "object_id (EnvObj x) = (KEnv, object_key x)"
| "object_id (AccessObj x) = (KAccess, object_key x)"
| "object_id (IngressObj x) = (KIngress, object_key x)"
| "object_id (SecretObj x) = (KSecret, object_key x)"
| "object_id (PVCObj x) = (KPVC, object_key x)"
| "object_id (ServiceObj x) = (KService, object_key x)"
| "object_id (DeploymentObj x) = (KDeployment, object_key x)"
| "object_id (NetworkPolicyObj x) = (KNetworkPolicy, object_key x)"
| "object_id (NamespaceObj x) = (KNamespace, object_key x)"

fun written :: "event \<Rightarrow> object option" where
  \<comment> \<open>the object the server stored, if it accepted a write\<close>
  "written (Create obj (Inr x)) = Some x"
| "written (Update obj (Inr x)) = Some x"
| "written (Patch before obj (Inr x)) = Some x"
| "written (StatusPatch before obj (Inr x)) = Some x"
| "written _ = None"

definition store_step :: "event \<Rightarrow> object \<Rightarrow> object" where
  "store_step e obj = (case written e of None \<Rightarrow> obj | Some x \<Rightarrow> if object_id x = object_id obj then x else obj)"

definition current :: "object \<Rightarrow> event list \<Rightarrow> object" where
  \<comment> \<open>what an object has become\<close>
  "current obj h = fold store_step h obj"

lemma current_simps [simp]:
  "current obj [] = obj"
  "current obj (h @ [e]) = store_step e (current obj h)"
  by (simp_all add: current_def)

lemma store_step_id [simp]: "object_id (store_step e obj) = object_id obj"
  by (simp add: store_step_def split: option.split)

lemma current_id: "object_id (current obj h) = object_id obj"
  by (induction h rule: rev_induct) auto

lemma store_step_None [simp]: "written e = None \<Longrightarrow> store_step e obj = obj"
  by (simp add: store_step_def)

lemma current_append: "current obj (h @ es) = fold store_step es (current obj h)"
  by (simp add: current_def)

lemma current_None: "written e = None \<Longrightarrow> current obj (h @ [e]) = current obj h"
  by simp

lemma store_step_Some: "written e = Some x \<Longrightarrow> object_id x = object_id obj \<Longrightarrow> store_step e obj = x"
  by (simp add: store_step_def)

text \<open>A client that answers reads of an object with its stored version and accepts all writes.\<close>

definition keeps_store :: "('o ObjectMeta_scheme \<Rightarrow> object) \<Rightarrow> 'o ObjectMeta_scheme client \<Rightarrow> 'o ObjectMeta_scheme \<Rightarrow> bool" where
  "keeps_store wrap c x0 \<longleftrightarrow>
     (\<forall>h x. current (wrap x0) h = wrap x \<longrightarrow> cGet c h (object_key x0) = Inr x)
     \<and> (\<forall>h b x. cUpdate c h x = Inr x \<and> cPatch c h b x = Inr x \<and> cStatusPatch c h b x = Inr x)"

definition stored :: "('o ObjectMeta_scheme \<Rightarrow> object) \<Rightarrow> 'o ObjectMeta_scheme \<Rightarrow> 'o ObjectMeta_scheme \<Rightarrow> event list \<Rightarrow> bool" where
  \<comment> \<open>the in-memory \<open>x\<close> is the stored version of \<open>x0\<close>\<close>
  "stored wrap x0 x h \<longleftrightarrow> current (wrap x0) h = wrap x"

lemma stored_start [simp]: "stored wrap x x []"
  by (simp add: stored_def)

lemma stored_calm: "stored wrap x0 x h \<Longrightarrow> written e = None \<Longrightarrow> stored wrap x0 x (h @ [e])"
  by (simp add: stored_def)

lemma stored_calms:
  "stored wrap x0 x h \<Longrightarrow> list_all (\<lambda>e. written e = None) es \<Longrightarrow> stored wrap x0 x (h @ es)"
proof (induction es rule: rev_induct)
  case (snoc e es)
  then show ?case using stored_calm [of wrap x0 x "h @ es" e] by simp
qed simp

lemma stored_write:
  "stored wrap x0 x h \<Longrightarrow> written e = Some (wrap y) \<Longrightarrow> object_id (wrap y) = object_id (wrap x0)
    \<Longrightarrow> stored wrap x0 y (h @ [e])"
  by (metis stored_def current_simps(2) current_id store_step_Some)

lemma store_get:
  assumes "keeps_store wrap c x0" and "stored wrap x0 x h"
  shows "run_state (k8s_get kd wrap c (object_key x0)) h = (Inr x, h @ [Get kd (object_key x0) (Inr (wrap x))])"
  using assms by (simp add: keeps_store_def stored_def k8s_get_def)

lemma store_write:
  assumes "keeps_store wrap c x0"
  shows "run_state (k8s_update wrap c x) h = ((None, x), h @ [Update (wrap x) (Inr (wrap x))])"
    and "run_state (k8s_patch wrap c b x) h = ((None, x), h @ [Patch (wrap b) (wrap x) (Inr (wrap x))])"
    and "run_state (k8s_status_patch wrap c b x) h = ((None, x), h @ [StatusPatch (wrap b) (wrap x) (Inr (wrap x))])"
  using assms by (simp_all add: keeps_store_def call_defs)

lemma wp_serves:
  assumes "serves c k y" and "stored wrap x0 x h" and "\<And>h'. stored wrap x0 x h' \<Longrightarrow> Q (Inr y) h'"
  shows "wp (k8s_get kd wrap' c k) Q h"
  using assms(3) [OF stored_calm [OF assms(2)]] unfolding wp_def run_get [OF assms(1)] by simp

lemma wp_stored_get:
  assumes "keeps_store wrap c x0" and "stored wrap x0 x h" and "\<And>h'. stored wrap x0 x h' \<Longrightarrow> Q (Inr x) h'"
  shows "wp (k8s_get kd wrap c (object_key x0)) Q h"
  using assms(3) [OF stored_calm [OF assms(2)]] unfolding wp_def store_get [OF assms(1,2)] by simp

lemma wp_stored_update:
  assumes "keeps_store wrap c x0" and "stored wrap x0 x h" and "object_id (wrap y) = object_id (wrap x0)"
    and "\<And>h'. stored wrap x0 y h' \<Longrightarrow> Q (None, y) h'"
  shows "wp (k8s_update wrap c y) Q h"
  using assms(4) [OF stored_write [OF assms(2) _ assms(3)]]
  unfolding wp_def store_write(1) [OF assms(1)] by simp

lemma wp_status_patch:
  assumes keeps: "keeps_store wrap c x0" and st: "stored wrap x0 x h" and key: "object_key x' = object_key x0"
    and total: "total_mutation m"
    and ids: "\<And>t. object_id (wrap (snd (m t x))) = object_id (wrap x0)"
    and Q: "\<And>t h'. stored wrap x0 (snd (m t x)) h' \<Longrightarrow> (\<exists>es. h' = h @ es) \<Longrightarrow>
      StatusPatch (wrap x) (wrap (snd (m t x))) (Inr (wrap (snd (m t x)))) \<in> set h' \<Longrightarrow> Q (None, snd (m t x)) h'"
  shows "wp (PatchStatus A kd wrap c x' m) Q h"
proof -
  let ?g = "Get kd (object_key x0) (Inr (wrap x))"
  let ?t = "now A (h @ [?g])"
  let ?p = "StatusPatch (wrap x) (wrap (snd (m ?t x))) (Inr (wrap (snd (m ?t x))))"
  obtain y where y: "m ?t x = (None, y)" using total by (metis prod.collapse total_mutation_def)
  have att: "run_state (patch_attempt A kd wrap c (object_key x0) m x') h = ((None, snd (m ?t x)), h @ [?g, ?p])"
    by (simp add: patch_attempt_def store_get [OF keeps st] store_write [OF keeps] y)
  have "run_state (PatchStatus A kd wrap c x' m) h = ((None, snd (m ?t x)), h @ [?g, ?p])"
    using att by (cases "retrySteps A") (auto simp: PatchStatus_def key)
  moreover have "stored wrap x0 (snd (m ?t x)) ((h @ [?g]) @ [?p])"
    using ids by (intro stored_write [OF stored_calm [OF st]]) simp_all
  ultimately show ?thesis
    using Q [of ?t "h @ [?g, ?p]"] by (simp add: wp_def)
qed

text \<open>A store over a list of objects, for the witnesses.\<close>

definition store_client :: "('o ObjectMeta_scheme \<Rightarrow> object) \<Rightarrow> (object \<Rightarrow> 'o ObjectMeta_scheme option)
    \<Rightarrow> 'o ObjectMeta_scheme list \<Rightarrow> 'o ObjectMeta_scheme client" where
  "store_client wrap unwrap objs =
     (lab_client objs)\<lparr>cGet := (\<lambda>h k. case List.find (\<lambda>x. Namespace x = fst k \<and> Name x = snd k) objs of
        Some x \<Rightarrow> (case unwrap (current (wrap x) h) of Some y \<Rightarrow> Inr y | None \<Rightarrow> Inl lab_missing)
      | None \<Rightarrow> Inl lab_missing)\<rparr>"

lemma store_client_keeps:
  assumes "\<And>y. unwrap (wrap y) = Some y" and "List.find (\<lambda>x. Namespace x = Namespace x0 \<and> Name x = Name x0) objs = Some x0"
  shows "keeps_store wrap (store_client wrap unwrap objs) x0"
  using assms by (simp add: keeps_store_def store_client_def lab_client_def object_key_def)

end
