(* ===== verification/ShareProgress.thy ===== *)
theory ShareProgress
  imports Store ShareLiveness
begin

text \<open>
  Progress of the share reconciler in a world that cooperates: one reconcile makes a share ready,
  whether it must be created, adopted, released and recreated, or renamed.
\<close>

section \<open>The world\<close>

definition basic_auth_there :: "api \<Rightarrow> ZrokShare \<Rightarrow> string list \<Rightarrow> bool" where
  \<comment> \<open>the basic-auth secret can be read, if the share refers to one\<close>
  "basic_auth_there A share basic \<longleftrightarrow>
     (case shBasicAuthSecretRef (ShareSpec share) of
        None \<Rightarrow> basic = []
      | Some ref \<Rightarrow>
          if ref = [] then basic = []
          else \<exists>secret. serves (apiSecrets A) (Namespace share, ref) secret
                 \<and> lookup_str (Data secret) ''username'' \<noteq> [] \<and> lookup_str (Data secret) ''password'' \<noteq> []
                 \<and> basic = [lookup_str (Data secret) ''username'' @ '':'' @ lookup_str (Data secret) ''password''])"

definition zrok_cooperates :: "api \<Rightarrow> ZrokShare \<Rightarrow> ZrokEnvironment \<Rightarrow> bool" where
  \<comment> \<open>names are granted and given back, shares taken down and started; nobody holds the name for
     another upstream; the agent may list anything, or nothing\<close>
  "zrok_cooperates A share env \<longleftrightarrow>
     (\<forall>h ep tok ns n. restCreateShareName A h ep tok ns n = None \<and> restUpdateShareName A h ep tok ns n True = None
        \<and> restDeleteShareName A h ep tok ns n = None)
     \<and> (\<forall>h ep tok zid shr. restUnshare A h ep tok zid shr = None)
     \<and> (\<forall>h ep tok zid. \<exists>remotes. restListShares A h ep tok zid = Inr remotes
          \<and> (\<forall>agents holder. remoteByName \<lparr>invRemote = remotes, invAgent = agents\<rparr> (reservedFrontendName share) = Some holder
               \<longrightarrow> TargetsEqual (rsTarget holder) (shUpstreamURL (ShareSpec share))))
     \<and> (\<forall>h req. \<exists>resp. agentSharePublic A h (AgentBaseURL env) req = Inr resp)
     \<and> (\<forall>h req. \<exists>tok. agentSharePrivate A h (AgentBaseURL env) req = Inr tok)"

definition share_wanted :: "api \<Rightarrow> bool \<Rightarrow> ZrokShare \<Rightarrow> ZrokEnvironment \<Rightarrow> Secret \<Rightarrow> string list \<Rightarrow> bool" where
  "share_wanted A restrictUpstream share env secret basic \<longleftrightarrow>
     keeps_store ShareObj (apiShares A) share \<and> zrok_cooperates A share env
     \<and> serves (apiEnvs A) (Namespace share, shEnvironmentRef (ShareSpec share)) env
     \<and> IsTrue (enConditions (EnvStatus env)) ConditionReady \<and> enEnvZID (EnvStatus env) \<noteq> []
     \<and> serves (apiSecrets A) (Namespace env, skName (enEnableTokenSecretRef (EnvSpec env))) secret
     \<and> token_there env secret \<and> basic_auth_there A share basic
     \<and> (\<forall>h. \<exists>items. apiListShares A h AllNamespaces = Inr items \<and> otherShareWithFrontendName share items = None)
     \<and> DeletionTimestamp share = None \<and> share_spec_error restrictUpstream share = None"

definition same_share :: "ZrokShare \<Rightarrow> ZrokShare \<Rightarrow> bool" where
  \<comment> \<open>\<open>a\<close> is \<open>b\<close> up to status, labels and annotations, and has the finalizer\<close>
  "same_share a b \<longleftrightarrow>
     object_key a = object_key b \<and> Generation a = Generation b \<and> ShareSpec a = ShareSpec b
     \<and> DeletionTimestamp a = DeletionTimestamp b \<and> ContainsFinalizer a ShareFinalizer"

definition share_up :: "ZrokShare \<Rightarrow> string list \<Rightarrow> outcome \<Rightarrow> event list \<Rightarrow> bool" where
  \<comment> \<open>the stored share is ready for its current generation, and carries the digest of its spec\<close>
  "share_up share basic out h \<longleftrightarrow>
     out = (requeue_after 120, None)
     \<and> (\<exists>s. stored ShareObj share s h \<and> share_ready s \<and> same_share s share
           \<and> shObservedGeneration (ShareStatus s) = Generation share
           \<and> lookup_str (Annotations s) annotationAppliedDigest = shareApplyDigest share basic)"

lemma same_share_updates [simp]:
  "same_share (a\<lparr>Annotations := x\<rparr>) b = same_share a b"
  "same_share (a\<lparr>ShareStatus := st\<rparr>) b = same_share a b"
  by (simp_all add: same_share_def object_key_def ContainsFinalizer_def)

lemma same_share_id: "same_share a b \<Longrightarrow> object_id (ShareObj a) = object_id (ShareObj b)"
  by (simp add: same_share_def)

lemma same_share_Generation: "same_share a b \<Longrightarrow> Generation a = Generation b"
  by (simp add: same_share_def)

lemma share_mutation_same:
  "same_share (snd (mark_ready_mutation mode tok eps url t a)) b = same_share a b"
  "same_share (snd (clear_binding_mutation t a)) b = same_share a b"
  by (simp_all add: mutation_defs Let_def share_condition_def share_set_status_def same_share_def object_key_def
      ContainsFinalizer_def)

text \<open>What a reconcile computes of a share, it computes from the fields that stay.\<close>

lemma same_share_fields:
  assumes "same_share a b"
  shows "Name a = Name b" "Namespace a = Namespace b" "ShareSpec a = ShareSpec b"
    "DeletionTimestamp a = DeletionTimestamp b" "object_key a = object_key b"
  using assms by (simp_all add: same_share_def object_key_def)

lemma same_share_computes:
  assumes "same_share a b"
  shows "reservedFrontendName a = reservedFrontendName b" "nameNamespaceToken a = nameNamespaceToken b"
    "desiredShareMode a = desiredShareMode b" "desiredBackendMode a = desiredBackendMode b"
    "ShareLabels a = ShareLabels b" "shareApplyDigest a basic = shareApplyDigest b basic"
    "share_spec_error restrict a = share_spec_error restrict b"
    "otherShareWithFrontendName a items = otherShareWithFrontendName b items"
    "getEnvironment A a = getEnvironment A b" "readBasicAuth A a = readBasicAuth A b"
  unfolding reservedFrontendName_def nameNamespaceToken_def desiredShareMode_def desiredBackendMode_def
    ShareLabels_def shareApplyDigest_def digestInput_def share_spec_error_def otherShareWithFrontendName_def
    getEnvironment_def readBasicAuth_def same_share_fields [OF assms] by (rule refl)+

lemma cooperates:
  assumes "zrok_cooperates A share env"
  shows "\<exists>remotes. restListShares A h ep tok zid = Inr remotes
      \<and> (\<forall>agents holder. remoteByName \<lparr>invRemote = remotes, invAgent = agents\<rparr> (reservedFrontendName share) = Some holder
           \<longrightarrow> TargetsEqual (rsTarget holder) (shUpstreamURL (ShareSpec share)))"
    and "\<exists>resp. agentSharePublic A h (AgentBaseURL env) preq = Inr resp"
    and "\<exists>t. agentSharePrivate A h (AgentBaseURL env) rreq = Inr t"
  using assms by (simp_all add: zrok_cooperates_def)

section \<open>Steps\<close>

lemma wp_annotation:
  assumes keeps: "keeps_store ShareObj (apiShares A) share" and st: "stored ShareObj share s h"
    and same: "same_share s share"
    and Q: "\<And>s' h'. stored ShareObj share s' h' \<Longrightarrow> same_share s' share \<Longrightarrow> ShareStatus s' = ShareStatus s
      \<Longrightarrow> lookup_str (Annotations s') k = v \<Longrightarrow> Q (None, s') h'"
  shows "wp (patchShareAnnotation A s k v) Q h"
proof -
  have patched: "wp (k8s_patch ShareObj (apiShares A) s (s\<lparr>Annotations := m\<rparr>)) Q h"
    if "lookup_str m k = v" for m
  proof -
    let ?s = "s\<lparr>Annotations := m\<rparr>"
    have "stored ShareObj share ?s (h @ [Patch (ShareObj s) (ShareObj ?s) (Inr (ShareObj ?s))])"
      using same by (intro stored_write [OF st] same_share_id) simp_all
    then show ?thesis
      unfolding wp_def store_write(2) [OF keeps] using Q [of ?s] same that by simp
  qed
  show ?thesis
    unfolding patchShareAnnotation_def using Q [OF st same] patched
    by (auto simp: lookup_str_def)
qed

lemma wp_flush:
  assumes keeps: "keeps_store ShareObj (apiShares A) share" and coop: "zrok_cooperates A share env"
    and st: "stored ShareObj share s h" and same: "same_share s share"
    and Q: "\<And>s' h'. stored ShareObj share s' h' \<Longrightarrow> same_share s' share \<Longrightarrow> ShareStatus s' = ShareStatus s
      \<Longrightarrow> Q ((no_requeue, None), s') h'"
  shows "wp (flushReclaimName A s ep tok) Q h"
proof -
  have forget: "wp (patchShareAnnotation A s annotationReclaimName [])
      (\<lambda>y. wp (case y of (err, s') \<Rightarrow> ret ((no_requeue, err), s')) Q) h'" if "stored ShareObj share s h'" for h'
    by (rule wp_annotation [OF keeps that same]) (simp add: Q)
  have del: "restDeleteShareName A g ep tok ns n = None" for g ns n
    using coop by (simp add: zrok_cooperates_def)
  have st': "stored ShareObj share s (h @ [RestDeleteShareName ep tok ns n None])" for ns n
    by (rule stored_calm [OF st]) simp
  show ?thesis
    unfolding flushReclaimName_def Let_def REST_DeleteShareName_def
    using Q [OF st same] forget [OF st] forget [OF st'] by (simp add: del)
qed

lemma wp_reclaim:
  assumes keeps: "keeps_store ShareObj (apiShares A) share" and coop: "zrok_cooperates A share env"
    and st: "stored ShareObj share s h" and same: "same_share s share"
    and Q: "\<And>s' h'. stored ShareObj share s' h' \<Longrightarrow> same_share s' share \<Longrightarrow> Q ((no_requeue, None), s') h'"
  shows "wp (reclaimPreviousName A s ep tok oldName prev) Q h"
proof -
  have kept: "stored ShareObj share s (h @ [Recorded kd k a b c d])" for kd k a b c d
    by (rule stored_calm [OF st]) simp
  have rest: "wp (flushReclaimName A s' ep tok) Q (h' @ [Recorded kd k a b c d])"
    if "stored ShareObj share s' h'" "same_share s' share" for s' h' kd k a b c d
    using that by (intro wp_flush [OF keeps coop stored_calm] Q) simp_all
  have "wp (patchShareAnnotation A s annotationReclaimName oldName)
      (\<lambda>y. wp (case y of (err, share) \<Rightarrow>
          case err of Some e \<Rightarrow> ret ((no_requeue, Some e), share)
          | None \<Rightarrow> do { share_record share EventTypeNormal ''ShareRenamed'' ''Ready''
                           (''replacing reserved name '' @ fmt_q oldName @ '' '' @ arrow @ '' ''
                            @ fmt_q (reservedFrontendName s));
                         flushReclaimName A share ep tok }) Q) h"
    by (rule wp_annotation [OF keeps st same]) (simp add: share_record_def rest)
  then show ?thesis
    unfolding reclaimPreviousName_def Let_def
    using Q [OF st same] Q [OF kept same] by (simp add: share_record_def)
qed

lemma wp_clear:
  assumes keeps: "keeps_store ShareObj (apiShares A) share"
    and st: "stored ShareObj share s h" and same: "same_share s share"
    and Q: "\<And>s' h'. stored ShareObj share s' h' \<Longrightarrow> same_share s' share \<Longrightarrow> Q (None, s') h'"
  shows "wp (clearShareBinding A s) Q h"
proof (cases "shShareToken (ShareStatus s) = [] \<and> shAssignedURL (ShareStatus s) = []")
  case True
  then show ?thesis using Q [OF st same] by (simp add: clearShareBinding_def)
next
  case False
  have "wp (PatchShareStatus A s clear_binding_mutation) Q h"
  proof (rule wp_status_patch [OF keeps st])
    show "object_key s = object_key share" using same by (simp add: same_share_def)
    show "object_id (ShareObj (snd (clear_binding_mutation t s))) = object_id (ShareObj share)" for t
      using same by (intro same_share_id) (simp add: share_mutation_same)
  qed (use Q same in \<open>simp_all add: share_mutation_same\<close>)
  then show ?thesis using False by (auto simp: clearShareBinding_def)
qed

lemma wp_release:
  assumes coop: "zrok_cooperates A share env" and st: "stored ShareObj share s h"
    and Q: "\<And>h'. stored ShareObj share s h' \<Longrightarrow> Q None h'"
  shows "wp (releaseOurs A env ep tok url shr) Q h"
proof -
  have un: "restUnshare A g ep tok zid shr = None" for g zid using coop by (simp add: zrok_cooperates_def)
  have st1: "stored ShareObj share s (h @ [AgentReleaseShare url shr r])" for r
    by (rule stored_calm [OF st]) simp
  have st2: "stored ShareObj share s ((h @ [AgentReleaseShare url shr r]) @ [RestUnshare ep tok zid shr None])" for r zid
    by (rule stored_calm [OF st1]) simp
  show ?thesis
    unfolding releaseOurs_def Agent_ReleaseShare_def REST_Unshare_def
    using Q [OF st] Q [OF st1] Q [OF st2] by (simp add: un)
qed

lemma share_up_now:
  assumes "stored ShareObj share s h" and "same_share s share" and "share_ready s"
    and "shObservedGeneration (ShareStatus s) = Generation share"
    and "lookup_str (Annotations s) annotationAppliedDigest = shareApplyDigest share basic"
  shows "share_up share basic (requeue_after 120, None) h"
    and "written e = None \<Longrightarrow> share_up share basic (requeue_after 120, None) (h @ [e])"
  using assms stored_calm [OF assms(1)] unfolding share_up_def same_share_def by blast+

lemma mark_ready_observed:
  "shObservedGeneration (ShareStatus (snd (mark_ready_mutation mode tok eps url t s))) = Generation s"
  by (simp add: mark_ready_mutation_def Let_def share_condition_def share_set_status_def)

lemma wp_mark:
  assumes keeps: "keeps_store ShareObj (apiShares A) share"
    and st: "stored ShareObj share s h" and same: "same_share s share"
  shows "wp (markShareReady A s tok eps (shareApplyDigest share basic)) (share_up share basic) h"
  unfolding markShareReady_def Let_def wp_bind
proof (rule wp_status_patch [OF keeps st], goal_cases)
  case 1
  show ?case using same by (simp add: same_share_def)
next
  case 2
  show ?case by (rule total_mutations)
next
  case (3 t)
  show ?case using same by (intro same_share_id) (simp add: share_mutation_same)
next
  case (4 t h')
  let ?s = "\<lambda>url. snd (mark_ready_mutation (desiredShareMode s) tok eps url t s)"
  have facts: "same_share (?s url) share" "share_ready (?s url)"
    "shObservedGeneration (ShareStatus (?s url)) = Generation share" for url
    using same by (simp_all add: share_mutation_same mark_ready_facts mark_ready_observed same_share_Generation)
  have st': "stored ShareObj share x h' \<Longrightarrow> stored ShareObj share x (h' @ [SetShareReady ns n True])" for x ns n
    by (rule stored_calm) simp_all
  show ?case
    unfolding wp_simps case_prod_conv option.case
  proof (rule wp_annotation [OF keeps st' [OF 4(1)] facts(1)], goal_cases)
    case (1 s' h'')
    then have "share_ready s'" "shObservedGeneration (ShareStatus s') = Generation share"
      using facts(2,3) by (simp_all add: share_ready_def)
    note up = share_up_now [OF 1(1,2) this 1(4)]
    show ?case by (simp add: share_record_def up)
  qed
qed

lemma wp_create:
  assumes keeps: "keeps_store ShareObj (apiShares A) share" and coop: "zrok_cooperates A share env"
    and st: "stored ShareObj share s h" and same: "same_share s share"
    and v: "vBaseURL v = AgentBaseURL env" "vDigest v = shareApplyDigest share basic"
  shows "wp (Reconcile_create A v s) (share_up share basic) h"
proof -
  obtain tok where tok: "agentSharePrivate A h (AgentBaseURL env) (private_request v s) = Inr tok"
    using cooperates(3) [OF coop] by blast
  obtain resp where resp: "agentSharePublic A h (AgentBaseURL env) (public_request v s) = Inr resp"
    using cooperates(2) [OF coop] by blast
  have mark: "wp (markShareReady A s t eps (shareApplyDigest share basic)) (share_up share basic) (h @ [e])"
    if "written e = None" for t eps e
    using that by (intro wp_mark [OF keeps stored_calm [OF st] same])
  show ?thesis
    unfolding Reconcile_create_def Agent_SharePrivate_def Agent_SharePublic_def v
    by (simp add: tok resp mark)
qed

lemma wp_heal:
  assumes keeps: "keeps_store ShareObj (apiShares A) share" and coop: "zrok_cooperates A share env"
    and st: "stored ShareObj share s h" and same: "same_share s share"
    and v: "vEnv v = env" "vBaseURL v = AgentBaseURL env" "vDigest v = shareApplyDigest share basic"
  shows "wp (Reconcile_heal A v cls s) (share_up share basic) h"
proof (cases "heal_token s cls (vDesired v)")
  case None
  then show ?thesis using wp_create [OF keeps coop st same v(2,3)] by (simp add: Reconcile_heal_def Let_def)
next
  case (Some tok)
  show ?thesis
    unfolding Reconcile_heal_def releaseAndClear_def Let_def Some option.case wp_bind
  proof (rule wp_release [OF _ st], goal_cases)
    case 1
    show ?case using coop v(1) by simp
  next
    case (2 h1)
    show ?case
      unfolding option.case
    proof (rule wp_clear [OF keeps 2 same], goal_cases)
      case (1 s2 h2)
      show ?case
        unfolding case_prod_conv option.case wp_bind
        by (rule wp_reclaim [OF keeps coop 1])
          (simp add: Result_IsZero_def wp_create [OF keeps coop _ _ v(2,3)])
    qed
  qed
qed

lemma wp_reserve:
  assumes coop: "zrok_cooperates A share env" and st: "stored ShareObj share s h"
    and Q: "\<And>h'. stored ShareObj share s h' \<Longrightarrow> Q (None, s) h'"
  shows "wp (ensureReservedName A s ep tok) Q h"
proof -
  have "stored ShareObj share s (h @ [RestCreateShareName a b c d None, RestUpdateShareName a b c d True None])"
    for a b c d
    by (intro stored_calms [OF st]) simp
  then show ?thesis
    using coop Q [OF st] Q
    unfolding ensureReservedName_def Let_def REST_CreateShareName_def REST_UpdateShareName_def zrok_cooperates_def
    by simp
qed

lemma wp_name:
  assumes keeps: "keeps_store ShareObj (apiShares A) share" and coop: "zrok_cooperates A share env"
    and st: "stored ShareObj share s h" and same: "same_share s share"
    and v: "vEnv v = env" "vBaseURL v = AgentBaseURL env" "vDigest v = shareApplyDigest share basic"
  shows "wp (Reconcile_name A v cls s) (share_up share basic) h"
  unfolding Reconcile_name_def wp_bind
proof (rule wp_reserve [OF coop st], goal_cases)
  case (1 h1)
  show ?case
    unfolding case_prod_conv option.case wp_bind
  proof (rule wp_flush [OF keeps coop 1 same], goal_cases)
    case (1 s2 h2)
    show ?case
      using wp_mark [OF keeps 1(1,2)] wp_heal [OF keeps coop 1(1,2) v]
      by (simp add: Result_IsZero_def v(3) split: option.split)
  qed
qed

lemma not_foreign:
  assumes "same_share s share"
    and "\<And>holder. remoteByName iv (reservedFrontendName share) = Some holder \<Longrightarrow> TargetsEqual (rsTarget holder) up"
  shows "\<not> foreignName (classifyShare s up iv)"
  using assms(2) same_share_computes(1) [OF assms(1)]
  by (auto simp: classifyShare_def Let_def split: option.split)

lemma wp_inventory:
  assumes keeps: "keeps_store ShareObj (apiShares A) share" and coop: "zrok_cooperates A share env"
    and zid: "enEnvZID (EnvStatus env) \<noteq> []" and st: "stored ShareObj share s h" and same: "same_share s share"
    and v: "vEnv v = env" "vBaseURL v = AgentBaseURL env" "vDigest v = shareApplyDigest share basic"
      "vDesired v = shUpstreamURL (ShareSpec share)"
  shows "wp (Reconcile_inventory A v s) (share_up share basic) h"
proof -
  obtain remotes where r: "restListShares A h (vApiEndpoint v) (vToken v) (enEnvZID (EnvStatus env)) = Inr remotes"
      "\<And>agents holder. remoteByName \<lparr>invRemote = remotes, invAgent = agents\<rparr> (reservedFrontendName share) = Some holder
         \<Longrightarrow> TargetsEqual (rsTarget holder) (shUpstreamURL (ShareSpec share))"
    using cooperates(1) [OF coop] by blast
  have "stored ShareObj share s (h @ [RestListShares a b c x, AgentStatus d y])" for a b c d x y
    by (intro stored_calms [OF st]) simp
  note name = wp_name [OF keeps coop this same v(1-3)]
  show ?thesis
    unfolding Reconcile_inventory_def inventory_of_def loadInventory_def v(1,2) REST_ListShares_def Agent_Status_def
    using zid name not_foreign [OF same r(2)] by (simp add: r(1) v(4) Let_def)
qed

lemma wp_token:
  assumes "token_there env secret" and st: "stored ShareObj share s h"
    and srv: "serves (apiSecrets A) (Namespace env, skName (enEnableTokenSecretRef (EnvSpec env))) secret"
    and Q: "\<And>tok h'. stored ShareObj share s h' \<Longrightarrow> Q (Inr tok) h'"
  shows "wp (share_readEnableToken A env) Q h"
proof -
  let ?ref = "enEnableTokenSecretRef (EnvSpec env)"
  let ?k = "if skKey ?ref = [] then DefaultEnableTokenKey else skKey ?ref"
  obtain raw where raw: "Data secret ?k = Some raw" "raw \<noteq> []"
    using assms(1) by (auto simp: token_there_def lookup_str_def split: option.splits)
  show ?thesis
    unfolding share_readEnableToken_def Let_def wp_bind
    by (rule wp_serves [OF srv st]) (use raw Q in auto)
qed

lemma wp_basic_auth:
  assumes basic: "basic_auth_there A share basic" and st: "stored ShareObj share s h"
    and Q: "\<And>h'. stored ShareObj share s h' \<Longrightarrow> Q (Inr basic) h'"
  shows "wp (readBasicAuth A share) Q h"
proof (cases "shBasicAuthSecretRef (ShareSpec share)")
  case None
  then show ?thesis using basic Q [OF st] by (simp add: readBasicAuth_def basic_auth_there_def)
next
  case (Some ref)
  show ?thesis
  proof (cases "ref = []")
    case True
    then show ?thesis using Some basic Q [OF st] by (simp add: readBasicAuth_def basic_auth_there_def)
  next
    case False
    then obtain secret where s: "serves (apiSecrets A) (Namespace share, ref) secret"
        "lookup_str (Data secret) ''username'' \<noteq> []" "lookup_str (Data secret) ''password'' \<noteq> []"
        "basic = [lookup_str (Data secret) ''username'' @ '':'' @ lookup_str (Data secret) ''password'']"
      using basic Some by (auto simp: basic_auth_there_def)
    have "wp (getSecret A (Namespace share, ref)) (\<lambda>y. wp (case y of Inl e \<Rightarrow> ret (Inl e)
        | Inr secret \<Rightarrow> let user = lookup_str (Data secret) ''username''; pass = lookup_str (Data secret) ''password'' in
            if user = [] \<or> pass = []
            then ret (Inl (errorf ''basic auth secret must contain username and password keys''))
            else ret (Inr [user @ '':'' @ pass])) Q) h"
      by (rule wp_serves [OF s(1) st]) (use s Q in \<open>simp add: Let_def\<close>)
    then show ?thesis using Some False by (simp add: readBasicAuth_def)
  qed
qed

text \<open>The labels and the finalizer are written first; without the finalizer the reconcile ends there.\<close>

lemma merge_labels_unchanged:
  assumes "\<not> labels_changed (Labels s) (ShareLabels s)"
  shows "merge_labels (Labels s) (ShareLabels s) = Labels s"
proof
  fix k
  have "lookup_str (Labels s) k = v" if "ShareLabels s k = Some v" for v
  proof -
    have "k \<in> set share_label_keys"
      using that by (auto simp: ShareLabels_def share_label_keys_def Let_def split: if_splits option.splits)
    then show ?thesis using assms that by (auto simp: labels_changed_def list_ex_iff lookup_str_def)
  qed
  then show "merge_labels (Labels s) (ShareLabels s) k = Labels s k"
    by (auto simp: merge_labels_def split: option.split)
qed

lemma wp_labels:
  assumes keeps: "keeps_store ShareObj (apiShares A) share" and st: "stored ShareObj share s h"
    and same: "object_key s = object_key share" "Generation s = Generation share" "ShareSpec s = ShareSpec share"
      "DeletionTimestamp s = DeletionTimestamp share"
    and Q: "\<And>s' h'. stored ShareObj share s' h' \<Longrightarrow> same_share s' share
      \<Longrightarrow> Q (\<not> ContainsFinalizer s ShareFinalizer, None, s') h'"
  shows "wp (ensureFinalizerAndLabels A s) Q h"
proof -
  let ?s1 = "if ContainsFinalizer s ShareFinalizer then s else AddFinalizer s ShareFinalizer"
  have s1: "same_share (?s1\<lparr>Labels := ls\<rparr>) share" for ls
    using same by (simp add: same_share_def AddFinalizer_def ContainsFinalizer_def object_key_def)
  have upd: "wp (k8s_update ShareObj (apiShares A) (?s1\<lparr>Labels := ls\<rparr>))
      (\<lambda>y. wp (ret (\<not> ContainsFinalizer s ShareFinalizer, y)) Q) h" for ls
    by (rule wp_stored_update [OF keeps st same_share_id [OF s1]]) (use Q s1 in simp)
  show ?thesis
  proof (cases "ContainsFinalizer s ShareFinalizer")
    case True
    then have "same_share s share" using same by (simp add: same_share_def)
    then have "Q (False, None, s) h" using Q [OF st] True by simp
    then show ?thesis
      using upd True merge_labels_unchanged [of s] unfolding ensureFinalizerAndLabels_def Let_def by auto
  next
    case False
    then show ?thesis
      using upd unfolding ensureFinalizerAndLabels_def Let_def by simp
  qed
qed

lemma wp_claim:
  assumes lists: "\<forall>h. \<exists>items. apiListShares A h AllNamespaces = Inr items \<and> otherShareWithFrontendName share items = None"
    and st: "stored ShareObj share s h" and same: "same_share s share"
    and Q: "\<And>h'. stored ShareObj share s h' \<Longrightarrow> Q (Inr None) h'"
  shows "wp (otherShareClaimingName A s) Q h"
proof -
  obtain items where "apiListShares A h AllNamespaces = Inr items" "otherShareWithFrontendName s items = None"
    using lists same_share_computes(8) [OF same] by metis
  then show ?thesis
    using Q [OF st] Q [OF stored_calm [OF st]] by (simp add: otherShareClaimingName_def listZrokShares_def)
qed

lemma wp_inputs:
  assumes w: "share_wanted A restrictUpstream share env secret basic"
    and st: "stored ShareObj share s h" and same: "same_share s share"
  shows "wp (Reconcile_inputs A mode env s) (share_up share basic) h"
proof -
  note facts = w [unfolded share_wanted_def]
  have keeps: "keeps_store ShareObj (apiShares A) share" and coop: "zrok_cooperates A share env"
    and zid: "enEnvZID (EnvStatus env) \<noteq> []" and tok: "token_there env secret"
    and srv: "serves (apiSecrets A) (Namespace env, skName (enEnableTokenSecretRef (EnvSpec env))) secret"
    and basic: "basic_auth_there A share basic"
    and lists: "\<forall>h. \<exists>items. apiListShares A h AllNamespaces = Inr items \<and> otherShareWithFrontendName share items = None"
    using facts by blast+
  note eqs = same_share_computes [OF same] same_share_fields [OF same]
  show ?thesis
    unfolding Reconcile_inputs_def wp_bind eqs(10)
    by (rule wp_token [OF tok st srv], simp only: sum.case wp_bind,
        rule wp_basic_auth [OF basic], assumption, simp only: sum.case wp_bind,
        rule wp_claim [OF lists _ same], assumption,
        simp add: wp_inventory [OF keeps coop zid _ same] eqs)
qed

lemma wp_live:
  assumes w: "share_wanted A restrictUpstream share env secret basic"
    and st: "stored ShareObj share s h"
    and same: "object_key s = object_key share" "Generation s = Generation share" "ShareSpec s = ShareSpec share"
      "DeletionTimestamp s = DeletionTimestamp share"
  shows "wp (Reconcile_live A restrictUpstream s) (\<lambda>out h'.
      (ContainsFinalizer s ShareFinalizer \<longrightarrow> share_up share basic out h')
      \<and> (\<exists>s'. stored ShareObj share s' h' \<and> same_share s' share)) h"
proof -
  note facts = w [unfolded share_wanted_def]
  have keeps: "keeps_store ShareObj (apiShares A) share" using facts by blast
  have srv: "serves (apiEnvs A) (Namespace share, shEnvironmentRef (ShareSpec share)) env" using facts by blast
  have env: "wp (Reconcile_env A mode s1) (share_up share basic) h1"
    if "stored ShareObj share s1 h1" "same_share s1 share" for mode s1 h1
    unfolding Reconcile_env_def same_share_computes(9) [OF that(2)] wp_bind
    unfolding getEnvironment_def
    by (rule wp_serves [OF srv that(1)]) (use facts wp_inputs [OF w _ that(2)] in simp)
  have up: "\<exists>s'. stored ShareObj share s' h1 \<and> same_share s' share" if "share_up share basic out h1" for out h1
    using that by (auto simp: share_up_def)
  have live: "wp (case share_spec_error restrictUpstream s1 of
        Some (rsn, msg) \<Rightarrow> do { _ \<leftarrow> share_setNotReady A s1 rsn msg; ret (no_requeue, None) }
      | None \<Rightarrow> Reconcile_env A (desiredShareMode s1) s1) (share_up share basic) h1"
    if "stored ShareObj share s1 h1" "same_share s1 share" for s1 h1
    using facts env [OF that] same_share_computes(7) [OF that(2)] by simp
  show ?thesis
    unfolding Reconcile_live_def wp_bind
    by (rule wp_labels [OF keeps st same]) (auto intro!: wp_mono [OF live] dest: up)
qed

lemma wp_reconcile:
  assumes w: "share_wanted A restrictUpstream share env secret basic"
    and st: "stored ShareObj share s h"
    and same: "object_key s = object_key share" "Generation s = Generation share" "ShareSpec s = ShareSpec share"
      "DeletionTimestamp s = DeletionTimestamp share"
  shows "wp (share_Reconcile A restrictUpstream (object_key share)) (\<lambda>out h'.
      (ContainsFinalizer s ShareFinalizer \<longrightarrow> share_up share basic out h')
      \<and> (\<exists>s'. stored ShareObj share s' h' \<and> same_share s' share)) h"
proof -
  have keeps: "keeps_store ShareObj (apiShares A) share" and live: "DeletionTimestamp s = None"
    using w same(4) unfolding share_wanted_def by simp_all
  show ?thesis
    unfolding share_Reconcile_def wp_bind
    by (rule wp_stored_get [OF keeps st]) (simp add: live wp_live [OF w _ same])
qed

section \<open>Properties\<close>

text \<open>C9: Progress of a share: in a world that cooperates - the environment is ready, the secrets can be
  read, nobody else claims the name or holds it for another upstream, and the zrok controller and
  the agent do what they are asked - two or more reconciles of a share, whatever its status, labels
  and annotations and with or without its finalizer, end with the stored share \<open>Ready\<close> for its
  current generation and annotated with the digest of its spec. The agent and the controller may
  list anything before: the share may be new, served already, lost by the agent, drifted from its
  spec or in the middle of a rename.\<close>

theorem wanted_share_becomes_ready:
  assumes "share_wanted A restrictUpstream share env secret basic"
  shows "share_up share basic
     (result_of (again (Suc n) (share_Reconcile A restrictUpstream (object_key share))))
     (trace_of (again (Suc n) (share_Reconcile A restrictUpstream (object_key share))))"
proof -
  let ?m = "share_Reconcile A restrictUpstream (object_key share)"
  let ?I = "\<lambda>h. \<exists>s. stored ShareObj share s h \<and> same_share s share"
  have later: "wp ?m (\<lambda>out h'. ?I h' \<and> share_up share basic out h') h" if I: "?I h" for h
  proof -
    obtain s where s: "stored ShareObj share s h" "same_share s share" using I by blast
    show ?thesis
      by (rule wp_mono [OF wp_reconcile [OF assms s(1)]]) (use s(2) in \<open>auto simp: same_share_def\<close>)
  qed
  have "wp ?m (\<lambda>_. wp (again n ?m) (share_up share basic)) []"
    by (rule wp_mono [OF wp_reconcile [OF assms stored_start]]) (auto intro: wp_again [OF later])
  then show ?thesis by (simp add: wp_trace [symmetric])
qed

definition lab_new_share :: ZrokShare where
  \<comment> \<open>a share that was just created, without finalizer, labels and status\<close>
  "lab_new_share =
     (let s = zero_share ''prod'' ''web''
      in s\<lparr>ShareSpec := (ShareSpec s)\<lparr>shEnvironmentRef := ''main'', shUpstreamURL := ''http://web''\<rparr>,
           Generation := 1\<rparr>)"

definition share_of :: "object \<Rightarrow> ZrokShare option" where
  "share_of obj = (case obj of ShareObj s \<Rightarrow> Some s | _ \<Rightarrow> None)"

definition lab_new_world :: api where
  "lab_new_world = (lab [lab_new_share] [lab_ready_env] [lab_secret ''prod'' ''token'' [DefaultEnableTokenKey \<mapsto> ''t0'']]
     [] \<lparr>stShares = [], stAccesses = []\<rparr> [])\<lparr>apiShares := store_client ShareObj share_of [lab_new_share]\<rparr>"

lemma lab_new_fields [simp]:
  "Name lab_new_share = ''web''" "Namespace lab_new_share = ''prod''" "Generation lab_new_share = 1"
  "shEnvironmentRef (ShareSpec lab_new_share) = ''main''" "shUpstreamURL (ShareSpec lab_new_share) = ''http://web''"
  "shNameSelection (ShareSpec lab_new_share) = None" "shBasicAuthSecretRef (ShareSpec lab_new_share) = None"
  "shPrivateShareToken (ShareSpec lab_new_share) = []" "shShareMode (ShareSpec lab_new_share) = []"
  "ShareStatus lab_new_share = ShareStatus (zero_share [] [])" "DeletionTimestamp lab_new_share = None"
  by (simp_all add: lab_new_share_def zero_share_def Let_def)

lemma lab_new_share_is_wanted:
  "share_wanted lab_new_world False lab_new_share lab_ready_env
     (lab_secret ''prod'' ''token'' [DefaultEnableTokenKey \<mapsto> ''t0'']) []"
proof -
  have ref: "enEnableTokenSecretRef (EnvSpec lab_env) = \<lparr>skName = ''token'', skKey = []\<rparr>"
    by (simp add: lab_env_def zero_env_def)
  have secret: "Name (lab_secret ns n d) = n" "Namespace (lab_secret ns n d) = ns" "Data (lab_secret ns n d) = d"
    for ns n d
    by (simp_all add: lab_secret_def lab_meta_def ObjectMeta.defs Secret.defs)
  have "keeps_store ShareObj (apiShares lab_new_world) lab_new_share"
    unfolding lab_new_world_def by (simp add: store_client_keeps share_of_def)
  moreover have "zrok_cooperates lab_new_world lab_new_share lab_ready_env"
    by (simp add: zrok_cooperates_def lab_new_world_def lab_def remoteByName_def FindByFrontendName_def
        remotes_def reservedFrontendName_def)
  moreover have "serves (apiEnvs lab_new_world) (''prod'', ''main'') lab_ready_env"
    "serves (apiSecrets lab_new_world) (''prod'', ''token'') (lab_secret ''prod'' ''token'' [DefaultEnableTokenKey \<mapsto> ''t0''])"
    by (simp_all add: serves_def lab_new_world_def lab_def lab_client_def secret)
  moreover have "apiListShares lab_new_world h AllNamespaces = Inr [lab_new_share]"
    "otherShareWithFrontendName lab_new_share [lab_new_share] = None" for h
    by (simp_all add: lab_new_world_def lab_def otherShareWithFrontendName_def reservedFrontendName_def Let_def)
  ultimately show ?thesis
    by (simp add: share_wanted_def ref token_there_def basic_auth_there_def secret lookup_str_def
        share_spec_error_def desiredShareMode_def)
qed

lemma wanted_share_becomes_ready_witness:
  "share_up lab_new_share []
     (result_of (again 1 (share_Reconcile lab_new_world False (''prod'', ''web''))))
     (trace_of (again 1 (share_Reconcile lab_new_world False (''prod'', ''web''))))"
  using wanted_share_becomes_ready [OF lab_new_share_is_wanted, of 0] by (simp add: object_key_def)

end
