(* ===== verification/StatusLife.thy ===== *)
theory StatusLife
  imports StatusInvariant ShareProgress
begin

text \<open>
  The stored objects over their whole life, while users edit them and the operator patches their
  status, in any order and interrupted anywhere. A status patch is a JSON merge patch: it carries
  only the fields that changed between the object read and the object sent
  (\<open>client.MergeFrom\<close>), and the read may be of any earlier version, since the manager's client reads
  from a cache. Nothing is assumed on the replies the reconciles get besides.
\<close>

section \<open>Lives\<close>

text \<open>
  The versions of an object, the newest first. \<open>sends v obj\<close>: the operator sends \<open>obj\<close> as a status
  patch against \<open>v\<close>; \<open>merge v obj x\<close> is what the server makes of \<open>x\<close> then. \<open>edited\<close>: everybody else's
  writes, and the operator's to metadata and spec; the status is a subresource, so they keep it.
\<close>

inductive life ::
    "('o \<Rightarrow> 'o \<Rightarrow> bool) \<Rightarrow> ('o \<Rightarrow> 'o \<Rightarrow> 'o \<Rightarrow> 'o) \<Rightarrow> ('o \<Rightarrow> 'o \<Rightarrow> bool) \<Rightarrow> ('o \<Rightarrow> bool) \<Rightarrow> 'o list \<Rightarrow> bool"
  for sends merge edit born where
  created: "born x \<Longrightarrow> life sends merge edit born [x]"
| edited: "life sends merge edit born (x # xs) \<Longrightarrow> edit x y \<Longrightarrow> life sends merge edit born (y # x # xs)"
| patched: "life sends merge edit born (x # xs) \<Longrightarrow> v \<in> set (x # xs) \<Longrightarrow> sends v obj
    \<Longrightarrow> life sends merge edit born (merge v obj x # x # xs)"

inductive_simps life_Nil [simp]: "life sends merge edit born []"
inductive_simps life_single: "life sends merge edit born [x]"

definition pick :: "'a \<Rightarrow> 'a \<Rightarrow> 'a \<Rightarrow> 'a" where
  \<comment> \<open>a field of a merge patch: sent only if it changed\<close>
  "pick old new cur = (if old = new then cur else new)"

definition conditions_ok :: "string list \<Rightarrow> int \<Rightarrow> int \<Rightarrow> Condition list \<Rightarrow> bool" where
  \<comment> \<open>well formed, about generations that exist, and \<open>Ready\<close> only together with the conditions it needs\<close>
  "conditions_ok needed gen observed cs \<longleftrightarrow>
     conditions_wf cs \<and> list_all (\<lambda>c. cObservedGeneration c \<le> gen) cs \<and> observed \<le> gen
     \<and> (IsTrue cs ConditionReady \<longrightarrow> list_all (IsTrue cs) needed)"

lemma conditions_ok_mono: "conditions_ok needed g ob cs \<Longrightarrow> g \<le> g' \<Longrightarrow> conditions_ok needed g' ob cs"
  by (auto simp: conditions_ok_def list_all_iff)

lemma SetCondition_generations:
  assumes "list_all (\<lambda>c. cObservedGeneration c \<le> g) cs"
  shows "list_all (\<lambda>c. cObservedGeneration c \<le> g) (SetCondition t cs ty st rsn msg g)"
proof -
  have "list_all (\<lambda>c. cObservedGeneration c \<le> g) (upsert_condition t ty st rsn m g cs)" for m
    using assms by (induction cs) auto
  then show ?thesis by (simp add: SetCondition_def)
qed

section \<open>The interface of an object with conditions\<close>

locale stored_object =
  fixes conds :: "'o \<Rightarrow> Condition list" and gen :: "'o \<Rightarrow> int" and observed :: "'o \<Rightarrow> int"
    and needed :: "string list"
    and sends :: "'o \<Rightarrow> 'o \<Rightarrow> bool" and merge :: "'o \<Rightarrow> 'o \<Rightarrow> 'o \<Rightarrow> 'o"
    and edit :: "'o \<Rightarrow> 'o \<Rightarrow> bool" and born :: "'o \<Rightarrow> bool"
  assumes sends_ok: "sends v obj \<Longrightarrow> conditions_ok needed (gen v) (observed v) (conds v)
      \<Longrightarrow> conditions_ok needed (gen v) (observed obj) (conds obj)"
    and merge_conds: "conds (merge v obj x) = pick (conds v) (conds obj) (conds x)"
    and merge_observed: "observed (merge v obj x) = pick (observed v) (observed obj) (observed x)"
    and merge_gen: "gen (merge v obj x) = gen x"
    and edit_keeps: "edit x y \<Longrightarrow> conds y = conds x \<and> observed y = observed x \<and> gen x \<le> gen y"
    and born_fresh: "born x \<Longrightarrow> conds x = [] \<and> observed x \<le> gen x"
begin

definition consistent :: "'o \<Rightarrow> bool" where
  "consistent x \<longleftrightarrow> conditions_ok needed (gen x) (observed x) (conds x)"

lemma merge_consistent:
  assumes "consistent v" and "consistent x" and "sends v obj" and "gen v \<le> gen x"
  shows "consistent (merge v obj x)"
proof -
  have "conditions_ok needed (gen x) (observed obj) (conds obj)"
    using assms(1,3,4) sends_ok conditions_ok_mono unfolding consistent_def by blast
  then show ?thesis
    using assms(2) by (auto simp: consistent_def merge_conds merge_observed merge_gen pick_def conditions_ok_def)
qed

lemma life_consistent:
  assumes "life sends merge edit born xs"
  shows "(\<forall>x \<in> set xs. consistent x) \<and> (\<forall>x \<in> set xs. gen x \<le> gen (hd xs))"
  using assms
proof (induction rule: life.induct)
  case (created x)
  then show ?case using born_fresh by (auto simp: consistent_def conditions_ok_def)
next
  case (edited x xs y)
  then have "consistent y" and "gen x \<le> gen y"
    using edit_keeps [OF edited(2)] conditions_ok_mono [of needed "gen x"] by (auto simp: consistent_def)
  then show ?case using edited.IH by auto
next
  case (patched x xs v obj)
  then have "consistent (merge v obj x)" by (intro merge_consistent) auto
  then show ?case using patched.IH by (auto simp: merge_gen)
qed

lemma always_consistent:
  "life sends merge edit born xs \<Longrightarrow> x \<in> set xs \<Longrightarrow> conditions_ok needed (gen x) (observed x) (conds x)"
  using life_consistent by (auto simp: consistent_def)

end

section \<open>The three custom resources\<close>

definition share_merge :: "ZrokShare \<Rightarrow> ZrokShare \<Rightarrow> ZrokShare \<Rightarrow> ZrokShare" where
  "share_merge v obj x =
     (let sv = ShareStatus v; so = ShareStatus obj; sx = ShareStatus x;
          m = (\<lambda>f. pick (f sv) (f so) (f sx))
      in x\<lparr>ShareStatus :=
             \<lparr>shObservedGeneration = pick (shObservedGeneration sv) (shObservedGeneration so) (shObservedGeneration sx),
              shAssignedURL = m shAssignedURL,
              shFrontendEndpoints = pick (shFrontendEndpoints sv) (shFrontendEndpoints so) (shFrontendEndpoints sx),
              shShareToken = m shShareToken, shReservation = m shReservation,
              shConditions = pick (shConditions sv) (shConditions so) (shConditions sx)\<rparr>\<rparr>)"

definition env_merge :: "ZrokEnvironment \<Rightarrow> ZrokEnvironment \<Rightarrow> ZrokEnvironment \<Rightarrow> ZrokEnvironment" where
  "env_merge v obj x =
     (let sv = EnvStatus v; so = EnvStatus obj; sx = EnvStatus x;
          m = (\<lambda>f. pick (f sv) (f so) (f sx))
      in x\<lparr>EnvStatus :=
             \<lparr>enObservedGeneration = pick (enObservedGeneration sv) (enObservedGeneration so) (enObservedGeneration sx),
              enEnvZID = m enEnvZID, enStatusUniqueID = m enStatusUniqueID, enAgentService = m enAgentService,
              enAgentReady = pick (enAgentReady sv) (enAgentReady so) (enAgentReady sx),
              enConditions = pick (enConditions sv) (enConditions so) (enConditions sx)\<rparr>\<rparr>)"

definition access_merge :: "ZrokAccess \<Rightarrow> ZrokAccess \<Rightarrow> ZrokAccess \<Rightarrow> ZrokAccess" where
  "access_merge v obj x =
     (let sv = AccessStatus v; so = AccessStatus obj; sx = AccessStatus x;
          m = (\<lambda>f. pick (f sv) (f so) (f sx))
      in x\<lparr>AccessStatus :=
             \<lparr>acObservedGeneration = pick (acObservedGeneration sv) (acObservedGeneration so) (acObservedGeneration sx),
              acFrontendEndpoint = m acFrontendEndpoint, acAccessToken = m acAccessToken,
              acConditions = pick (acConditions sv) (acConditions so) (acConditions sx)\<rparr>\<rparr>)"

text \<open>An object is created without a status, whatever the request says, and an edit keeps it.\<close>

definition share_life :: "ZrokShare list \<Rightarrow> bool" where
  "share_life =
     life (\<lambda>v obj. \<exists>r. operator_event (StatusPatch (ShareObj v) (ShareObj obj) r)) share_merge
       (\<lambda>x y. ShareStatus y = ShareStatus x \<and> Generation x \<le> Generation y)
       (\<lambda>x. ShareStatus x = ShareStatus (zero_share [] []) \<and> 0 \<le> Generation x)"

definition env_life :: "ZrokEnvironment list \<Rightarrow> bool" where
  "env_life =
     life (\<lambda>v obj. \<exists>r. operator_event (StatusPatch (EnvObj v) (EnvObj obj) r)) env_merge
       (\<lambda>x y. EnvStatus y = EnvStatus x \<and> Generation x \<le> Generation y)
       (\<lambda>x. EnvStatus x = EnvStatus zero_env \<and> 0 \<le> Generation x)"

definition access_life :: "ZrokAccess list \<Rightarrow> bool" where
  "access_life =
     life (\<lambda>v obj. \<exists>r. operator_event (StatusPatch (AccessObj v) (AccessObj obj) r)) access_merge
       (\<lambda>x y. AccessStatus y = AccessStatus x \<and> Generation x \<le> Generation y)
       (\<lambda>x. access_conds x = [] \<and> acObservedGeneration (AccessStatus x) = 0 \<and> 0 \<le> Generation x)"

section \<open>The writes keep the invariant\<close>

abbreviation share_needs :: "string list" where
  "share_needs \<equiv> [ConditionNameReady, ConditionEnvironmentReady, ConditionShareCreated]"
abbreviation env_needs :: "string list" where
  "env_needs \<equiv> [ConditionAgentReady, ConditionEnabled]"

lemmas conditions_ok_intros = conditions_ok_def SetCondition_wf SetCondition_generations

lemma share_write_ok:
  assumes "share_write s s'"
    and "conditions_ok share_needs (Generation s) (shObservedGeneration (ShareStatus s)) (share_conds s)"
  shows "conditions_ok share_needs (Generation s) (shObservedGeneration (ShareStatus s')) (share_conds s')"
  using assms
  by (induction rule: share_write.induct)
    (simp_all add: mutation_defs Let_def share_conds_def share_condition_def share_set_status_def
       share_observed_def conditions_ok_intros)

lemma env_write_ok:
  assumes "env_write e e'"
    and "conditions_ok env_needs (Generation e) (enObservedGeneration (EnvStatus e)) (env_conds e)"
  shows "conditions_ok env_needs (Generation e) (enObservedGeneration (EnvStatus e')) (env_conds e')"
  using assms
  by (induction rule: env_write.induct)
    (simp_all add: env_not_ready_mutation_def set_zid_mutation_def enabled_mutation_def
       env_waiting_mutation_def env_unreachable_mutation_def env_ready_mutation_def shares_exist_mutation_def
       Let_def env_conds_def env_condition_def env_set_status_def conditions_ok_intros)

lemma access_write_ok:
  assumes "access_write a a'"
    and "conditions_ok [] (Generation a) (acObservedGeneration (AccessStatus a)) (access_conds a)"
  shows "conditions_ok [] (Generation a) (acObservedGeneration (AccessStatus a')) (access_conds a')"
  using assms
  by (induction rule: access_write.induct)
    (simp_all add: access_not_ready_mutation_def access_ready_mutation_def access_clear_mutation_def
       access_conds_def access_condition_def access_set_status_def conditions_ok_intros)

interpretation stored_share: stored_object share_conds Generation "\<lambda>s. shObservedGeneration (ShareStatus s)"
  share_needs "\<lambda>v obj. \<exists>r. operator_event (StatusPatch (ShareObj v) (ShareObj obj) r)" share_merge
  "\<lambda>x y. ShareStatus y = ShareStatus x \<and> Generation x \<le> Generation y"
  "\<lambda>x. ShareStatus x = ShareStatus (zero_share [] []) \<and> 0 \<le> Generation x"
  by unfold_locales
    (auto intro: share_write_ok [OF operator_status_patch(1), unfolded share_conds_def] simp: share_conds_def share_merge_def Let_def
       zero_share_def)

interpretation stored_env: stored_object env_conds Generation "\<lambda>e. enObservedGeneration (EnvStatus e)"
  env_needs "\<lambda>v obj. \<exists>r. operator_event (StatusPatch (EnvObj v) (EnvObj obj) r)" env_merge
  "\<lambda>x y. EnvStatus y = EnvStatus x \<and> Generation x \<le> Generation y"
  "\<lambda>x. EnvStatus x = EnvStatus zero_env \<and> 0 \<le> Generation x"
  by unfold_locales
    (auto intro: env_write_ok [OF operator_status_patch(2), unfolded env_conds_def] simp: env_conds_def env_merge_def Let_def
       zero_env_def)

interpretation stored_access: stored_object access_conds Generation "\<lambda>a. acObservedGeneration (AccessStatus a)"
  "[]" "\<lambda>v obj. \<exists>r. operator_event (StatusPatch (AccessObj v) (AccessObj obj) r)" access_merge
  "\<lambda>x y. AccessStatus y = AccessStatus x \<and> Generation x \<le> Generation y"
  "\<lambda>x. access_conds x = [] \<and> acObservedGeneration (AccessStatus x) = 0 \<and> 0 \<le> Generation x"
  by unfold_locales
    (auto intro: access_write_ok [OF operator_status_patch(3), unfolded access_conds_def] simp: access_conds_def access_merge_def Let_def)

section \<open>Properties\<close>

text \<open>C16: Whatever users do and however often the reconciles of the four controllers are run, interrupted
  or fed with stale reads, every version of a stored ZrokShare has one condition per type with a
  message of at most 1024 bytes, no condition and no status claims a generation that does not exist
  yet, and \<open>Ready\<close> is True only together with \<open>NameReady\<close>, \<open>EnvironmentReady\<close> and \<open>ShareCreated\<close>.\<close>

theorem stored_shares_are_consistent:
  assumes "share_life xs" and "s \<in> set xs"
  shows "conditions_wf (share_conds s)
    \<and> (\<forall>c \<in> set (share_conds s). cObservedGeneration c \<le> Generation s)
    \<and> shObservedGeneration (ShareStatus s) \<le> Generation s
    \<and> (IsTrue (share_conds s) ConditionReady \<longrightarrow> IsTrue (share_conds s) ConditionNameReady
         \<and> IsTrue (share_conds s) ConditionEnvironmentReady \<and> IsTrue (share_conds s) ConditionShareCreated)"
  using stored_share.always_consistent [of xs s] assms
  unfolding share_life_def conditions_ok_def by (simp add: list_all_iff)

text \<open>A share in the making: created, given its finalizer and labels, reported ready.\<close>

definition lab_labelled_share :: ZrokShare where
  "lab_labelled_share = lab_new_share\<lparr>Finalizers := {ShareFinalizer}, Labels := ShareLabels lab_new_share\<rparr>"

definition lab_labelled_world :: api where
  "lab_labelled_world = lab [lab_labelled_share] [lab_ready_env]
     [lab_secret ''prod'' ''token'' [DefaultEnableTokenKey \<mapsto> ''t0'']] [] \<lparr>stShares = [], stAccesses = []\<rparr> []"

lemma lab_labelled_fields [simp]:
  "Name lab_labelled_share = ''web''" "Namespace lab_labelled_share = ''prod''"
  "ShareSpec lab_labelled_share = ShareSpec lab_new_share" "ShareStatus lab_labelled_share = ShareStatus (zero_share [] [])"
  "DeletionTimestamp lab_labelled_share = None" "Annotations lab_labelled_share = Map.empty"
  "Generation lab_labelled_share = 1"
  by (simp_all add: lab_labelled_share_def) (simp add: lab_new_share_def zero_share_def Let_def)

abbreviation lab_ready_share :: ZrokShare where
  "lab_ready_share \<equiv> snd (mark_ready_mutation ''public'' ''tok'' [] [] (\<lambda>_. 0) lab_labelled_share)"

lemma lab_share_patched:
  "StatusPatch (ShareObj lab_labelled_share) (ShareObj lab_ready_share) (Inr (ShareObj lab_ready_share))
     \<in> set (trace_of (share_Reconcile lab_labelled_world False (''prod'', ''web'')))"
proof -
  have labels: "ensureFinalizerAndLabels A lab_labelled_share = ret (False, None, lab_labelled_share)" for A
    by (rule settled_labels) (simp_all add: ContainsFinalizer_def labels_settled_def lab_labelled_share_def
        ShareLabels_def Let_def)
  have ref: "enEnableTokenSecretRef (EnvSpec lab_env) = \<lparr>skName = ''token'', skKey = []\<rparr>"
    by (simp add: lab_env_def zero_env_def)
  have env: "find (\<lambda>x. Namespace x = ''prod'' \<and> Name x = ''main'') [lab_ready_env] = Some lab_ready_env" by simp
  have cls: "clsAgent (classifyShare lab_labelled_share up \<lparr>invRemote = Some [], invAgent = []\<rparr>) = None"
    "clsRemote (classifyShare lab_labelled_share up \<lparr>invRemote = Some [], invAgent = []\<rparr>) = None"
    "\<not> foreignName (classifyShare lab_labelled_share up \<lparr>invRemote = Some [], invAgent = []\<rparr>)" for up
    by (simp_all add: classifyShare_def reservedFrontendName_def zero_share_def Let_def)
  have adopt: "adoptableAgentShare lab_labelled_share
      (classifyShare lab_labelled_share up \<lparr>invRemote = Some [], invAgent = []\<rparr>) up dg = None" for up dg
    using cls(1) by (simp add: adoptableAgentShare_def)
  have mode: "desiredShareMode lab_labelled_share = ''public''" by (simp add: desiredShareMode_def)
  let ?W = lab_labelled_world
  have get: "cGet (apiShares ?W) h (''prod'', ''web'') = Inr lab_labelled_share"
    "cGet (apiEnvs ?W) h (''prod'', ''main'') = Inr lab_ready_env"
    "cGet (apiSecrets ?W) h (''prod'', ''token'') = Inr (lab_secret ''prod'' ''token'' [DefaultEnableTokenKey \<mapsto> ''t0''])"
    "restListShares ?W h ep tok zid = Inr (Some [])"
    "agentStatus ?W h addr = Inr (Some \<lparr>stShares = [], stAccesses = []\<rparr>)"
    "agentSharePublic ?W h addr req = Inr \<lparr>sprToken = ''tok'', sprFrontendEndpoints = []\<rparr>"
    for h ep tok zid addr req
    by (simp_all add: lab_labelled_world_def lab_def lab_client_def lab_secret_def lab_meta_def
        ObjectMeta.defs Secret.defs)
  have secret: "Data (lab_secret ''prod'' ''token'' d) = d" for d
    by (simp add: lab_secret_def lab_meta_def ObjectMeta.defs Secret.defs)
  have patch: "run_state (PatchShareStatus ?W lab_labelled_share m) h = ((None, snd (m (\<lambda>_. 0) lab_labelled_share)),
      h @ [Get KShare (''prod'', ''web'') (Inr (ShareObj lab_labelled_share)),
           StatusPatch (ShareObj lab_labelled_share) (ShareObj (snd (m (\<lambda>_. 0) lab_labelled_share)))
             (Inr (ShareObj (snd (m (\<lambda>_. 0) lab_labelled_share))))])"
    if "total_mutation m" for m h
  proof -
    have "m (\<lambda>_. 0) lab_labelled_share = (None, snd (m (\<lambda>_. 0) lab_labelled_share))"
      using that by (metis prod.collapse total_mutation_def)
    then obtain y where "m (\<lambda>_. 0) lab_labelled_share = (None, y)" by blast
    then show ?thesis
      by (simp add: PatchStatus_def patch_attempt_def call_defs object_key_def lab_labelled_world_def lab_def
          lab_client_def numeral_eq_Suc)
  qed
  have ne: "shareApplyDigest lab_labelled_share [] \<noteq> []"
    using length_shareApplyDigest [of lab_labelled_share "[]"] by auto
  have ann: "run_state (patchShareAnnotation ?W s k d) h =
      ((None, s\<lparr>Annotations := [k \<mapsto> d]\<rparr>), h @ [Patch (ShareObj s) (ShareObj (s\<lparr>Annotations := [k \<mapsto> d]\<rparr>))
         (Inr (ShareObj (s\<lparr>Annotations := [k \<mapsto> d]\<rparr>)))])"
    if "Annotations s = Map.empty" "d \<noteq> []" for s k d h
    using that by (simp add: patchShareAnnotation_def lookup_str_def call_defs lab_labelled_world_def lab_def
        lab_client_def)
  show ?thesis
    by (simp add: ann ne mark_ready_facts share_record_def share_Reconcile_def Reconcile_live_def labels share_spec_error_def mode Reconcile_env_def
        getEnvironment_def Reconcile_inputs_def share_readEnableToken_def readBasicAuth_def otherShareClaimingName_def
        reservedFrontendName_def Reconcile_inventory_def inventory_of_def loadInventory_def cls adopt
        Reconcile_name_def ensureReservedName_def flushReclaimName_def lookup_str_def Reconcile_heal_def heal_token_def
        Reconcile_create_def markShareReady_def ref Result_IsZero_def get secret patch call_defs trace_of_def Let_def)
qed

definition lab_stored_share :: ZrokShare where
  "lab_stored_share = share_merge lab_labelled_share lab_ready_share lab_labelled_share"

lemma lab_share_life: "share_life [lab_stored_share, lab_labelled_share, lab_new_share]"
proof -
  have "share_life [lab_labelled_share, lab_new_share]"
    unfolding share_life_def by (intro life.edited life.created) simp_all
  then show ?thesis
    using operator_event.share [OF lab_share_patched]
    unfolding share_life_def lab_stored_share_def by (intro life.patched) auto
qed

lemma stored_shares_are_consistent_witness:
  "IsTrue (share_conds lab_stored_share) ConditionReady
   \<and> IsTrue (share_conds lab_stored_share) ConditionNameReady
   \<and> IsTrue (share_conds lab_stored_share) ConditionEnvironmentReady
   \<and> IsTrue (share_conds lab_stored_share) ConditionShareCreated
   \<and> shObservedGeneration (ShareStatus lab_stored_share) \<le> Generation lab_stored_share"
proof -
  have "share_ready lab_ready_share" by (rule mark_ready_facts)
  then have "IsTrue (share_conds lab_stored_share) ConditionReady"
    by (simp add: lab_stored_share_def share_merge_def share_conds_def pick_def Let_def share_ready_def zero_share_def)
      (metis IsTrue.simps(1))
  then show ?thesis using stored_shares_are_consistent [OF lab_share_life, of lab_stored_share] by simp
qed

text \<open>C23: The same for environments: every stored version of a ZrokEnvironment has well-formed
  conditions, none of them from a generation that does not exist yet, and is \<open>Ready\<close> only
  together with \<open>AgentReady\<close> and \<open>Enabled\<close>.\<close>

theorem stored_environments_are_consistent:
  assumes "env_life xs" and "e \<in> set xs"
  shows "conditions_wf (env_conds e)
    \<and> (\<forall>c \<in> set (env_conds e). cObservedGeneration c \<le> Generation e)
    \<and> enObservedGeneration (EnvStatus e) \<le> Generation e
    \<and> (IsTrue (env_conds e) ConditionReady \<longrightarrow>
         IsTrue (env_conds e) ConditionAgentReady \<and> IsTrue (env_conds e) ConditionEnabled)"
  using stored_env.always_consistent [of xs e] assms
  unfolding env_life_def conditions_ok_def by (simp add: list_all_iff)

text \<open>An environment whose enable token is missing: created, then reported not ready.\<close>

abbreviation lab_failed_env :: ZrokEnvironment where
  "lab_failed_env \<equiv> snd (env_not_ready_mutation ''SecretError''
       ''get enable token secret token: not found'' (\<lambda>_. 0) lab_env)"

lemma lab_env_patched:
  "StatusPatch (EnvObj lab_env) (EnvObj lab_failed_env) (Inr (EnvObj lab_failed_env))
     \<in> set (trace_of (env_Reconcile (lab [] [lab_env] [] [] \<lparr>stShares = [], stAccesses = []\<rparr> []) cfg (''prod'', ''main'')))"
  by (simp add: lab_simps split_def env_Reconcile_def env_live_def env_readEnableToken_def env_setNotReady_def
      env_record_def env_not_ready_mutation_def wrap_error_def)

lemma lab_env_life: "env_life [env_merge lab_env lab_failed_env lab_env, lab_env]"
proof -
  have "env_life [lab_env]"
    unfolding env_life_def by (intro life.created) (simp add: lab_env_def zero_env_def)
  then show ?thesis
    using operator_event.env [OF lab_env_patched] unfolding env_life_def by (intro life.patched) auto
qed

lemma stored_environments_are_consistent_witness:
  "Reason (env_conds (env_merge lab_env lab_failed_env lab_env)) ConditionReady = ''SecretError''
   \<and> conditions_wf (env_conds (env_merge lab_env lab_failed_env lab_env))"
  using stored_environments_are_consistent [OF lab_env_life, of "env_merge lab_env lab_failed_env lab_env"]
  by (simp add: env_conds_def env_merge_def pick_def Let_def env_not_ready_mutation_def env_condition_def
      env_set_status_def lab_env_def zero_env_def SetCondition_def)

text \<open>And for accesses.\<close>

lemma stored_accesses_are_consistent:
  assumes "access_life xs" and "a \<in> set xs"
  shows "conditions_wf (access_conds a)
    \<and> (\<forall>c \<in> set (access_conds a). cObservedGeneration c \<le> Generation a)
    \<and> acObservedGeneration (AccessStatus a) \<le> Generation a"
  using stored_access.always_consistent [of xs a] assms
  unfolding access_life_def conditions_ok_def by (simp add: list_all_iff)

section \<open>What does not hold\<close>

text \<open>
  A merge patch carries no resource version, so the server cannot report a conflict, and a patch
  computed from a stale version is merged field by field: here a share whose binding was just cleared
  becomes \<open>Ready\<close> again without its token, because the token did not change between the stale
  version and the object sent.
\<close>

lemma stale_patch_loses_token:
  assumes v: "v = (zero_share ns n)\<lparr>Generation := 2, ShareStatus := (ShareStatus (zero_share ns n))\<lparr>shShareToken := ''tok''\<rparr>\<rparr>"
    and x: "x = snd (clear_binding_mutation t v)"
    and obj: "obj = snd (mark_ready_mutation mode ''tok'' eps url t v)"
  shows "shShareToken (ShareStatus (share_merge v obj x)) = []
    \<and> IsTrue (share_conds (share_merge v obj x)) ConditionReady"
  by (simp add: assms mutation_defs Let_def share_merge_def pick_def share_conds_def share_condition_def
      share_set_status_def zero_share_def SetCondition_def)

end
