(* ===== verification/AccessLiveness.thy ===== *)
theory AccessLiveness
  imports Store AccessReconcile
begin

text \<open>
  Progress of the access reconciler: once its environment is ready and the agent answers, one
  reconcile makes an access ready, whether it was never bound, is bound, was lost by the agent or
  drifted from its spec.
\<close>

section \<open>The world\<close>

definition access_world :: "api \<Rightarrow> ZrokAccess \<Rightarrow> ZrokEnvironment \<Rightarrow> bool" where
  "access_world A access env \<longleftrightarrow>
     keeps_store AccessObj (apiAccesses A) access \<and> DeletionTimestamp access = None
     \<and> serves (apiEnvs A) (Namespace access, acEnvironmentRef (AccessSpec access)) env
     \<and> IsTrue (enConditions (EnvStatus env)) ConditionReady
     \<and> (\<forall>h. \<exists>st. agentStatus A h (AgentDialAddr env) = Inr st)
     \<and> (\<forall>h tok bnd. \<exists>frontend. agentAccessPrivate A h (AgentDialAddr env) tok bnd = Inr frontend)"

definition same_access :: "ZrokAccess \<Rightarrow> ZrokAccess \<Rightarrow> bool" where
  \<comment> \<open>up to the status\<close>
  "same_access a b \<longleftrightarrow>
     object_key a = object_key b \<and> Generation a = Generation b \<and> AccessSpec a = AccessSpec b
     \<and> DeletionTimestamp a = DeletionTimestamp b"

lemma same_access_refl [simp]: "same_access a a"
  by (simp add: same_access_def)

definition access_served :: "ZrokAccess \<Rightarrow> outcome \<Rightarrow> event list \<Rightarrow> bool" where
  \<comment> \<open>the stored access is ready under a token that the agent gave or listed\<close>
  "access_served access out h \<longleftrightarrow>
     out = (requeue_after 120, None)
     \<and> (\<exists>a. stored AccessObj access a h \<and> access_ready a \<and> same_access a access
           \<and> acObservedGeneration (AccessStatus a) = Generation access \<and> ContainsFinalizer a AccessFinalizer
           \<and> access_token_backed access h (acAccessToken (AccessStatus a)))"

lemma access_mutation_same:
  "same_access (snd (access_ready_mutation tok ep t a)) b = same_access a b"
  "same_access (snd (access_clear_mutation t a)) b = same_access a b"
  "ContainsFinalizer (snd (access_ready_mutation tok ep t a)) f = ContainsFinalizer a f"
  "ContainsFinalizer (snd (access_clear_mutation t a)) f = ContainsFinalizer a f"
  by (simp_all add: same_access_def ContainsFinalizer_def access_ready_mutation_def access_clear_mutation_def access_condition_def
      access_set_status_def object_key_def)

lemma access_mutation_values:
  "access_ready (snd (access_ready_mutation tok ep t a))"
  "acAccessToken (AccessStatus (snd (access_ready_mutation tok ep t a))) = tok"
  "acObservedGeneration (AccessStatus (snd (access_ready_mutation tok ep t a))) = Generation a"
  "acAccessToken (AccessStatus (snd (access_clear_mutation t a))) = []"
  by (simp_all add: access_ready_def access_ready_mutation_def access_clear_mutation_def access_condition_def
      access_set_status_def)

lemma same_access_computes:
  assumes "same_access a b"
  shows "accessSpecDrifted a d = accessSpecDrifted b d" "AccessSpec a = AccessSpec b" "Namespace a = Namespace b"
    "Generation a = Generation b" "DeletionTimestamp a = DeletionTimestamp b" "object_key a = object_key b"
  using assms by (simp_all add: same_access_def accessSpecDrifted_def wanted_bind_def object_key_def)

section \<open>Steps\<close>

lemma same_access_id: "same_access a b \<Longrightarrow> object_id (AccessObj a) = object_id (AccessObj b)"
  by (simp add: same_access_def)

lemma access_marked:
  assumes keeps: "keeps_store AccessObj (apiAccesses A) access" and st: "stored AccessObj access a h"
    and same: "same_access a access" "ContainsFinalizer a AccessFinalizer" and backed: "access_token_backed access h tok"
  shows "wp (markAccessReady A a tok bnd) (access_served access) h"
proof -
  have served: "access_served access (requeue_after 120, None) (h' @ es)"
    if "stored AccessObj access (snd (access_ready_mutation tok ep t a)) h'" "\<exists>fs. h' = h @ fs"
      "list_all (\<lambda>e. written e = None) es" for h' es ep t
  proof -
    have "stored AccessObj access (snd (access_ready_mutation tok ep t a)) (h' @ es)"
      using that(1,3) by (rule stored_calms)
    moreover have "access_token_backed access (h' @ es) tok"
      using backed access_token_backed_mono that(2) by auto
    moreover have "same_access (snd (access_ready_mutation tok ep t a)) access"
      using same by (simp add: access_mutation_same)
    ultimately show ?thesis
      using same(2) same_access_computes [OF same(1)] unfolding access_served_def
      by (auto simp: access_mutation_values access_mutation_same intro!: exI [of _ "snd (access_ready_mutation tok ep t a)"])
  qed
  show ?thesis
    unfolding markAccessReady_def Let_def wp_simps
  proof (rule wp_status_patch [OF keeps st])
    show "object_key a = object_key access" using same(1) by (simp add: same_access_def)
    show "object_id (AccessObj (snd (access_ready_mutation tok ep t a))) = object_id (AccessObj access)" for t ep
      using same(1) by (intro same_access_id) (simp add: access_mutation_same)
  qed (use served [of _ _ _ "[]"] served [of _ _ _ "[Recorded k1 k2 k3 k4 k5 k6]" for k1 k2 k3 k4 k5 k6] in auto)
qed


lemma access_created:
  assumes world: "access_world A access env" and st: "stored AccessObj access a h"
    and same: "same_access a access" "ContainsFinalizer a AccessFinalizer"
  shows "wp (access_create A (AgentDialAddr env) a) (access_served access) h"
proof -
  have keeps: "keeps_store AccessObj (apiAccesses A) access" using world by (simp add: access_world_def)
  let ?addr = "AgentDialAddr env"
  obtain tok where tok: "agentAccessPrivate A h ?addr (acShareToken (AccessSpec a)) (wanted_bind a) = Inr tok"
    using world unfolding access_world_def by blast
  let ?h1 = "h @ [AgentAccessPrivate ?addr (acShareToken (AccessSpec a)) (wanted_bind a) (Inr tok)]"
  let ?h2 = "?h1 @ [AgentStatus ?addr (agentStatus A ?h1 ?addr)]"
  have "stored AccessObj access a ?h2" by (intro stored_calm st) simp_all
  moreover have "access_token_backed access ?h2 tok" by (auto simp: access_token_backed_def)
  ultimately have "wp (markAccessReady A a tok bnd) (access_served access) ?h2" for bnd
    by (intro access_marked [OF keeps _ same])
  then show ?thesis
    unfolding access_create_def Agent_AccessPrivate_def Agent_Status_def by (simp add: tok Let_def)
qed

lemma access_refreshed:
  assumes world: "access_world A access env" and st: "stored AccessObj access a h"
    and same: "same_access a access" "ContainsFinalizer a AccessFinalizer"
  shows "wp (access_refresh A (AgentDialAddr env) a) (access_served access) h"
proof (cases "acAccessToken (AccessStatus a) = []")
  case True
  then show ?thesis
    using access_created [OF world st same] by (simp add: access_refresh_def access_ensure_def Let_def)
next
  case False
  have keeps: "keeps_store AccessObj (apiAccesses A) access" using world by (simp add: access_world_def)
  let ?addr = "AgentDialAddr env" and ?tok = "acAccessToken (AccessStatus a)"
  obtain s where s: "agentStatus A h ?addr = Inr s" using world unfolding access_world_def by blast
  let ?h1 = "h @ [AgentStatus ?addr (Inr s)]"
  have st1: "stored AccessObj access a ?h1" by (intro stored_calm st) simp
  show ?thesis
  proof (cases "live_access a (reply_accesses s)")
    case (Some d)
    obtain r where r: "s = Some r" "Some d \<in> set (stAccesses r)" "isAgentAccessActive d" "\<not> accessSpecDrifted access d"
      using live_access_Some [OF Some] same_access_computes(1) [OF same(1)] by (cases s) (auto simp: reply_accesses_def)
    have "AgentStatus ?addr (Inr (Some r)) \<in> set ?h1" using r(1) by simp
    with r(2-4) have "access_token_backed access ?h1 (adFrontendToken d)"
      unfolding access_token_backed_def by blast
    then show ?thesis
      using access_marked [OF keeps st1 same, of "adFrontendToken d"] False Some
      by (simp add: access_refresh_def Agent_Status_def s Let_def)
  next
    case None
    let ?h2 = "?h1 @ [AgentReleaseAccess ?addr ?tok (agentReleaseAccess A ?h1 ?addr ?tok)]"
    have st2: "stored AccessObj access a ?h2" by (intro stored_calm st1) simp
    have "wp (PatchAccessStatus A a access_clear_mutation)
        (\<lambda>y. wp (case y of (err, a) \<Rightarrow>
              case err of Some e \<Rightarrow> ret (no_requeue, Some e) | None \<Rightarrow> access_ensure A ?addr a)
            (access_served access)) ?h2"
    proof (rule wp_status_patch [OF keeps st2])
      show "object_key a = object_key access" using same(1) by (simp add: same_access_def)
      show "object_id (AccessObj (snd (access_clear_mutation t a))) = object_id (AccessObj access)" for t
        using same(1) by (intro same_access_id) (simp add: access_mutation_same)
    qed (use access_created [OF world] same in
        \<open>simp_all add: access_ensure_def access_mutation_values access_mutation_same\<close>)
    then show ?thesis
      using False None
      by (simp add: access_refresh_def Agent_Status_def Agent_ReleaseAccess_def s Let_def)
  qed
qed

section \<open>Reconciles\<close>

definition access_kept :: "ZrokAccess \<Rightarrow> event list \<Rightarrow> bool" where
  \<comment> \<open>the stored access is still the one asked for, and has its finalizer\<close>
  "access_kept access h \<longleftrightarrow>
     (\<exists>a. stored AccessObj access a h \<and> same_access a access \<and> ContainsFinalizer a AccessFinalizer)"

lemma access_served_kept: "access_served access out h \<Longrightarrow> access_kept access h"
  by (auto simp: access_served_def access_kept_def)

lemma wp_access_live:
  assumes world: "access_world A access env" and st: "stored AccessObj access a h" and same: "same_access a access"
  shows "wp (access_live A a) (\<lambda>out h'. access_kept access h'
      \<and> (ContainsFinalizer a AccessFinalizer \<longrightarrow> access_served access out h')) h"
proof (cases "ContainsFinalizer a AccessFinalizer")
  case True
  have env: "serves (apiEnvs A) (Namespace access, acEnvironmentRef (AccessSpec access)) env"
      "IsTrue (enConditions (EnvStatus env)) ConditionReady"
    using world by (simp_all add: access_world_def)
  have "wp (access_live A a) (access_served access) h"
    using access_refreshed [OF world _ same True] env(2) True
    unfolding access_live_def wp_bind same_access_computes(2,3) [OF same]
    by (auto intro!: wp_serves [OF env(1) st])
  then show ?thesis using True by (auto intro: access_served_kept elim!: wp_mono)
next
  case False
  let ?a = "AddFinalizer a AccessFinalizer"
  have keeps: "keeps_store AccessObj (apiAccesses A) access" using world by (simp add: access_world_def)
  have fin: "same_access ?a access" "ContainsFinalizer ?a AccessFinalizer"
    using same by (simp_all add: AddFinalizer_def same_access_def object_key_def ContainsFinalizer_def)
  have "wp (k8s_update AccessObj (apiAccesses A) ?a) (\<lambda>y h'. access_kept access h') h"
    using fin by (intro wp_stored_update [OF keeps st same_access_id]) (auto simp: access_kept_def)
  then show ?thesis using False by (auto simp: access_live_def elim!: wp_mono split: prod.split)
qed

lemma wp_access_reconcile:
  assumes world: "access_world A access env" and st: "stored AccessObj access a h" and same: "same_access a access"
  shows "wp (access_Reconcile A (object_key access)) (\<lambda>out h'. access_kept access h'
      \<and> (ContainsFinalizer a AccessFinalizer \<longrightarrow> access_served access out h')) h"
proof -
  have keeps: "keeps_store AccessObj (apiAccesses A) access" and live: "DeletionTimestamp a = None"
    using world same_access_computes(5) [OF same] by (simp_all add: access_world_def)
  show ?thesis
    unfolding access_Reconcile_def wp_bind
    by (intro wp_stored_get [OF keeps st]) (simp add: live wp_access_live [OF world _ same])
qed

section \<open>Properties\<close>

text \<open>C22: Progress of an access: once its environment is ready and the agent answers, two or more
  reconciles of an access, with or without its finalizer, end with the stored access \<open>Ready\<close> for its
  current generation, under a frontend token that the agent returned or listed as active -
  whether the access was never bound, is bound, was lost by the agent or no longer matches its
  spec.\<close>

theorem access_becomes_ready:
  assumes "access_world A access env"
  shows "access_served access (result_of (again (Suc n) (access_Reconcile A (object_key access))))
     (trace_of (again (Suc n) (access_Reconcile A (object_key access))))"
proof -
  let ?m = "access_Reconcile A (object_key access)"
  have later: "wp ?m (\<lambda>out h'. access_kept access h' \<and> access_served access out h') h" if I: "access_kept access h" for h
  proof -
    obtain a where a: "stored AccessObj access a h" "same_access a access" "ContainsFinalizer a AccessFinalizer"
      using I unfolding access_kept_def by blast
    show ?thesis by (rule wp_mono [OF wp_access_reconcile [OF assms a(1,2)]]) (use a(3) in auto)
  qed
  have "wp ?m (\<lambda>_. wp (again n ?m) (access_served access)) []"
    by (rule wp_mono [OF wp_access_reconcile [OF assms stored_start same_access_refl]])
       (auto intro: wp_again [where I = "access_kept access", OF later])
  then show ?thesis by (simp add: wp_trace [symmetric])
qed

definition lab_access :: ZrokAccess where
  \<comment> \<open>bound under the token \<open>old\<close>, which the agent no longer lists\<close>
  "lab_access = ObjectMeta.extend (lab_meta ''prod'' ''db'')
     (ZrokAccess.fields \<lparr>acEnvironmentRef = ''main'', acShareToken = ''shr'', acBindAddress = []\<rparr>
        \<lparr>acObservedGeneration = 0, acFrontendEndpoint = [], acAccessToken = ''old'', acConditions = []\<rparr>)"

definition access_of :: "object \<Rightarrow> ZrokAccess option" where
  "access_of obj = (case obj of AccessObj a \<Rightarrow> Some a | _ \<Rightarrow> None)"

definition lab_access_world :: api where
  "lab_access_world = (lab [] [lab_ready_env] [] [] \<lparr>stShares = [], stAccesses = []\<rparr> [])
     \<lparr>apiAccesses := store_client AccessObj access_of [lab_access]\<rparr>"

lemma lab_access_fields [simp]:
  "Namespace lab_access = ''prod''" "Name lab_access = ''db''" "Generation lab_access = 1"
  "acEnvironmentRef (AccessSpec lab_access) = ''main''" "DeletionTimestamp lab_access = None"
  by (simp_all add: lab_access_def lab_meta_def ObjectMeta.defs ZrokAccess.defs)

lemma lab_access_answers: "access_world lab_access_world lab_access lab_ready_env"
proof -
  have "keeps_store AccessObj (apiAccesses lab_access_world) lab_access"
    unfolding lab_access_world_def by (simp add: store_client_keeps access_of_def)
  then show ?thesis
    by (simp add: access_world_def serves_def lab_access_world_def lab_def lab_client_def)
qed

lemma access_becomes_ready_witness:
  "access_served lab_access (result_of (again 1 (access_Reconcile lab_access_world (''prod'', ''db''))))
     (trace_of (again 1 (access_Reconcile lab_access_world (''prod'', ''db''))))"
  using access_becomes_ready [OF lab_access_answers, of 0] by (simp add: object_key_def)

end
