(* ===== verification/Quiescence.thy ===== *)
theory Quiescence
  imports ShareLiveness EnvSafety AccessReconcile IngressReconcile
begin

text \<open>
  Coming to rest: every report in a status is stable, so that reporting the same again changes
  nothing, and the reconcile of a share that was reported writes what is stored already. As a write
  that changes nothing causes no watch event, the operator does not keep itself busy.
\<close>

section \<open>Stable reports\<close>

definition stable :: "'o mutation \<Rightarrow> bool" where
  \<comment> \<open>reporting the same again, at whatever time, changes nothing\<close>
  "stable m \<longleftrightarrow> (\<forall>t t' x. m t' (snd (m t x)) = (None, snd (m t x)))"

definition says :: "Condition list \<Rightarrow> string \<Rightarrow> string \<Rightarrow> string \<Rightarrow> string \<Rightarrow> int \<Rightarrow> bool" where
  \<comment> \<open>a condition of the type holds just this\<close>
  "says cs ty st rsn msg gen \<longleftrightarrow>
     (\<exists>c. cond_of cs ty = Some c \<and> cStatus c = st \<and> cReason c = rsn \<and> cMessage c = Conditions.truncate msg 1024
        \<and> cObservedGeneration c = gen)"

lemma SetCondition_says [simp]:
  "says (SetCondition t cs ty st rsn msg gen) ty st rsn msg gen"
  "ty' \<noteq> ty \<Longrightarrow> says (SetCondition t cs ty st rsn msg gen) ty' st' rsn' msg' gen' = says cs ty' st' rsn' msg' gen'"
  by (simp_all add: says_def cond_of_SetCondition merged_condition_def)

lemma SetCondition_said [simp]:
  assumes "says cs ty st rsn msg gen"
  shows "SetCondition t cs ty st rsn msg gen = cs"
proof -
  have "cond_of cs ty = Some c \<Longrightarrow> cStatus c = st \<Longrightarrow> cReason c = rsn \<Longrightarrow> cMessage c = m
      \<Longrightarrow> cObservedGeneration c = gen \<Longrightarrow> upsert_condition t ty st rsn m gen cs = cs" for c m
    by (induction cs) auto
  then show ?thesis using assms by (auto simp: says_def SetCondition_def)
qed

lemma share_report_same:
  "says (shConditions (ShareStatus s)) ty st rsn msg (Generation s) \<Longrightarrow> share_condition t ty st rsn msg s = s"
  "f (ShareStatus s) = ShareStatus s \<Longrightarrow> share_set_status f s = s"
  by (simp_all add: share_condition_def share_set_status_def)

lemma share_report_simps:
  "ShareStatus (share_set_status f s) = f (ShareStatus s)" "Generation (share_set_status f s) = Generation s"
  "ShareSpec (share_set_status f s) = ShareSpec s" "Generation (share_condition t ty st rsn msg s) = Generation s"
  "ShareSpec (share_condition t ty st rsn msg s) = ShareSpec s"
  "shConditions (ShareStatus (share_condition t ty st rsn msg s)) =
     SetCondition t (shConditions (ShareStatus s)) ty st rsn msg (Generation s)"
  "shObservedGeneration (ShareStatus (share_condition t ty st rsn msg s)) = shObservedGeneration (ShareStatus s)"
  "shShareToken (ShareStatus (share_condition t ty st rsn msg s)) = shShareToken (ShareStatus s)"
  "shFrontendEndpoints (ShareStatus (share_condition t ty st rsn msg s)) = shFrontendEndpoints (ShareStatus s)"
  "shAssignedURL (ShareStatus (share_condition t ty st rsn msg s)) = shAssignedURL (ShareStatus s)"
  "shReservation (ShareStatus (share_condition t ty st rsn msg s)) = shReservation (ShareStatus s)"
  by (simp_all add: share_condition_def share_set_status_def)

lemma share_status_same:
  "shObservedGeneration x = g \<Longrightarrow> x\<lparr>shObservedGeneration := g\<rparr> = x"
  "shReservation x = r \<Longrightarrow> x\<lparr>shReservation := r\<rparr> = x"
  "shObservedGeneration x = g \<Longrightarrow> shShareToken x = tok \<Longrightarrow> shFrontendEndpoints x = eps \<Longrightarrow> shAssignedURL x = url
    \<Longrightarrow> x\<lparr>shObservedGeneration := g, shShareToken := tok, shFrontendEndpoints := eps, shAssignedURL := url\<rparr> = x"
  by auto

definition mark_name :: "string \<Rightarrow> ZrokShare \<Rightarrow> string \<times> string \<times> string" where
  \<comment> \<open>reservation, reason and message with which a ready share reports its name\<close>
  "mark_name mode s =
     (if mode = ShareModePrivate then (ReservationPrivate, ''Private'', ''private share; use ZrokAccess or zrok2 access private'')
      else if (case shNameSelection (ShareSpec s) of Some ns \<Rightarrow> nsName ns \<noteq> [] | None \<Rightarrow> False)
      then (ReservationReserved, ''Ready'', ''name reserved'')
      else (ReservationEphemeral, ''Ephemeral'', ''no reserved name; share will not survive agent restart''))"

lemma mark_ready_steps:
  "mark_ready_mutation mode tok eps url t s =
     (case mark_name mode s of (rv, rsn, msg) \<Rightarrow>
      (None, share_condition (t 3) ConditionReady ConditionTrue ''Ready'' ''share ready''
        (share_condition (t 2) ConditionShareCreated ConditionTrue ''Created'' ''share active''
          (share_condition (t 1) ConditionEnvironmentReady ConditionTrue ''Ready'' ''environment ready''
            (share_condition (t 0) ConditionNameReady ConditionTrue rsn msg
              (share_set_status (\<lambda>x. x\<lparr>shReservation := rv\<rparr>)
                (share_set_status (\<lambda>x. x\<lparr>shObservedGeneration := Generation s, shShareToken := tok,
                   shFrontendEndpoints := eps, shAssignedURL := url\<rparr>) s)))))))"
  by (simp add: mark_ready_mutation_def mark_name_def Let_def share_set_status_def split: option.split)

definition marked_ready :: "string \<Rightarrow> string \<Rightarrow> string list \<Rightarrow> string \<Rightarrow> ZrokShare \<Rightarrow> bool" where
  \<comment> \<open>the status reports the share ready already\<close>
  "marked_ready mode tok eps url s \<longleftrightarrow>
     (case mark_name mode s of (rv, rsn, msg) \<Rightarrow>
        (let st = ShareStatus s in
         shObservedGeneration st = Generation s \<and> shShareToken st = tok \<and> shFrontendEndpoints st = eps
         \<and> shAssignedURL st = url \<and> shReservation st = rv
         \<and> says (shConditions st) ConditionNameReady ConditionTrue rsn msg (Generation s)
         \<and> says (shConditions st) ConditionEnvironmentReady ConditionTrue ''Ready'' ''environment ready'' (Generation s)
         \<and> says (shConditions st) ConditionShareCreated ConditionTrue ''Created'' ''share active'' (Generation s)
         \<and> says (shConditions st) ConditionReady ConditionTrue ''Ready'' ''share ready'' (Generation s)))"

lemma mark_ready_marks: "marked_ready mode tok eps url (snd (mark_ready_mutation mode tok eps url t s))"
proof -
  obtain rv rsn msg where n: "mark_name mode s = (rv, rsn, msg)" by (cases "mark_name mode s") auto
  let ?y = "snd (mark_ready_mutation mode tok eps url t s)"
  have spec: "ShareSpec ?y = ShareSpec s" by (simp add: mark_ready_steps n share_report_simps)
  have "mark_name mode ?y = (rv, rsn, msg)" using n by (simp only: mark_name_def spec)
  then show ?thesis
    unfolding marked_ready_def Let_def by (simp add: mark_ready_steps n share_report_simps)
qed

lemma mark_ready_marked:
  assumes "marked_ready mode tok eps url s"
  shows "mark_ready_mutation mode tok eps url t s = (None, s)"
proof -
  obtain rv rsn msg where n: "mark_name mode s = (rv, rsn, msg)" by (cases "mark_name mode s") auto
  note m = assms [unfolded marked_ready_def n prod.case Let_def]
  have "share_set_status (\<lambda>x. x\<lparr>shObservedGeneration := Generation s, shShareToken := tok,
      shFrontendEndpoints := eps, shAssignedURL := url\<rparr>) s = s"
    using m by (intro share_report_same(2)) (auto intro: share_status_same)
  moreover have "share_set_status (\<lambda>x. x\<lparr>shReservation := rv\<rparr>) s = s"
    using m by (intro share_report_same(2)) (auto intro: share_status_same)
  ultimately show ?thesis using m by (simp add: mark_ready_steps n share_report_same(1))
qed

lemma share_reports_stable:
  "stable (not_ready_mutation rsn msg)" "stable (name_condition_mutation rsn msg)" "stable waiting_mutation"
  "stable clear_binding_mutation" "stable (mark_ready_mutation mode tok eps url)"
  by (simp_all add: stable_def not_ready_mutation_def name_condition_mutation_def waiting_mutation_def
        clear_binding_mutation_def share_observed_def share_condition_def share_set_status_def
        mark_ready_marked [OF mark_ready_marks])

lemma env_reports_stable:
  "stable (env_not_ready_mutation rsn msg)" "stable (set_zid_mutation zid)" "stable (enabled_mutation zid u)"
  "stable (env_waiting_mutation svc)" "stable (env_unreachable_mutation svc msg)" "stable (env_ready_mutation svc)"
  "stable (shares_exist_mutation msg)"
  by (simp_all add: stable_def env_not_ready_mutation_def set_zid_mutation_def enabled_mutation_def
      env_waiting_mutation_def env_unreachable_mutation_def env_ready_mutation_def shares_exist_mutation_def
      Let_def env_condition_def env_set_status_def)

lemma access_reports_stable:
  "stable (access_not_ready_mutation rsn msg)" "stable (access_ready_mutation tok ep)" "stable access_clear_mutation"
  by (simp_all add: stable_def access_not_ready_mutation_def access_ready_mutation_def access_clear_mutation_def
      access_condition_def access_set_status_def)

end
