(* ===== verification/Cluster.thy ===== *)
theory Cluster
  imports Store
begin

text \<open>
  The objects of a cluster after a history, of all kinds and possibly absent, and a client that
  answers from them. The progress of environments, whose reconciler creates the objects of an agent,
  is stated over it.
\<close>

section \<open>The cluster after a history\<close>

type_synonym cluster = "okind \<times> key \<Rightarrow> object option"

fun deleted :: "event \<Rightarrow> (okind \<times> key) option" where
  \<comment> \<open>the object the server has deleted\<close>
  "deleted (Delete kd k None) = Some (kd, k)"
| "deleted _ = None"

definition effect :: "event \<Rightarrow> cluster \<Rightarrow> cluster" where
  "effect e st = (case written e of Some x \<Rightarrow> st(object_id x \<mapsto> x)
     | None \<Rightarrow> (case deleted e of Some i \<Rightarrow> st(i := None) | None \<Rightarrow> st))"

definition cluster_after :: "cluster \<Rightarrow> event list \<Rightarrow> cluster" where
  "cluster_after w h = fold effect h w"

lemma cluster_after_simps [simp]:
  "cluster_after w [] = w"
  "cluster_after w (h @ [e]) = effect e (cluster_after w h)"
  by (simp_all add: cluster_after_def)

lemma effect_calm: "written e = None \<Longrightarrow> deleted e = None \<Longrightarrow> effect e st = st"
  by (simp add: effect_def)

lemma effect_simps [simp]:
  "effect (Get kd k r) st = st"
  "effect (Create x (Inr y)) st = st(object_id y \<mapsto> y)"
  "effect (Update x (Inr y)) st = st(object_id y \<mapsto> y)"
  "effect (StatusPatch b x (Inr y)) st = st(object_id y \<mapsto> y)"
  "effect (Delete kd k None) st = st((kd, k) := None)"
  "effect (RestEnable ep tok hst desc r') st = st"
  "effect (AgentStatus addr r'') st = st"
  "effect (Recorded kd k ty rsn act note) st = st"
  "effect (SetEnvironmentReady ns n b') st = st"
  by (simp_all add: effect_def)

definition grown :: "cluster \<Rightarrow> event list \<Rightarrow> event list \<Rightarrow> cluster \<Rightarrow> bool" where
  \<comment> \<open>\<open>h'\<close> goes on from \<open>h\<close>, enables nothing, and leaves the cluster \<open>st\<close>\<close>
  "grown w h h' st \<longleftrightarrow> (\<exists>es. h' = h @ es \<and> list_all no_enable es) \<and> cluster_after w h' = st"

lemma grown_cluster: "grown w h h' st \<Longrightarrow> cluster_after w h' = st"
  by (simp add: grown_def)

lemma grown_refl [simp]: "grown w h h (cluster_after w h)"
  by (simp add: grown_def)

lemma grown_event:
  "grown w h h' st \<Longrightarrow> no_enable e \<Longrightarrow> grown w h (h' @ [e]) (effect e st)"
  unfolding grown_def by auto

lemma grown_trans: "grown w h h' st \<Longrightarrow> grown w h' h'' st' \<Longrightarrow> grown w h h'' st'"
  unfolding grown_def by auto

section \<open>A client that answers from the cluster\<close>

definition answers ::
  "cluster \<Rightarrow> ('o ObjectMeta_scheme \<Rightarrow> 'o ObjectMeta_scheme \<Rightarrow> bool) \<Rightarrow> okind \<Rightarrow> ('o ObjectMeta_scheme \<Rightarrow> object)
    \<Rightarrow> 'o ObjectMeta_scheme client \<Rightarrow> key \<Rightarrow> bool"
where
  \<comment> \<open>reads of an object show its last version up to \<open>view\<close>, by which others may have changed it;
     writes are accepted, and a creation if the object is absent\<close>
  "answers w view kd wrap c k \<longleftrightarrow>
     (\<forall>h. case cluster_after w h (kd, k) of
        None \<Rightarrow> (\<exists>e. cGet c h k = Inl e \<and> IsNotFound e) \<and> (\<forall>x. object_key x = k \<longrightarrow> cCreate c h x = Inr x)
      | Some obj \<Rightarrow> (\<forall>x. obj = wrap x \<longrightarrow> (\<exists>y. cGet c h k = Inr y \<and> view x y)))
     \<and> (\<forall>h x. object_key x = k \<longrightarrow> cUpdate c h x = Inr x \<and> (\<forall>b. cStatusPatch c h b x = Inr x))
     \<and> (\<forall>h. cDelete c h k = None)"

lemma answers_absent:
  assumes "answers w view kd wrap c k" and "cluster_after w h (kd, k) = None"
  shows "\<exists>e. cGet c h k = Inl e \<and> IsNotFound e" and "object_key x = k \<Longrightarrow> cCreate c h x = Inr x"
proof -
  have "case cluster_after w h (kd, k) of
        None \<Rightarrow> (\<exists>e. cGet c h k = Inl e \<and> IsNotFound e) \<and> (\<forall>x. object_key x = k \<longrightarrow> cCreate c h x = Inr x)
      | Some obj \<Rightarrow> (\<forall>x. obj = wrap x \<longrightarrow> (\<exists>y. cGet c h k = Inr y \<and> view x y))"
    using assms(1) unfolding answers_def by blast
  then show "\<exists>e. cGet c h k = Inl e \<and> IsNotFound e" and "object_key x = k \<Longrightarrow> cCreate c h x = Inr x"
    using assms(2) by auto
qed

lemma answers_present:
  assumes "answers w view kd wrap c k" and "cluster_after w h (kd, k) = Some (wrap x)"
  shows "\<exists>y. cGet c h k = Inr y \<and> view x y"
proof -
  have "case cluster_after w h (kd, k) of
        None \<Rightarrow> (\<exists>e. cGet c h k = Inl e \<and> IsNotFound e) \<and> (\<forall>x. object_key x = k \<longrightarrow> cCreate c h x = Inr x)
      | Some obj \<Rightarrow> (\<forall>x. obj = wrap x \<longrightarrow> (\<exists>y. cGet c h k = Inr y \<and> view x y))"
    using assms(1) unfolding answers_def by blast
  then show ?thesis using assms(2) by auto
qed

lemma answers_writes:
  assumes "answers w view kd wrap c k"
  shows "object_key x = k \<Longrightarrow> cUpdate c h x = Inr x" "object_key x = k \<Longrightarrow> cStatusPatch c h b x = Inr x"
    and "cDelete c h k = None"
  using assms unfolding answers_def by blast+

section \<open>Rules\<close>

lemma wp_get_absent:
  assumes "answers w view kd wrap c k" and "cluster_after w h (kd, k) = None"
    and "\<And>e. IsNotFound e \<Longrightarrow> Q (Inl e) (h @ [Get kd k (Inl e)])"
  shows "wp (k8s_get kd wrap c k) Q h"
  using answers_absent(1) [OF assms(1,2)] assms(3) by (auto simp: k8s_get_def)

lemma wp_get_present:
  assumes "answers w view kd wrap c k" and "cluster_after w h (kd, k) = Some (wrap x)"
    and "\<And>y. view x y \<Longrightarrow> Q (Inr y) (h @ [Get kd k (Inr (wrap y))])"
  shows "wp (k8s_get kd wrap c k) Q h"
  using answers_present [OF assms(1,2)] assms(3) by (auto simp: k8s_get_def)

lemma wp_create_absent:
  assumes "answers w view kd wrap c (object_key x)" and "cluster_after w h (kd, object_key x) = None"
    and "Q (None, x) (h @ [Create (wrap x) (Inr (wrap x))])"
  shows "wp (k8s_create wrap c x) Q h"
  using answers_absent(2) [OF assms(1,2)] assms(3) by (simp add: k8s_create_def)

lemma wp_update:
  assumes "answers w view kd wrap c (object_key x)" and "Q (None, x) (h @ [Update (wrap x) (Inr (wrap x))])"
  shows "wp (k8s_update wrap c x) Q h"
  using answers_writes(1) [OF assms(1) refl] assms(2) by (simp add: k8s_update_def)

lemma wp_delete:
  assumes "answers w view kd wrap c k" and "Q None (h @ [Delete kd k None])"
  shows "wp (k8s_delete kd c k) Q h"
  using answers_writes(3) [OF assms(1)] assms(2) by (simp add: k8s_delete_def)

lemma wp_patch_present:
  assumes ans: "answers w (=) kd wrap c (object_key x)" and there: "cluster_after w h (kd, object_key x) = Some (wrap y)"
    and keys: "object_key y = object_key x" "\<And>t. object_key (snd (m t y)) = object_key x" and total: "total_mutation m"
    and Q: "\<And>t. Q (None, snd (m t y)) (h @ [Get kd (object_key x) (Inr (wrap y)),
       StatusPatch (wrap y) (wrap (snd (m t y))) (Inr (wrap (snd (m t y))))])"
  shows "wp (PatchStatus A kd wrap c x m) Q h"
proof -
  let ?g = "Get kd (object_key x) (Inr (wrap y))"
  let ?t = "now A (h @ [?g])"
  let ?z = "snd (m ?t y)"
  let ?p = "StatusPatch (wrap y) (wrap ?z) (Inr (wrap ?z))"
  obtain z where z: "m ?t y = (None, z)" using total by (metis prod.collapse total_mutation_def)
  have "cGet c h (object_key x) = Inr y" using answers_present [OF ans there] by auto
  moreover have "cStatusPatch c h' b z = Inr z" for h' b
    using answers_writes(2) [OF ans] keys(2) [of ?t] z by simp
  ultimately have "run_state (patch_attempt A kd wrap c (object_key x) m x) h = ((None, ?z), h @ [?g, ?p])"
    by (simp add: patch_attempt_def k8s_get_def k8s_status_patch_def z)
  then have "run_state (PatchStatus A kd wrap c x m) h = ((None, ?z), h @ [?g, ?p])"
    by (cases "retrySteps A") (auto simp: PatchStatus_def)
  then show ?thesis using Q by (simp add: wp_def)
qed

text \<open>A client over a cluster, for the witnesses.\<close>

definition cluster_client :: "cluster \<Rightarrow> okind \<Rightarrow> (object \<Rightarrow> 'o ObjectMeta_scheme option) \<Rightarrow> 'o ObjectMeta_scheme client" where
  "cluster_client w kd unwrap =
     \<lparr>cGet = (\<lambda>h k. case Option.bind (cluster_after w h (kd, k)) unwrap of Some y \<Rightarrow> Inr y | None \<Rightarrow> Inl lab_missing),
      cCreate = (\<lambda>h x. if cluster_after w h (kd, object_key x) = None then Inr x
                        else Inl (GoError AlreadyExists ''already exists'')),
      cUpdate = (\<lambda>h x. Inr x), cPatch = (\<lambda>h b x. Inr x), cStatusPatch = (\<lambda>h b x. Inr x), cDelete = (\<lambda>h k. None)\<rparr>"

lemma cluster_client_answers:
  "(\<And>x. unwrap (wrap x) = Some x) \<Longrightarrow> (\<And>x. view x x) \<Longrightarrow> answers w view kd wrap (cluster_client w kd unwrap) k"
  by (auto simp: answers_def cluster_client_def lab_missing_def IsNotFound_def split: option.split)

end
