(* ===== verification/EnvAgent.thy ===== *)
theory EnvAgent
  imports Cluster EnvSafety
begin

text \<open>
  The states of a cluster from which an environment is brought up, and the second half of its
  reconcile over them: the objects of the agent are created or put right, and the status reports
  what was seen of the agent.
\<close>

section \<open>The world\<close>

definition same_env :: "ZrokEnvironment \<Rightarrow> ZrokEnvironment \<Rightarrow> bool" where
  \<comment> \<open>up to status and finalizers\<close>
  "same_env a b \<longleftrightarrow> object_key a = object_key b \<and> UID a = UID b \<and> Generation a = Generation b
     \<and> EnvSpec a = EnvSpec b \<and> DeletionTimestamp a = DeletionTimestamp b"

abbreviation env_id where "env_id env \<equiv> (KEnv, object_key env)"
abbreviation identity_id where "identity_id env \<equiv> (KSecret, (Namespace env, IdentitySecretName env))"
abbreviation pvc_id where "pvc_id env \<equiv> (KPVC, (Namespace env, PVCName env))"
abbreviation service_id where "service_id env \<equiv> (KService, (Namespace env, ServiceName env))"
abbreviation deployment_id where "deployment_id env \<equiv> (KDeployment, (Namespace env, DeploymentName env))"
abbreviation policy_id where "policy_id env \<equiv> (KNetworkPolicy, (Namespace env, NetworkPolicyName env))"

definition same_deployment :: "Deployment \<Rightarrow> Deployment \<Rightarrow> bool" where
  \<comment> \<open>up to the numbers of replicas, which the cluster reports\<close>
  "same_deployment a b \<longleftrightarrow> (\<exists>r u. b = a\<lparr>depReadyReplicas := r, depUpdatedReplicas := u\<rparr>)"

definition absent_or :: "object option \<Rightarrow> (object \<Rightarrow> bool) \<Rightarrow> bool" where
  "absent_or obj P \<longleftrightarrow> (case obj of None \<Rightarrow> True | Some x \<Rightarrow> P x)"

definition good_identity :: "ZrokEnvironment \<Rightarrow> Secret \<Rightarrow> bool" where
  \<comment> \<open>an identity Secret that the environment made, or would adopt\<close>
  "good_identity env s \<longleftrightarrow> IsControlledBy s env \<and> lookup_str (Data s) ''envZID'' \<noteq> []"

definition env_state :: "ZrokEnvironment \<Rightarrow> ZrokEnvironment \<Rightarrow> cluster \<Rightarrow> bool" where
  \<comment> \<open>the environment is stored as \<open>e\<close>; each of its objects may be missing, planted or changed, but
     the identity, if it is the environment's own, is the one its status tells of, if it tells of one\<close>
  "env_state env e st \<longleftrightarrow>
     st (env_id env) = Some (EnvObj e) \<and> same_env e env
     \<and> absent_or (st (identity_id env)) (\<lambda>x. \<exists>s. x = SecretObj s \<and> object_key s = snd (identity_id env)
          \<and> (good_identity env s \<longrightarrow> enEnvZID (EnvStatus e) \<in> {[], lookup_str (Data s) ''envZID''}))
     \<and> absent_or (st (pvc_id env)) (\<lambda>x. \<exists>p. x = PVCObj p)
     \<and> absent_or (st (service_id env)) (\<lambda>x. \<exists>s. x = ServiceObj s \<and> object_key s = snd (service_id env))
     \<and> absent_or (st (deployment_id env)) (\<lambda>x. \<exists>d. x = DeploymentObj d \<and> object_key d = snd (deployment_id env))
     \<and> absent_or (st (policy_id env)) (\<lambda>x. \<exists>p. x = NetworkPolicyObj p \<and> object_key p = snd (policy_id env))"

fun identity_bad :: "ZrokEnvironment \<Rightarrow> object option \<Rightarrow> bool" where
  "identity_bad env (Some (SecretObj s)) = (\<not> good_identity env s)"
| "identity_bad env _ = False"

fun service_bad :: "object option \<Rightarrow> bool" where
  "service_bad (Some (ServiceObj s)) = hijackedAgentService s"
| "service_bad _ = False"

definition to_repair :: "ZrokEnvironment \<Rightarrow> ZrokEnvironment \<Rightarrow> cluster \<Rightarrow> nat" where
  \<comment> \<open>what costs a reconcile of its own: the finalizer, a planted identity, a hijacked Service\<close>
  "to_repair env e st = of_bool (\<not> ContainsFinalizer e EnvironmentFinalizer)
     + of_bool (identity_bad env (st (identity_id env))) + of_bool (service_bad (st (service_id env)))"

definition cluster_serves :: "api \<Rightarrow> cluster \<Rightarrow> ZrokEnvironment \<Rightarrow> bool" where
  "cluster_serves A w env \<longleftrightarrow>
     answers w (=) KEnv EnvObj (apiEnvs A) (object_key env)
     \<and> answers w (=) KSecret SecretObj (apiSecrets A) (Namespace env, IdentitySecretName env)
     \<and> answers w (=) KPVC PVCObj (apiPVCs A) (Namespace env, PVCName env)
     \<and> answers w (=) KService ServiceObj (apiServices A) (Namespace env, ServiceName env)
     \<and> answers w same_deployment KDeployment DeploymentObj (apiDeployments A) (Namespace env, DeploymentName env)
     \<and> answers w (=) KNetworkPolicy NetworkPolicyObj (apiNetworkPolicies A) (Namespace env, NetworkPolicyName env)"

definition enable_answers :: "api \<Rightarrow> ZrokEnvironment \<Rightarrow> bool" where
  \<comment> \<open>the environment has a unique id, or the cluster one, and the zrok controller enables it\<close>
  "enable_answers A env \<longleftrightarrow>
     (enUniqueID (EnvSpec env) \<noteq> [] \<or>
        (\<exists>ns. serves (apiNamespaces A) ([], DefaultUniqueIDNamespace) ns \<and> UID ns \<noteq> []))
     \<and> (\<forall>h tok hst desc. \<exists>zid cfg. restEnable A h (env_apiEndpoint env) tok hst desc = Inr (zid, cfg) \<and> zid \<noteq> [])"

definition env_wanted :: "api \<Rightarrow> EnvConfig \<Rightarrow> cluster \<Rightarrow> ZrokEnvironment \<Rightarrow> Secret \<Rightarrow> bool" where
  "env_wanted A cfg w env secret \<longleftrightarrow>
     cluster_serves A w env \<and> env_state env env w \<and> refs_accepted A \<and> DeletionTimestamp env = None
     \<and> serves (apiSecrets A) (Namespace env, skName (enEnableTokenSecretRef (EnvSpec env))) secret
     \<and> lookup_str (Data secret) (if skKey (enEnableTokenSecretRef (EnvSpec env)) = [] then DefaultEnableTokenKey
          else skKey (enEnableTokenSecretRef (EnvSpec env))) \<noteq> []
     \<and> ImageAllowed (agImage (enAgent (EnvSpec env))) (AllowedAgentImages cfg)
     \<and> enable_answers A env"

text \<open>What a reconcile sees of the agent: the last reading of the Deployment or of the agent.\<close>

fun agent_reading :: "event \<Rightarrow> bool option" where
  "agent_reading (Get kd k (Inr (DeploymentObj d))) = Some (depReadyReplicas d \<ge> 1 \<and> depUpdatedReplicas d \<ge> 1)"
| "agent_reading (AgentStatus addr r) = Some (case r of Inl _ \<Rightarrow> False | Inr _ \<Rightarrow> True)"
| "agent_reading _ = None"

definition agent_seen_up :: "event list \<Rightarrow> bool" where
  "agent_seen_up h \<longleftrightarrow> (\<exists>rs. List.map_filter agent_reading h = rs @ [True])"

definition enabled_times :: "event list \<Rightarrow> nat" where
  "enabled_times h = length (filter (\<lambda>e. \<not> no_enable e) h)"

definition agent_objects_there :: "EnvConfig \<Rightarrow> ZrokEnvironment \<Rightarrow> cluster \<Rightarrow> bool" where
  "agent_objects_there cfg env st \<longleftrightarrow>
     (\<exists>p. st (pvc_id env) = Some (PVCObj p))
     \<and> (\<exists>s. st (service_id env) = Some (ServiceObj s) \<and> ssSelector (SvcSpec s) = ssSelector (SvcSpec (DesiredService env))
           \<and> ssPorts (SvcSpec s) = ssPorts (SvcSpec (DesiredService env)) \<and> \<not> hijackedAgentService s)
     \<and> (\<exists>d. st (deployment_id env) = Some (DeploymentObj d) \<and> DepSpec d = DepSpec (DesiredDeployment env)
           \<and> Labels d = Labels (DesiredDeployment env))
     \<and> (if AgentNetworkPolicy cfg
        then \<exists>p. st (policy_id env) = Some (NetworkPolicyObj p)
               \<and> NPSpec p = NPSpec (DesiredNetworkPolicy env (ManagerNamespace cfg) (ManagerAppName cfg))
        else st (policy_id env) = None)"

definition env_up :: "EnvConfig \<Rightarrow> cluster \<Rightarrow> ZrokEnvironment \<Rightarrow> outcome \<Rightarrow> event list \<Rightarrow> bool" where
  \<comment> \<open>enabled once, with an identity and an agent, and \<open>Ready\<close> just if the agent was seen up\<close>
  "env_up cfg w env out h \<longleftrightarrow>
     (let st = cluster_after w h in
      (\<exists>e s. st (env_id env) = Some (EnvObj e) \<and> same_env e env
         \<and> st (identity_id env) = Some (SecretObj s) \<and> IsControlledBy s env
         \<and> lookup_str (Data s) ''envZID'' = enEnvZID (EnvStatus e) \<and> enEnvZID (EnvStatus e) \<noteq> []
         \<and> enObservedGeneration (EnvStatus e) = Generation env
         \<and> env_is_ready e = agent_seen_up h)
      \<and> agent_objects_there cfg env st \<and> enabled_times h \<le> 1
      \<and> out = (requeue_after (if agent_seen_up h then 120 else 10), None))"


lemma same_env_fields:
  assumes "same_env a b"
  shows "Name a = Name b" "Namespace a = Namespace b" "object_key a = object_key b" "UID a = UID b"
    "Generation a = Generation b" "EnvSpec a = EnvSpec b" "DeletionTimestamp a = DeletionTimestamp b"
  using assms by (simp_all add: same_env_def object_key_def)

lemma same_env_computes:
  assumes "same_env a b"
  shows "IdentitySecretName a = IdentitySecretName b" "DesiredPVC a = DesiredPVC b"
    "DesiredService a = DesiredService b" "DesiredDeployment a = DesiredDeployment b"
    "DesiredNetworkPolicy a ns app = DesiredNetworkPolicy b ns app"
    "NetworkPolicyName a = NetworkPolicyName b" "DeploymentName a = DeploymentName b"
    "env_apiEndpoint a = env_apiEndpoint b" "AgentDialAddr a = AgentDialAddr b"
  by (simp_all add: same_env_fields [OF assms] IdentitySecretName_def DesiredPVC_def DesiredService_def
      DesiredDeployment_def DesiredNetworkPolicy_def NetworkPolicyName_def DeploymentName_def env_apiEndpoint_def
      AgentDialAddr_def PVCName_def ServiceName_def agent_Labels_def agent_Image_def GRPCPort_def
      agent_container_def proxy_container_def agent_resources_def ConsolePort_def)

lemma enabled_times_grown: "grown w h h' st \<Longrightarrow> enabled_times h' = enabled_times h"
  by (auto simp: grown_def enabled_times_def list_all_iff)

lemma enabled_times_append: "enabled_times (h @ h') = enabled_times h + enabled_times h'"
  by (simp add: enabled_times_def)

section \<open>The agent's objects\<close>

lemma absent_or_cases:
  assumes "absent_or obj P"
  obtains "obj = None" | x where "obj = Some x" "P x"
  using assms by (cases obj) (auto simp: absent_or_def)

lemma desired_policy_key: "object_key (DesiredNetworkPolicy env ns app) = (Namespace env, NetworkPolicyName env)"
  by (simp add: object_key_def DesiredNetworkPolicy_def new_meta_def ObjectMeta.defs Let_def)

lemma SetControllerReference_accepted:
  "refs_accepted A \<Longrightarrow> SetControllerReference A owner obj = Inr (obj\<lparr>ControllerRef := Some (UID owner)\<rparr>)"
  by (simp add: SetControllerReference_def refs_accepted_def)

lemma wp_ret_fun: "wp (ret x) Q = Q x"
  by (rule ext) simp

text \<open>Every object of the agent is read, and created if it is missing.\<close>

lemma wp_get_or_create:
  assumes ans: "answers w view kd wrap c (object_key d)" and id: "object_id (wrap d) = (kd, object_key d)"
    and there: "absent_or (cluster_after w h (kd, object_key d)) (\<lambda>obj. \<exists>x. obj = wrap x \<and> P x)"
    and Q: "\<And>h'. cluster_after w h (kd, object_key d) = None
      \<Longrightarrow> grown w h h' ((cluster_after w h)((kd, object_key d) \<mapsto> wrap d)) \<Longrightarrow> Q None h'"
    and f: "\<And>x y. cluster_after w h (kd, object_key d) = Some (wrap x) \<Longrightarrow> P x \<Longrightarrow> view x y
      \<Longrightarrow> wp (f y) Q (h @ [Get kd (object_key d) (Inr (wrap y))])"
  shows "wp (k8s_get kd wrap c (object_key d)) (\<lambda>r. wp (case r of
      Inl e \<Rightarrow> if IsNotFound e then create_if_absent wrap c d else ret (Some e) | Inr y \<Rightarrow> f y) Q) h"
  using there
proof (cases rule: absent_or_cases)
  case 1
  have "wp (create_if_absent wrap c d) Q (h @ [Get kd (object_key d) (Inl e)])" for e
    unfolding create_if_absent_def wp_bind
  proof (rule wp_create_absent [OF ans])
    show "wp (case (None, d) of (err, x) \<Rightarrow> ret (ignoreAlreadyExists err)) Q
        ((h @ [Get kd (object_key d) (Inl e)]) @ [Create (wrap d) (Inr (wrap d))])"
      using Q [of "h @ [Get kd (object_key d) (Inl e), Create (wrap d) (Inr (wrap d))]"] id 1
      by (simp add: ignoreAlreadyExists_def grown_def cluster_after_def)
  qed (simp add: 1)
  then show ?thesis by (intro wp_get_absent [OF ans 1]) simp
next
  case (2 obj)
  then obtain x where "cluster_after w h (kd, object_key d) = Some (wrap x)" "P x" by blast
  then show ?thesis using f by (intro wp_get_present [OF ans]) auto
qed

lemma wp_ensurePVC:
  assumes ans: "answers w (=) KPVC PVCObj (apiPVCs A) (Namespace env, PVCName env)" and refs: "refs_accepted A"
    and same: "same_env e env" and there: "absent_or (cluster_after w h (pvc_id env)) (\<lambda>x. \<exists>p. x = PVCObj p)"
    and Q: "\<And>p h'. grown w h h' ((cluster_after w h)(pvc_id env \<mapsto> PVCObj p)) \<Longrightarrow> Q None h'"
  shows "wp (ensurePVC A e) Q h"
proof -
  let ?d = "DesiredPVC env\<lparr>ControllerRef := Some (UID e)\<rparr>"
  have k [simp]: "object_key ?d = (Namespace env, PVCName env)" by (simp add: desired_keys)
  have "grown w h (h @ [Get KPVC (Namespace env, PVCName env) (Inr (PVCObj p))]) ((cluster_after w h)(pvc_id env \<mapsto> PVCObj p))"
    if "cluster_after w h (pvc_id env) = Some (PVCObj p)" for p
    using that by (simp add: grown_def fun_upd_idem)
  then show ?thesis
    unfolding ensurePVC_def SetControllerReference_accepted [OF refs] sum.case wp_bind same_env_computes [OF same]
    using ans there Q by (intro wp_get_or_create [where w = w and view = "(=)" and P = "\<lambda>_. True"]) (auto simp: desired_keys)
qed

lemma wp_ensureService:
  assumes ans: "answers w (=) KService ServiceObj (apiServices A) (Namespace env, ServiceName env)" and refs: "refs_accepted A"
    and same: "same_env e env"
    and there: "absent_or (cluster_after w h (service_id env)) (\<lambda>x. \<exists>s. x = ServiceObj s \<and> object_key s = snd (service_id env))"
    and bad: "\<And>er h'. service_bad (cluster_after w h (service_id env)) \<Longrightarrow> grown w h h' ((cluster_after w h)(service_id env := None))
      \<Longrightarrow> Q (Some er) h'"
    and good: "\<And>s h'. \<not> service_bad (cluster_after w h (service_id env))
      \<Longrightarrow> grown w h h' ((cluster_after w h)(service_id env \<mapsto> ServiceObj s)) \<Longrightarrow> object_key s = snd (service_id env)
      \<Longrightarrow> ssSelector (SvcSpec s) = ssSelector (SvcSpec (DesiredService env))
      \<Longrightarrow> ssPorts (SvcSpec s) = ssPorts (SvcSpec (DesiredService env)) \<Longrightarrow> \<not> hijackedAgentService s \<Longrightarrow> Q None h'"
  shows "wp (ensureService A e) Q h"
proof -
  let ?k = "(Namespace env, ServiceName env)" and ?st = "cluster_after w h"
  let ?d = "DesiredService env\<lparr>ControllerRef := Some (UID e)\<rparr>"
  let ?spec = "\<lambda>d. \<lparr>ssType = ServiceTypeClusterIP, ssSelector = ssSelector (SvcSpec d), ssPorts = ssPorts (SvcSpec d), ssExternalName = []\<rparr>"
  have k: "object_key ?d = ?k" by (simp add: desired_keys)
  have spec: "?spec ?d = SvcSpec (DesiredService env)" by (simp add: desired_service [symmetric])
  have ok: "\<not> hijackedAgentService s" if "SvcSpec s = SvcSpec (DesiredService env)" for s
    using that by (simp add: hijackedAgentService_def desired_service)
  have created: "Q None h'" if "grown w h h' (?st(service_id env \<mapsto> ServiceObj ?d))" "?st (service_id env) = None" for h'
    by (rule good [OF _ that(1)]) (simp_all add: desired_keys ok that(2))
  have found: "wp (if hijackedAgentService s
      then do { err \<leftarrow> k8s_delete KService (apiServices A) (object_key s);
                case err of Some er \<Rightarrow> ret (Some er)
                | None \<Rightarrow> ret (Some (errorf (''deleted non-ClusterIP agent Service '' @ Name s @ ''; will recreate''))) }
      else if ssSelector (SvcSpec s) = ssSelector (SvcSpec ?d) \<and> ssPorts (SvcSpec s) = ssPorts (SvcSpec ?d)
              \<and> ssType (SvcSpec s) = ServiceTypeClusterIP then ret None
      else do { (err, _) \<leftarrow> k8s_update ServiceObj (apiServices A) (s\<lparr>SvcSpec := ?spec ?d\<rparr>); ret err })
      Q (h @ [Get KService ?k (Inr (ServiceObj s))])"
    if st: "?st (service_id env) = Some (ServiceObj s)" and key: "object_key s = ?k" for s
  proof (cases "hijackedAgentService s")
    case True
    have "grown w h ((h @ [Get KService ?k (Inr (ServiceObj s))]) @ [Delete KService ?k None]) (?st(service_id env := None))"
      by (simp add: grown_def cluster_after_def)
    with True show ?thesis using bad st ans unfolding key by (auto intro!: wp_delete)
  next
    case False
    have same: "grown w h (h @ [Get KService ?k (Inr (ServiceObj s))]) (?st(service_id env \<mapsto> ServiceObj s))"
      using st by (simp add: grown_def fun_upd_idem)
    let ?s = "s\<lparr>SvcSpec := ?spec ?d\<rparr>"
    have key': "object_key ?s = ?k" using key by (simp add: object_key_def)
    have "grown w h ((h @ [Get KService ?k (Inr (ServiceObj s))]) @ [Update (ServiceObj ?s) (Inr (ServiceObj ?s))])
        (?st(service_id env \<mapsto> ServiceObj ?s))"
      using key' by (simp add: grown_def cluster_after_def)
    then have "wp (k8s_update ServiceObj (apiServices A) ?s) (\<lambda>y. Q (fst y)) (h @ [Get KService ?k (Inr (ServiceObj s))])"
      using good [of _ ?s] False st spec ok [of ?s] key' ans by (intro wp_update) auto
    then show ?thesis using False good [OF _ same] key st by (auto simp: case_prod_beta wp_ret_fun)
  qed
  show ?thesis
    unfolding ensureService_def SetControllerReference_accepted [OF refs] sum.case wp_bind same_env_computes [OF same]
    using ans there created found k
    by (intro wp_get_or_create [where w = w and view = "(=)" and P = "\<lambda>s. object_key s = ?k"])
       (auto simp del: Service.simps)
qed

lemma wp_ensureDeployment:
  assumes ans: "answers w same_deployment KDeployment DeploymentObj (apiDeployments A) (Namespace env, DeploymentName env)"
    and refs: "refs_accepted A" and same: "same_env e env"
    and there: "absent_or (cluster_after w h (deployment_id env))
      (\<lambda>x. \<exists>d. x = DeploymentObj d \<and> object_key d = snd (deployment_id env))"
    and Q: "\<And>d h'. grown w h h' ((cluster_after w h)(deployment_id env \<mapsto> DeploymentObj d))
      \<Longrightarrow> object_key d = snd (deployment_id env) \<Longrightarrow> DepSpec d = DepSpec (DesiredDeployment env)
      \<Longrightarrow> Labels d = Labels (DesiredDeployment env) \<Longrightarrow> Q None h'"
  shows "wp (ensureDeployment A e) Q h"
proof -
  let ?k = "(Namespace env, DeploymentName env)" and ?st = "cluster_after w h"
  let ?d = "DesiredDeployment env\<lparr>ControllerRef := Some (UID e)\<rparr>"
  have k: "object_key ?d = ?k" by (simp add: desired_keys)
  have created: "Q None h'" if "grown w h h' (?st(deployment_id env \<mapsto> DeploymentObj ?d))" for h'
    by (rule Q [OF that]) (simp_all add: desired_keys)
  have found: "wp (if DepSpec y = DepSpec ?d \<and> Labels y = Labels ?d then ret None
      else do { (err, _) \<leftarrow> k8s_update DeploymentObj (apiDeployments A) (y\<lparr>DepSpec := DepSpec ?d, Labels := Labels ?d\<rparr>); ret err })
      Q (h @ [Get KDeployment ?k (Inr (DeploymentObj y))])"
    if st: "?st (deployment_id env) = Some (DeploymentObj x)" and key: "object_key x = ?k" and view: "same_deployment x y" for x y
  proof -
    have view': "DepSpec y = DepSpec x" "Labels y = Labels x" "object_key y = object_key x"
      using view by (auto simp: same_deployment_def object_key_def)
    have same: "grown w h (h @ [Get KDeployment ?k (Inr (DeploymentObj y))]) (?st(deployment_id env \<mapsto> DeploymentObj x))"
      using st by (simp add: grown_def fun_upd_idem)
    let ?y = "y\<lparr>DepSpec := DepSpec ?d, Labels := Labels ?d\<rparr>"
    have key': "object_key ?y = ?k" using key view' by (simp add: object_key_def)
    have "grown w h ((h @ [Get KDeployment ?k (Inr (DeploymentObj y))]) @ [Update (DeploymentObj ?y) (Inr (DeploymentObj ?y))])
        (?st(deployment_id env \<mapsto> DeploymentObj ?y))"
      using key' by (simp add: grown_def cluster_after_def)
    then have "wp (k8s_update DeploymentObj (apiDeployments A) ?y) (\<lambda>y. Q (fst y)) (h @ [Get KDeployment ?k (Inr (DeploymentObj y))])"
      using Q [of _ ?y] key' ans by (intro wp_update) auto
    then show ?thesis using Q [OF same] key view' by (auto simp: case_prod_beta wp_ret_fun)
  qed
  show ?thesis
    unfolding ensureDeployment_def SetControllerReference_accepted [OF refs] sum.case wp_bind same_env_computes [OF same]
    using ans there created found k
    by (intro wp_get_or_create [where w = w and view = same_deployment and P = "\<lambda>s. object_key s = ?k"]) auto
qed

lemma wp_no_policy:
  assumes ans: "answers w (=) KNetworkPolicy NetworkPolicyObj (apiNetworkPolicies A) (Namespace env, NetworkPolicyName env)"
    and same: "same_env e env" and off: "\<not> AgentNetworkPolicy cfg"
    and there: "absent_or (cluster_after w h (policy_id env))
      (\<lambda>x. \<exists>p. x = NetworkPolicyObj p \<and> object_key p = snd (policy_id env))"
    and Q: "\<And>h'. grown w h h' ((cluster_after w h)(policy_id env := None)) \<Longrightarrow> Q None h'"
  shows "wp (ensureNetworkPolicy A cfg e) Q h"
proof -
  let ?k = "(Namespace env, NetworkPolicyName env)" and ?st = "cluster_after w h"
  have "wp (getNetworkPolicy A ?k) (\<lambda>r. wp (case r of
        Inl e \<Rightarrow> ret (IgnoreNotFound e)
      | Inr x \<Rightarrow> do { err \<leftarrow> k8s_delete KNetworkPolicy (apiNetworkPolicies A) (object_key x);
                      ret (case err of None \<Rightarrow> None | Some e \<Rightarrow> IgnoreNotFound e) }) Q) h"
    using there
  proof (cases rule: absent_or_cases)
    case 1
    have "grown w h (h @ [Get KNetworkPolicy ?k (Inl er)]) (?st(policy_id env := None))" for er
      using 1 by (simp add: grown_def fun_upd_idem)
    then show ?thesis
      using Q by (intro wp_get_absent [OF ans 1]) (auto simp: IgnoreNotFound_def)
  next
    case (2 x)
    then obtain p where p: "?st (policy_id env) = Some (NetworkPolicyObj p)" "object_key p = ?k" by auto
    let ?h = "h @ [Get KNetworkPolicy ?k (Inr (NetworkPolicyObj p))]"
    have "grown w h (?h @ [Delete KNetworkPolicy ?k None]) (?st(policy_id env := None))"
      by (simp add: grown_def cluster_after_def)
    then have "wp (k8s_delete KNetworkPolicy (apiNetworkPolicies A) ?k)
        (\<lambda>err. wp (ret (case err of None \<Rightarrow> None | Some e \<Rightarrow> IgnoreNotFound e)) Q) ?h"
      using Q by (intro wp_delete [OF ans]) auto
    then show ?thesis using p(2) by (intro wp_get_present [OF ans p(1)]) auto
  qed
  then show ?thesis
    unfolding ensureNetworkPolicy_def wp_bind same_env_computes [OF same] same_env_fields [OF same]
    using off by simp
qed

lemma wp_policy:
  assumes ans: "answers w (=) KNetworkPolicy NetworkPolicyObj (apiNetworkPolicies A) (Namespace env, NetworkPolicyName env)"
    and refs: "refs_accepted A" and same: "same_env e env" and on: "AgentNetworkPolicy cfg"
    and there: "absent_or (cluster_after w h (policy_id env))
      (\<lambda>x. \<exists>p. x = NetworkPolicyObj p \<and> object_key p = snd (policy_id env))"
    and Q: "\<And>p h'. grown w h h' ((cluster_after w h)(policy_id env \<mapsto> NetworkPolicyObj p))
      \<Longrightarrow> object_key p = snd (policy_id env)
      \<Longrightarrow> NPSpec p = NPSpec (DesiredNetworkPolicy env (ManagerNamespace cfg) (ManagerAppName cfg)) \<Longrightarrow> Q None h'"
  shows "wp (ensureNetworkPolicy A cfg e) Q h"
proof -
  let ?k = "(Namespace env, NetworkPolicyName env)" and ?st = "cluster_after w h"
  let ?d = "DesiredNetworkPolicy env (ManagerNamespace cfg) (ManagerAppName cfg)\<lparr>ControllerRef := Some (UID e)\<rparr>"
  have k: "object_key ?d = ?k" by (simp add: desired_policy_key)
  have made: "Q None h'" if "grown w h h' (?st(policy_id env \<mapsto> NetworkPolicyObj q))" "object_key q = ?k" "NPSpec q = NPSpec ?d" for q h'
    using Q that by simp
  have found: "wp (if NPSpec y = NPSpec ?d \<and> Labels y = Labels ?d then ret None
      else do { (err, _) \<leftarrow> k8s_update NetworkPolicyObj (apiNetworkPolicies A) (y\<lparr>NPSpec := NPSpec ?d, Labels := Labels ?d\<rparr>); ret err })
      Q (h @ [Get KNetworkPolicy ?k (Inr (NetworkPolicyObj y))])"
    if st: "?st (policy_id env) = Some (NetworkPolicyObj y)" and key: "object_key y = ?k" for y
  proof -
    have same: "grown w h (h @ [Get KNetworkPolicy ?k (Inr (NetworkPolicyObj y))]) (?st(policy_id env \<mapsto> NetworkPolicyObj y))"
      using st by (simp add: grown_def fun_upd_idem)
    let ?y = "y\<lparr>NPSpec := NPSpec ?d, Labels := Labels ?d\<rparr>"
    have key': "object_key ?y = ?k" using key by (simp add: object_key_def)
    have "grown w h ((h @ [Get KNetworkPolicy ?k (Inr (NetworkPolicyObj y))]) @ [Update (NetworkPolicyObj ?y) (Inr (NetworkPolicyObj ?y))])
        (?st(policy_id env \<mapsto> NetworkPolicyObj ?y))"
      using key' by (simp add: grown_def cluster_after_def)
    then have "wp (k8s_update NetworkPolicyObj (apiNetworkPolicies A) ?y) (\<lambda>y. Q (fst y))
        (h @ [Get KNetworkPolicy ?k (Inr (NetworkPolicyObj y))])"
      using made [of _ ?y] key' ans by (intro wp_update) auto
    then show ?thesis using made [OF same] key by (auto simp: case_prod_beta wp_ret_fun)
  qed
  have "wp (getNetworkPolicy A ?k) (\<lambda>r. wp (case r of
        Inl e \<Rightarrow> if IsNotFound e then create_if_absent NetworkPolicyObj (apiNetworkPolicies A) ?d else ret (Some e)
      | Inr y \<Rightarrow> if NPSpec y = NPSpec ?d \<and> Labels y = Labels ?d then ret None
          else do { (err, _) \<leftarrow> k8s_update NetworkPolicyObj (apiNetworkPolicies A) (y\<lparr>NPSpec := NPSpec ?d, Labels := Labels ?d\<rparr>);
                    ret err }) Q) h"
    unfolding k [symmetric]
    using ans there made found k
    by (intro wp_get_or_create [where w = w and view = "(=)" and P = "\<lambda>s. object_key s = ?k"]) auto
  then show ?thesis
    unfolding ensureNetworkPolicy_def wp_bind same_env_computes [OF same] same_env_fields [OF same]
      SetControllerReference_accepted [OF refs] sum.case
    using on by simp
qed

lemma wp_ensureNetworkPolicy:
  assumes ans: "answers w (=) KNetworkPolicy NetworkPolicyObj (apiNetworkPolicies A) (Namespace env, NetworkPolicyName env)"
    and refs: "refs_accepted A" and same: "same_env e env"
    and there: "absent_or (cluster_after w h (policy_id env))
      (\<lambda>x. \<exists>p. x = NetworkPolicyObj p \<and> object_key p = snd (policy_id env))"
    and Q: "\<And>p h'. grown w h h' ((cluster_after w h)(policy_id env := map_option NetworkPolicyObj p))
      \<Longrightarrow> (if AgentNetworkPolicy cfg
           then \<exists>q. p = Some q \<and> object_key q = snd (policy_id env)
                  \<and> NPSpec q = NPSpec (DesiredNetworkPolicy env (ManagerNamespace cfg) (ManagerAppName cfg))
           else p = None) \<Longrightarrow> Q None h'"
  shows "wp (ensureNetworkPolicy A cfg e) Q h"
  using wp_no_policy [OF ans same _ there, of cfg Q] wp_policy [OF ans refs same _ there, of cfg Q] Q [of _ None]
    Q [of _ "Some p" for p]
  by (cases "AgentNetworkPolicy cfg") auto

section \<open>Readiness\<close>

definition agent_status_kept :: "ZrokEnvironment \<Rightarrow> ZrokEnvironment \<Rightarrow> bool" where
  \<comment> \<open>\<open>a\<close> is \<open>b\<close> with another report on the agent\<close>
  "agent_status_kept a b \<longleftrightarrow> same_env a b \<and> Finalizers a = Finalizers b \<and> enEnvZID (EnvStatus a) = enEnvZID (EnvStatus b)"

lemma env_condition_kept [simp]:
  "agent_status_kept (env_condition t ty st rsn msg a) b = agent_status_kept a b"
  "enObservedGeneration (EnvStatus (env_condition t ty st rsn msg a)) = enObservedGeneration (EnvStatus a)"
  by (simp_all add: agent_status_kept_def env_condition_def env_set_status_def same_env_def object_key_def)

lemma env_readiness_mutations:
  "agent_status_kept (snd (env_waiting_mutation svc t e)) e" "agent_status_kept (snd (env_unreachable_mutation svc msg t e)) e"
  "agent_status_kept (snd (env_ready_mutation svc t e)) e" "agent_status_kept (snd (env_not_ready_mutation rsn msg t e)) e"
  "enObservedGeneration (EnvStatus (snd (env_waiting_mutation svc t e))) = Generation e"
  "enObservedGeneration (EnvStatus (snd (env_unreachable_mutation svc msg t e))) = Generation e"
  "enObservedGeneration (EnvStatus (snd (env_ready_mutation svc t e))) = Generation e"
  "\<not> env_is_ready (snd (env_waiting_mutation svc t e))" "\<not> env_is_ready (snd (env_unreachable_mutation svc msg t e))"
  "env_is_ready (snd (env_ready_mutation svc t e))"
  by (simp_all add: env_waiting_mutation_def env_unreachable_mutation_def env_ready_mutation_def
      env_not_ready_mutation_def Let_def)
     (simp_all add: agent_status_kept_def env_set_status_def same_env_def object_key_def)

lemma agent_status_kept_key: "agent_status_kept a b \<Longrightarrow> object_key a = object_key b"
  by (simp add: agent_status_kept_def same_env_def)

lemma wp_env_patch:
  assumes ans: "answers w (=) KEnv EnvObj (apiEnvs A) (object_key env)" and there: "cluster_after w h (env_id env) = Some (EnvObj e)"
    and key: "object_key e = object_key env" "\<And>t. object_key (snd (m t e)) = object_key env" and total: "total_mutation m"
    and Q: "\<And>t es. list_all (\<lambda>x. agent_reading x = None) es
      \<Longrightarrow> grown w h (h @ es) ((cluster_after w h)(env_id env \<mapsto> EnvObj (snd (m t e)))) \<Longrightarrow> Q (None, snd (m t e)) (h @ es)"
  shows "wp (PatchEnvStatus A e m) Q h"
proof (rule wp_patch_present [where w = w])
  fix t
  let ?es = "[Get KEnv (object_key e) (Inr (EnvObj e)), StatusPatch (EnvObj e) (EnvObj (snd (m t e))) (Inr (EnvObj (snd (m t e))))]"
  have "grown w h (h @ ?es) ((cluster_after w h)(env_id env \<mapsto> EnvObj (snd (m t e))))"
    by (simp add: grown_def cluster_after_def key)
  then show "Q (None, snd (m t e)) (h @ ?es)" using Q [of ?es t] by simp
qed (use assms in simp_all)

lemma agent_seen_up_calm:
  "list_all (\<lambda>x. agent_reading x = None) es \<Longrightarrow> agent_seen_up (h @ es) = agent_seen_up h"
  by (simp add: agent_seen_up_def List.map_filter_def list_all_iff filter_empty_conv)

lemma agent_seen_up_reading: "agent_reading x = Some b \<Longrightarrow> agent_seen_up (h @ [x]) = b"
  by (auto simp: agent_seen_up_def List.map_filter_def)

lemma wp_env_report:
  \<comment> \<open>a report of the agent's state, with the events that follow it\<close>
  assumes ans: "answers w (=) KEnv EnvObj (apiEnvs A) (object_key env)" and there: "cluster_after w h (env_id env) = Some (EnvObj e)"
    and kept: "\<And>t. agent_status_kept (snd (m t e)) e" and total: "total_mutation m" and same: "same_env e env"
    and Q: "\<And>t es. list_all (\<lambda>x. agent_reading x = None) es
      \<Longrightarrow> grown w h (h @ es) ((cluster_after w h)(env_id env \<mapsto> EnvObj (snd (m t e)))) \<Longrightarrow> Q (None, snd (m t e)) (h @ es)"
  shows "wp (PatchEnvStatus A e m) Q h"
proof (rule wp_env_patch [OF ans there])
  show "object_key e = object_key env" using same by (simp add: same_env_def)
  then show "object_key (snd (m t e)) = object_key env" for t using kept [of t] agent_status_kept_key by metis
qed (use total Q in auto)

lemma wp_env_not_yet:
  assumes ans: "answers w (=) KEnv EnvObj (apiEnvs A) (object_key env)" and there: "cluster_after w h (env_id env) = Some (EnvObj e)"
    and kept: "\<And>t. agent_status_kept (snd (m t e)) e" and total: "total_mutation m" and same: "same_env e env"
    and Q: "\<And>t es. list_all (\<lambda>x. agent_reading x = None) es
      \<Longrightarrow> grown w h (h @ es) ((cluster_after w h)(env_id env \<mapsto> EnvObj (snd (m t e)))) \<Longrightarrow> Q (requeue_after 10, None) (h @ es)"
  shows "wp (env_not_yet A e m) Q h"
  unfolding env_not_yet_def wp_bind
proof (rule wp_env_report [OF ans there kept total same])
  fix t es
  assume es: "list_all (\<lambda>x. agent_reading x = None) es"
    and g: "grown w h (h @ es) ((cluster_after w h)(env_id env \<mapsto> EnvObj (snd (m t e))))"
  let ?e = "snd (m t e)"
  let ?es = "es @ [SetEnvironmentReady (Namespace ?e) (Name ?e) False]"
  have "Q (requeue_after 10, None) (h @ ?es)"
    by (rule Q [of ?es t]) (use es grown_event [OF g, of "SetEnvironmentReady (Namespace ?e) (Name ?e) False"] in simp_all)
  then show "wp (case (None, ?e) of (err, env) \<Rightarrow> case err of Some e \<Rightarrow> ret (no_requeue, Some e)
      | None \<Rightarrow> emit (SetEnvironmentReady (Namespace env) (Name env) False) \<bind> (\<lambda>_. ret (requeue_after 10, None))) Q (h @ es)"
    by simp
qed

definition env_reported :: "ZrokEnvironment \<Rightarrow> cluster \<Rightarrow> event list \<Rightarrow> event list \<Rightarrow> ZrokEnvironment \<Rightarrow> ZrokEnvironment \<Rightarrow> bool" where
  \<comment> \<open>only the status of the environment has changed, by a report that agrees with what was seen\<close>
  "env_reported env w h h' e e' \<longleftrightarrow>
     grown w h h' ((cluster_after w h)(env_id env \<mapsto> EnvObj e')) \<and> agent_status_kept e' e
     \<and> enObservedGeneration (EnvStatus e') = Generation e \<and> env_is_ready e' = agent_seen_up h'"

lemma env_reportedI:
  assumes g: "grown w h h1 (cluster_after w h)" and up: "agent_seen_up h1 = b"
    and es: "list_all (\<lambda>x. agent_reading x = None) es"
    and g': "grown w h1 (h1 @ es) ((cluster_after w h1)(env_id env \<mapsto> EnvObj e'))"
    and e': "agent_status_kept e' e" "enObservedGeneration (EnvStatus e') = Generation e" "env_is_ready e' = b"
  shows "env_reported env w h (h1 @ es) e e'"
  using grown_trans [OF g g'] grown_cluster [OF g] agent_seen_up_calm [OF es, of h1] up e'
  by (simp add: env_reported_def)

abbreviation (input) announce_ready :: "api \<Rightarrow> ZrokEnvironment \<Rightarrow> string \<Rightarrow> bool \<Rightarrow> outcome op" where
  \<comment> \<open>the end of \<open>env_readiness\<close>\<close>
  "announce_ready A e svc wasReady \<equiv>
     State_Monad.bind (PatchEnvStatus A e (env_ready_mutation svc)) (\<lambda>(err, env).
       case err of Some er \<Rightarrow> ret (no_requeue, Some er)
       | None \<Rightarrow> State_Monad.bind (emit (SetEnvironmentReady (Namespace env) (Name env) True)) (\<lambda>_.
           State_Monad.bind (if \<not> wasReady then env_record env EventTypeNormal ''Ready'' ''Ready'' ''ZrokEnvironment is ready''
             else ret ()) (\<lambda>_. ret (requeue_after 120, None))))"

definition reports_seen :: "ZrokEnvironment \<Rightarrow> cluster \<Rightarrow> event list \<Rightarrow> ZrokEnvironment \<Rightarrow> (outcome \<Rightarrow> event list \<Rightarrow> bool) \<Rightarrow> bool" where
  \<comment> \<open>\<open>Q\<close> holds after every report that agrees with what was seen\<close>
  "reports_seen env w h e Q \<longleftrightarrow>
     (\<forall>e' h'. env_reported env w h h' e e' \<longrightarrow> Q (requeue_after (if agent_seen_up h' then 120 else 10), None) h')"

lemma wp_agent_down:
  assumes ansE: "answers w (=) KEnv EnvObj (apiEnvs A) (object_key env)"
    and there: "cluster_after w h (env_id env) = Some (EnvObj e)" and same: "same_env e env" and Q: "reports_seen env w h e Q"
    and g1: "grown w h h1 (cluster_after w h)" and unseen: "\<not> agent_seen_up h1" and total: "total_mutation m"
    and kept: "\<And>t. agent_status_kept (snd (m t e)) e" and gen: "\<And>t. enObservedGeneration (EnvStatus (snd (m t e))) = Generation e"
    and off: "\<And>t. \<not> env_is_ready (snd (m t e))"
  shows "wp (env_not_yet A e m) Q h1"
proof (rule wp_env_not_yet [OF ansE _ kept total same])
  show "cluster_after w h1 (env_id env) = Some (EnvObj e)" using grown_cluster [OF g1] there by simp
  fix t es
  assume es: "list_all (\<lambda>x. agent_reading x = None) es"
    and g: "grown w h1 (h1 @ es) ((cluster_after w h1)(env_id env \<mapsto> EnvObj (snd (m t e))))"
  have "env_reported env w h (h1 @ es) e (snd (m t e))"
    using env_reportedI [OF g1 _ es g] unseen kept gen off by simp
  then show "Q (requeue_after 10, None) (h1 @ es)"
    using Q agent_seen_up_calm [OF es, of h1] unseen unfolding reports_seen_def by fastforce
qed

lemma wp_agent_up:
  assumes ansE: "answers w (=) KEnv EnvObj (apiEnvs A) (object_key env)"
    and there: "cluster_after w h (env_id env) = Some (EnvObj e)" and same: "same_env e env" and Q: "reports_seen env w h e Q"
    and g1: "grown w h h1 (cluster_after w h)" and seen: "agent_seen_up h1"
  shows "wp (announce_ready A e svc b) Q h1"
  unfolding wp_bind
proof (rule wp_env_report [OF ansE _ _ _ same])
  show "cluster_after w h1 (env_id env) = Some (EnvObj e)" using grown_cluster [OF g1] there by simp
  fix t es
  let ?e = "snd (env_ready_mutation svc t e)"
  assume es: "list_all (\<lambda>x. agent_reading x = None) es"
    and g: "grown w h1 (h1 @ es) ((cluster_after w h1)(env_id env \<mapsto> EnvObj ?e))"
  have ok: "Q (requeue_after 120, None) (h1 @ es @ fs)" if fs: "list_all (\<lambda>x. agent_reading x = None \<and> no_enable x \<and> effect x = id) fs" for fs
  proof -
    have "fold effect fs st = st" for st using fs by (induction fs arbitrary: st) auto
    then have g': "grown w h1 (h1 @ es @ fs) ((cluster_after w h1)(env_id env \<mapsto> EnvObj ?e))"
      using g fs by (auto simp: grown_def cluster_after_def list_all_iff)
    have es': "list_all (\<lambda>x. agent_reading x = None) (es @ fs)" using es fs by (auto simp: list_all_iff)
    have "env_reported env w h (h1 @ es @ fs) e ?e"
      using env_reportedI [OF g1 _ es' g'] seen env_readiness_mutations by simp
    then show ?thesis using Q agent_seen_up_calm [OF es', of h1] seen unfolding reports_seen_def by fastforce
  qed
  show "wp (case (None, ?e) of (err, env) \<Rightarrow> case err of Some er \<Rightarrow> ret (no_requeue, Some er)
      | None \<Rightarrow> emit (SetEnvironmentReady (Namespace env) (Name env) True) \<bind> (\<lambda>_.
          (if \<not> b then env_record env EventTypeNormal ''Ready'' ''Ready'' ''ZrokEnvironment is ready'' else ret ())
            \<bind> (\<lambda>_. ret (requeue_after 120, None)))) Q (h1 @ es)"
    using ok by (auto simp: env_record_def fun_eq_iff)
qed (simp_all add: env_readiness_mutations)

lemma wp_readiness:
  assumes ansE: "answers w (=) KEnv EnvObj (apiEnvs A) (object_key env)"
    and ansD: "answers w same_deployment KDeployment DeploymentObj (apiDeployments A) (Namespace env, DeploymentName env)"
    and there: "cluster_after w h (env_id env) = Some (EnvObj e)" and same: "same_env e env"
    and dep: "cluster_after w h (deployment_id env) = Some (DeploymentObj d)" and Q: "reports_seen env w h e Q"
  shows "wp (env_readiness A e) Q h"
proof -
  let ?k = "(Namespace env, DeploymentName env)"
  note down = wp_agent_down [OF ansE there same Q] and up = wp_agent_up [OF ansE there same Q]
  have waiting: "wp (env_not_yet A e (env_waiting_mutation svc)) Q (h @ [Get KDeployment ?k (Inr (DeploymentObj y))])"
    if "\<not> (1 \<le> depReadyReplicas y \<and> 1 \<le> depUpdatedReplicas y)" for y svc
    using that agent_seen_up_reading [of "Get KDeployment ?k (Inr (DeploymentObj y))" False h]
    by (intro down) (auto simp: grown_def env_readiness_mutations)
  have two: "h @ [g, x] = (h @ [g]) @ [x]" for g x :: event by simp
  have seen: "agent_seen_up (h @ [g, AgentStatus addr r]) = (case r of Inl _ \<Rightarrow> False | Inr _ \<Rightarrow> True)" for g addr r
    unfolding two by (rule agent_seen_up_reading) simp
  have g2: "grown w h (h @ [Get KDeployment ?k (Inr (DeploymentObj y)), AgentStatus addr r]) (cluster_after w h)" for y addr r
    by (simp add: grown_def cluster_after_def)
  show ?thesis
    unfolding env_readiness_def isAgentReady_def wp_bind same_env_computes [OF same] same_env_fields(2) [OF same]
    by (rule wp_get_present [OF ansD dep])
       (use waiting down [OF g2] up [OF g2] seen in
         \<open>auto simp: Let_def Agent_Status_def env_readiness_mutations same_env_fields [OF same] split: sum.split\<close>)
qed

section \<open>The agent of an environment\<close>

lemma kept_same_env: "agent_status_kept a b \<Longrightarrow> same_env b c \<Longrightarrow> same_env a c"
  by (simp add: agent_status_kept_def same_env_def)

lemma wp_env_failed:
  assumes ans: "answers w (=) KEnv EnvObj (apiEnvs A) (object_key env)" and there: "cluster_after w h (env_id env) = Some (EnvObj e)"
    and same: "same_env e env"
    and Q: "\<And>e' h'. grown w h h' ((cluster_after w h)(env_id env \<mapsto> EnvObj e')) \<Longrightarrow> agent_status_kept e' e
      \<Longrightarrow> Q e' h'"
  shows "wp (env_setNotReady A e rsn msg) Q h"
  unfolding env_setNotReady_def wp_bind
proof (rule wp_env_report [OF ans there _ _ same])
  fix t es
  let ?e = "snd (env_not_ready_mutation rsn msg t e)"
  assume "grown w h (h @ es) ((cluster_after w h)(env_id env \<mapsto> EnvObj ?e))"
  then have "grown w h (h @ es @ [SetEnvironmentReady (Namespace ?e) (Name ?e) False]) ((cluster_after w h)(env_id env \<mapsto> EnvObj ?e))"
    using grown_event [of w h "h @ es" _ "SetEnvironmentReady (Namespace ?e) (Name ?e) False"] by simp
  then show "wp (case (None, ?e) of (_, env) \<Rightarrow> emit (SetEnvironmentReady (Namespace env) (Name env) False) \<bind> (\<lambda>_. ret env)) Q (h @ es)"
    using Q env_readiness_mutations(4) by simp
qed (simp_all add: env_readiness_mutations)

lemma wp_env_step:
  assumes "wp step (\<lambda>err. wp (case err of None \<Rightarrow> rest
      | Some er \<Rightarrow> do { _ \<leftarrow> env_setNotReady A e rsn (Error er); emit EnvironmentReconcileErrors_Inc; ret (no_requeue, Some er) }) Q) h"
  shows "wp (env_step A e step rsn rest) Q h"
  unfolding env_step_def wp_bind
  by (rule wp_mono [OF assms]) (simp split: option.splits)

lemma env_state_updates:
  assumes "env_state env e st"
  shows "env_state env e (st(pvc_id env \<mapsto> PVCObj p))" "env_state env e (st(service_id env := None))"
    "object_key s = snd (service_id env) \<Longrightarrow> env_state env e (st(service_id env \<mapsto> ServiceObj s))"
    "object_key d = snd (deployment_id env) \<Longrightarrow> env_state env e (st(deployment_id env \<mapsto> DeploymentObj d))"
    "(case q of None \<Rightarrow> True | Some q \<Rightarrow> object_key q = snd (policy_id env))
      \<Longrightarrow> env_state env e (st(policy_id env := map_option NetworkPolicyObj q))"
    "agent_status_kept e' e \<Longrightarrow> env_state env e' (st(env_id env \<mapsto> EnvObj e'))"
    "env_state env e (st(identity_id env := None))"
  using assms kept_same_env [of e' e env]
  by (auto simp: env_state_def absent_or_def agent_status_kept_def split: option.splits)

definition agent_outcome :: "EnvConfig \<Rightarrow> cluster \<Rightarrow> ZrokEnvironment \<Rightarrow> ZrokEnvironment \<Rightarrow> event list \<Rightarrow> ZrokEnvironment \<Rightarrow> outcome \<Rightarrow> event list \<Rightarrow> bool" where
  \<comment> \<open>what \<open>env_ensure_agent\<close> does to a cluster: it leaves identity and finalizers alone, and either repairs
     the Service or ends with the agent's objects as wanted and a report that agrees with what was seen\<close>
  "agent_outcome cfg w env e h e' out h' \<longleftrightarrow>
     (let st = cluster_after w h; st' = cluster_after w h' in
      env_state env e' st' \<and> agent_status_kept e' e \<and> enabled_times h' = enabled_times h
      \<and> st' (identity_id env) = st (identity_id env) \<and> \<not> service_bad (st' (service_id env))
      \<and> (service_bad (st (service_id env)) \<or>
           agent_objects_there cfg env st' \<and> env_is_ready e' = agent_seen_up h'
           \<and> enObservedGeneration (EnvStatus e') = Generation env
           \<and> out = (requeue_after (if agent_seen_up h' then 120 else 10), None)))"

lemma wp_agent_ready:
  \<comment> \<open>the last step, once the objects are as wanted\<close>
  assumes srv: "cluster_serves A w env" and st: "env_state env e (cluster_after w h)"
    and ok: "\<not> service_bad (cluster_after w h (service_id env))"
    and g: "grown w h h4 ((cluster_after w h)(pvc_id env \<mapsto> PVCObj p, service_id env \<mapsto> ServiceObj s,
      deployment_id env \<mapsto> DeploymentObj d, policy_id env := map_option NetworkPolicyObj q))"
    and s: "object_key s = snd (service_id env)" "ssSelector (SvcSpec s) = ssSelector (SvcSpec (DesiredService env))"
      "ssPorts (SvcSpec s) = ssPorts (SvcSpec (DesiredService env))" "\<not> hijackedAgentService s"
    and d: "object_key d = snd (deployment_id env)" "DepSpec d = DepSpec (DesiredDeployment env)"
      "Labels d = Labels (DesiredDeployment env)"
    and q: "if AgentNetworkPolicy cfg
       then \<exists>r. q = Some r \<and> object_key r = snd (policy_id env)
              \<and> NPSpec r = NPSpec (DesiredNetworkPolicy env (ManagerNamespace cfg) (ManagerAppName cfg))
       else q = None"
    and Q: "\<And>e' out h'. agent_outcome cfg w env e h e' out h' \<Longrightarrow> Q out h'"
  shows "wp (env_readiness A e) Q h4"
proof (rule wp_readiness [where w = w and env = env and d = d])
  let ?st4 = "cluster_after w h4"
  have same: "same_env e env" and env: "cluster_after w h (env_id env) = Some (EnvObj e)"
    using st by (simp_all add: env_state_def)
  then show "same_env e env" by simp
  have st4: "env_state env e ?st4"
    unfolding grown_cluster [OF g] using s(1) d(1) q
    by (intro env_state_updates st) (auto split: option.splits if_splits)
  show "?st4 (env_id env) = Some (EnvObj e)" "?st4 (deployment_id env) = Some (DeploymentObj d)"
    unfolding grown_cluster [OF g] using env by simp_all
  have "Q (requeue_after (if agent_seen_up h' then 120 else 10), None) h'" if rep: "env_reported env w h4 h' e e'" for e' h'
  proof -
    have g': "grown w h4 h' (?st4(env_id env \<mapsto> EnvObj e'))" and kept: "agent_status_kept e' e"
      using rep by (auto simp: env_reported_def)
    have "env_state env e' (cluster_after w h')"
      unfolding grown_cluster [OF g'] by (intro env_state_updates(6) [OF st4] kept)
    moreover have "agent_objects_there cfg env (cluster_after w h')"
      unfolding grown_cluster [OF g'] grown_cluster [OF g] agent_objects_there_def using s d q by (auto split: if_splits)
    ultimately have "agent_outcome cfg w env e h e' (requeue_after (if agent_seen_up h' then 120 else 10), None) h'"
      using rep kept enabled_times_grown [OF g] enabled_times_grown [OF g'] s(4) same
      unfolding agent_outcome_def Let_def
      by (auto simp: env_reported_def grown_cluster [OF g'] grown_cluster [OF g] same_env_fields)
    then show ?thesis by (rule Q)
  qed
  then show "reports_seen env w h4 e Q" unfolding reports_seen_def by blast
qed (use srv in \<open>simp_all add: cluster_serves_def\<close>)

lemma wp_service_repaired:
  assumes srv: "cluster_serves A w env" and st: "env_state env e (cluster_after w h)"
    and bad: "service_bad (cluster_after w h (service_id env))"
    and g: "grown w h h2 ((cluster_after w h)(pvc_id env \<mapsto> PVCObj p, service_id env := None))"
    and Q: "\<And>e' out h'. agent_outcome cfg w env e h e' out h' \<Longrightarrow> Q out h'"
  shows "wp (do { _ \<leftarrow> env_setNotReady A e rsn msg; emit EnvironmentReconcileErrors_Inc; ret (no_requeue, Some er) }) Q h2"
  unfolding wp_bind
proof (rule wp_env_failed [where w = w and env = env])
  have st2: "env_state env e (cluster_after w h2)"
    unfolding grown_cluster [OF g] by (intro env_state_updates st)
  then show "cluster_after w h2 (env_id env) = Some (EnvObj e)" "same_env e env" by (simp_all add: env_state_def)
  fix e' h'
  assume g': "grown w h2 h' ((cluster_after w h2)(env_id env \<mapsto> EnvObj e'))" and kept: "agent_status_kept e' e"
  let ?h = "h' @ [EnvironmentReconcileErrors_Inc]"
  have g3: "grown w h2 ?h ((cluster_after w h2)(env_id env \<mapsto> EnvObj e'))"
    using grown_event [OF g', of EnvironmentReconcileErrors_Inc] by (simp add: effect_calm)
  have "env_state env e' (cluster_after w ?h)"
    unfolding grown_cluster [OF g3] by (intro env_state_updates(6) [OF st2] kept)
  then have "agent_outcome cfg w env e h e' (no_requeue, Some er) ?h"
    using kept bad enabled_times_grown [OF g] enabled_times_grown [OF g3]
    unfolding agent_outcome_def Let_def by (simp add: grown_cluster [OF g] grown_cluster [OF g3] del: cluster_after_simps)
  then show "wp (emit EnvironmentReconcileErrors_Inc) (\<lambda>_. wp (ret (no_requeue, Some er)) Q) h'"
    using Q by simp
qed (use srv in \<open>simp_all add: cluster_serves_def\<close>)

lemma wp_agent_tail:
  \<comment> \<open>the steps after the Service\<close>
  assumes srv: "cluster_serves A w env" and refs: "refs_accepted A" and st: "env_state env e (cluster_after w h)"
    and ok: "\<not> service_bad (cluster_after w h (service_id env))"
    and g: "grown w h h2 ((cluster_after w h)(pvc_id env \<mapsto> PVCObj p, service_id env \<mapsto> ServiceObj s))"
    and s: "object_key s = snd (service_id env)" "ssSelector (SvcSpec s) = ssSelector (SvcSpec (DesiredService env))"
      "ssPorts (SvcSpec s) = ssPorts (SvcSpec (DesiredService env))" "\<not> hijackedAgentService s"
    and Q: "\<And>e' out h'. agent_outcome cfg w env e h e' out h' \<Longrightarrow> Q out h'"
  shows "wp (env_step A e (ensureDeployment A e) ''DeploymentError''
    (env_step A e (ensureNetworkPolicy A cfg e) ''NetworkPolicyError'' (env_readiness A e))) Q h2"
proof (rule wp_env_step, rule wp_ensureDeployment [where w = w and env = env, OF _ refs], simp_all only: option.case)
  have st2: "env_state env e (cluster_after w h2)"
    unfolding grown_cluster [OF g] using s(1) by (intro env_state_updates st)
  then show "same_env e env" and "absent_or (cluster_after w h2 (deployment_id env))
      (\<lambda>x. \<exists>d. x = DeploymentObj d \<and> object_key d = snd (deployment_id env))"
    by (auto simp: env_state_def)
  fix d h3
  assume g3: "grown w h2 h3 ((cluster_after w h2)(deployment_id env \<mapsto> DeploymentObj d))"
    and d: "object_key d = snd (deployment_id env)" "DepSpec d = DepSpec (DesiredDeployment env)"
      "Labels d = Labels (DesiredDeployment env)"
  have st3: "env_state env e (cluster_after w h3)"
    unfolding grown_cluster [OF g3] using d(1) by (intro env_state_updates st2)
  show "wp (env_step A e (ensureNetworkPolicy A cfg e) ''NetworkPolicyError'' (env_readiness A e)) Q h3"
  proof (rule wp_env_step, rule wp_ensureNetworkPolicy [where w = w and env = env, OF _ refs], simp_all only: option.case)
    fix q h4
    assume g4: "grown w h3 h4 ((cluster_after w h3)(policy_id env := map_option NetworkPolicyObj q))"
      and q: "if AgentNetworkPolicy cfg
         then \<exists>r. q = Some r \<and> object_key r = snd (policy_id env)
                \<and> NPSpec r = NPSpec (DesiredNetworkPolicy env (ManagerNamespace cfg) (ManagerAppName cfg))
         else q = None"
    have "grown w h h4 ((cluster_after w h)(pvc_id env \<mapsto> PVCObj p, service_id env \<mapsto> ServiceObj s,
        deployment_id env \<mapsto> DeploymentObj d, policy_id env := map_option NetworkPolicyObj q))"
      using grown_trans [OF grown_trans [OF g g3] g4]
      by (simp add: grown_cluster [OF g] grown_cluster [OF g3])
    then show "wp (env_readiness A e) Q h4" by (rule wp_agent_ready [OF srv st ok _ s d q Q])
  qed (use srv st3 in \<open>auto simp: cluster_serves_def env_state_def\<close>)
qed (use srv in \<open>simp_all add: cluster_serves_def\<close>)

lemma wp_ensure_agent:
  assumes srv: "cluster_serves A w env" and refs: "refs_accepted A" and st: "env_state env e (cluster_after w h)"
    and Q: "\<And>e' out h'. agent_outcome cfg w env e h e' out h' \<Longrightarrow> Q out h'"
  shows "wp (env_ensure_agent A cfg e) Q h"
  unfolding env_ensure_agent_def
proof (rule wp_env_step, rule wp_ensurePVC [where w = w and env = env, OF _ refs], simp_all only: option.case)
  fix p h1
  assume g1: "grown w h h1 ((cluster_after w h)(pvc_id env \<mapsto> PVCObj p))"
  have st1: "env_state env e (cluster_after w h1)" unfolding grown_cluster [OF g1] by (intro env_state_updates st)
  have svc: "cluster_after w h1 (service_id env) = cluster_after w h (service_id env)" by (simp add: grown_cluster [OF g1])
  show "wp (env_step A e (ensureService A e) ''ServiceError''
     (env_step A e (ensureDeployment A e) ''DeploymentError''
       (env_step A e (ensureNetworkPolicy A cfg e) ''NetworkPolicyError'' (env_readiness A e)))) Q h1"
  proof (rule wp_env_step, rule wp_ensureService [where w = w and env = env, OF _ refs], simp_all only: option.case svc)
    fix er h2
    assume bad: "service_bad (cluster_after w h (service_id env))"
      and g2: "grown w h1 h2 ((cluster_after w h1)(service_id env := None))"
    have "grown w h h2 ((cluster_after w h)(pvc_id env \<mapsto> PVCObj p, service_id env := None))"
      using grown_trans [OF g1 g2] by (simp add: grown_cluster [OF g1])
    then show "wp (do { _ \<leftarrow> env_setNotReady A e ''ServiceError'' (Error er); emit EnvironmentReconcileErrors_Inc;
        ret (no_requeue, Some er) }) Q h2"
      by (rule wp_service_repaired [OF srv st bad _ Q])
  next
    fix s h2
    assume ok: "\<not> service_bad (cluster_after w h (service_id env))"
      and g2: "grown w h1 h2 ((cluster_after w h1)(service_id env \<mapsto> ServiceObj s))"
      and s: "object_key s = snd (service_id env)" "ssSelector (SvcSpec s) = ssSelector (SvcSpec (DesiredService env))"
        "ssPorts (SvcSpec s) = ssPorts (SvcSpec (DesiredService env))" "\<not> hijackedAgentService s"
    have "grown w h h2 ((cluster_after w h)(pvc_id env \<mapsto> PVCObj p, service_id env \<mapsto> ServiceObj s))"
      using grown_trans [OF g1 g2] by (simp add: grown_cluster [OF g1])
    then show "wp (env_step A e (ensureDeployment A e) ''DeploymentError''
        (env_step A e (ensureNetworkPolicy A cfg e) ''NetworkPolicyError'' (env_readiness A e))) Q h2"
      by (rule wp_agent_tail [OF srv refs st ok _ s Q])
  qed (use srv st in \<open>auto simp: cluster_serves_def env_state_def\<close>)
qed (use srv st in \<open>auto simp: cluster_serves_def env_state_def\<close>)

end
