(* ===== verification/EnvProgress.thy ===== *)
theory EnvProgress
  imports EnvAgent
begin

text \<open>
  Progress of the environment reconciler from any beginning: a new environment, one that was enabled
  but never got its agent, or one whose objects are gone, were changed or were planted by somebody
  else. Pods start when they like, and the agent answers or not.
\<close>

section \<open>The remote environment\<close>

definition enabled_state :: "cluster \<Rightarrow> ZrokEnvironment \<Rightarrow> ZrokEnvironment \<Rightarrow> event list \<Rightarrow> ZrokEnvironment \<Rightarrow> event list \<Rightarrow> bool" where
  \<comment> \<open>the environment has its identity now, and was enabled if it had none\<close>
  "enabled_state w env e h e' h' \<longleftrightarrow>
     (let st = cluster_after w h in
      \<exists>s. cluster_after w h' = st(env_id env \<mapsto> EnvObj e', identity_id env \<mapsto> SecretObj s)
        \<and> object_key s = snd (identity_id env) \<and> good_identity env s
        \<and> same_env e' env \<and> enEnvZID (EnvStatus e') = lookup_str (Data s) ''envZID'' \<and> Finalizers e' = Finalizers e
        \<and> enabled_times h' = enabled_times h + of_bool (st (identity_id env) = None))"

lemma env_zid_mutations:
  "same_env (snd (set_zid_mutation zid t e)) env = same_env e env" "Finalizers (snd (set_zid_mutation zid t e)) = Finalizers e"
  "enEnvZID (EnvStatus (snd (set_zid_mutation zid t e))) = zid"
  "same_env (snd (enabled_mutation zid u t e)) env = same_env e env" "Finalizers (snd (enabled_mutation zid u t e)) = Finalizers e"
  "enEnvZID (EnvStatus (snd (enabled_mutation zid u t e))) = zid"
  by (simp_all add: set_zid_mutation_def enabled_mutation_def env_set_status_def env_condition_def same_env_def object_key_def)

lemma wp_adopt:
  assumes srv: "cluster_serves A w env" and st: "env_state env e (cluster_after w h)"
    and s: "cluster_after w h (identity_id env) = Some (SecretObj s)"
    and bad: "\<And>er h'. \<not> good_identity env s \<Longrightarrow> \<not> IsEndpointNotAllowed er
      \<Longrightarrow> grown w h h' ((cluster_after w h)(identity_id env := None)) \<Longrightarrow> Q (Some er, e) h'"
    and good: "\<And>e' h'. good_identity env s \<Longrightarrow> enabled_state w env e h e' h' \<Longrightarrow> Q (None, e') h'"
  shows "wp (adoptIdentitySecret A e s) Q h"
proof -
  note ans = srv [unfolded cluster_serves_def] and parts = st [unfolded env_state_def]
  let ?zid = "lookup_str (Data s) ''envZID''" and ?st = "cluster_after w h"
  have same: "same_env e env" and env: "?st (env_id env) = Some (EnvObj e)" using parts by blast+
  have key: "object_key s = snd (identity_id env)" and zid: "good_identity env s \<longrightarrow> enEnvZID (EnvStatus e) \<in> {[], ?zid}"
    using parts s by (auto simp: absent_or_def)
  have ctl: "IsControlledBy s e = IsControlledBy s env" by (simp add: IsControlledBy_def same_env_fields [OF same])
  show ?thesis
  proof (cases "good_identity env s")
    case False
    have "grown w h (h @ [Delete KSecret (snd (identity_id env)) None]) (?st(identity_id env := None))"
      by (simp add: grown_def)
    then have drop: "wp (do { err \<leftarrow> drop_secret A s what; ret (err, e) }) Q h" for what
      using False ans unfolding drop_secret_def key wp_bind
      by (intro wp_delete [where w = w and view = "(=)" and wrap = SecretObj]) (simp_all add: bad IsEndpointNotAllowed_def errorf_def)
    show ?thesis using False drop unfolding adoptIdentitySecret_def Let_def ctl good_identity_def by auto
  next
    case True
    note good = good [OF True]
    have there: "?st (identity_id env) \<noteq> None" using s by simp
    show ?thesis
    proof (cases "enEnvZID (EnvStatus e) = []")
      case empty: True
      have "wp (PatchEnvStatus A e (set_zid_mutation ?zid)) Q h"
      proof (rule wp_env_patch [OF _ env])
        show "object_key e = object_key env" using same by (simp add: same_env_fields)
        show "object_key (snd (set_zid_mutation ?zid t e)) = object_key env" for t
          using env_zid_mutations(1) [of ?zid t e env] same by (simp add: same_env_fields)
        fix t es
        let ?e = "snd (set_zid_mutation ?zid t e)"
        assume g: "grown w h (h @ es) (?st(env_id env \<mapsto> EnvObj ?e))"
        have "cluster_after w (h @ es) = ?st(env_id env \<mapsto> EnvObj ?e, identity_id env \<mapsto> SecretObj s)"
          unfolding grown_cluster [OF g] using s by (simp add: fun_upd_idem)
        then have "enabled_state w env e h ?e (h @ es)"
          unfolding enabled_state_def Let_def
          using True key same s enabled_times_grown [OF g] by (intro exI [of _ s]) (simp add: env_zid_mutations)
        then show "Q (None, ?e) (h @ es)" by (rule good)
      qed (use ans in \<open>simp_all add: set_zid_mutation_def total_mutation_def\<close>)
      then show ?thesis using True empty unfolding adoptIdentitySecret_def Let_def ctl good_identity_def by simp
    next
      case set: False
      have "enabled_state w env e h e h"
        unfolding enabled_state_def Let_def
        using True key same s env zid set by (intro exI [of _ s]) (auto simp: fun_upd_idem)
      then show ?thesis
        using good True set zid unfolding adoptIdentitySecret_def Let_def ctl good_identity_def by auto
    qed
  qed
qed

lemma wp_uniqueID:
  assumes "enable_answers A env" and "same_env e env" and "\<And>u h'. grown w h h' (cluster_after w h) \<Longrightarrow> Q (Inr u) h'"
  shows "wp (resolveUniqueID A e) Q h"
proof (cases "enUniqueID (EnvSpec env) = []")
  case False
  then show ?thesis using assms(3) grown_refl by (simp add: resolveUniqueID_def same_env_fields [OF assms(2)])
next
  case True
  then obtain ns where ns: "serves (apiNamespaces A) ([], DefaultUniqueIDNamespace) ns" "UID ns \<noteq> []"
    using assms(1) by (auto simp: enable_answers_def)
  have "grown w h (h @ [Get KNamespace ([], DefaultUniqueIDNamespace) (Inr (NamespaceObj ns))]) (cluster_after w h)"
    by (simp add: grown_def)
  then show ?thesis
    using assms(3) ns True by (simp add: resolveUniqueID_def same_env_fields [OF assms(2)] serves_def k8s_get_def)
qed

abbreviation (input) record_enabled :: "api \<Rightarrow> string \<Rightarrow> string \<Rightarrow> ZrokEnvironment \<Rightarrow> (go_error option \<times> ZrokEnvironment) op" where
  \<comment> \<open>the end of \<open>enable_environment\<close>\<close>
  "record_enabled A zid u e \<equiv>
     State_Monad.bind (PatchEnvStatus A e (enabled_mutation zid u)) (\<lambda>(err, env).
       case err of Some er \<Rightarrow> ret (Some er, env)
       | None \<Rightarrow> State_Monad.bind (env_record env EventTypeNormal ''Enabled'' ''Enable'' (''enabled remote environment '' @ zid))
           (\<lambda>_. ret (None, env)))"

lemma wp_record_enabled:
  assumes srv: "cluster_serves A w env" and env: "cluster_after w h (env_id env) = Some (EnvObj e)" and same: "same_env e env"
    and Q: "\<And>t h'. grown w h h' ((cluster_after w h)(env_id env \<mapsto> EnvObj (snd (enabled_mutation zid u t e))))
      \<Longrightarrow> Q (None, snd (enabled_mutation zid u t e)) h'"
  shows "wp (record_enabled A zid u e) Q h"
  unfolding wp_bind
proof (rule wp_env_patch [OF _ env])
  show "object_key e = object_key env" using same by (simp add: same_env_fields)
  show "object_key (snd (enabled_mutation zid u t e)) = object_key env" for t
    using env_zid_mutations(4) [of zid u t e env] same by (simp add: same_env_fields)
  fix t es
  let ?e = "snd (enabled_mutation zid u t e)"
  let ?rec = "Recorded KEnv (object_key ?e) EventTypeNormal ''Enabled'' ''Enable'' (''enabled remote environment '' @ zid)"
  assume g: "grown w h (h @ es) ((cluster_after w h)(env_id env \<mapsto> EnvObj ?e))"
  show "wp (case (None, ?e) of (err, env) \<Rightarrow> case err of
      Some er \<Rightarrow> ret (Some er, env)
    | None \<Rightarrow> do { env_record env EventTypeNormal ''Enabled'' ''Enable'' (''enabled remote environment '' @ zid);
                 ret (None, env) }) Q (h @ es)"
    using Q [of "(h @ es) @ [?rec]" t] grown_event [OF g, of ?rec] by (simp add: env_record_def)
qed (use srv in \<open>simp_all add: cluster_serves_def enabled_mutation_def total_mutation_def\<close>)

lemma wp_identity_stored:
  \<comment> \<open>from the reply of the zrok controller on\<close>
  assumes srv: "cluster_serves A w env" and env: "cluster_after w h (env_id env) = Some (EnvObj e)" and same: "same_env e env"
    and none: "cluster_after w h (identity_id env) = None" and zid: "zid \<noteq> []"
    and g1: "grown w h h1 (cluster_after w h)" and Q: "\<And>e' h'. enabled_state w env e h e' h' \<Longrightarrow> Q (None, e') h'"
  shows "wp (k8s_create SecretObj (apiSecrets A) (identity_secret e zid token ep cfg\<lparr>ControllerRef := Some (UID e)\<rparr>))
    (\<lambda>y. wp (case y of (err, _) \<Rightarrow> case err of
        Some er \<Rightarrow> do { _ \<leftarrow> REST_Disable A ep token zid; ret (Some er, e) }
      | None \<Rightarrow> record_enabled A zid u e) Q) (h1 @ [RestEnable ep token n d (Inr (zid, cfg))])"
proof (rule wp_create_absent [where w = w and view = "(=)" and kd = KSecret])
  let ?st = "cluster_after w h"
  let ?s = "identity_secret e zid token ep cfg\<lparr>ControllerRef := Some (UID e)\<rparr>"
  let ?h2 = "h1 @ [RestEnable ep token n d (Inr (zid, cfg))]"
  let ?h3 = "?h2 @ [Create (SecretObj ?s) (Inr (SecretObj ?s))]"
  have key: "object_key ?s = snd (identity_id env)" and dat: "Data (identity_secret e zid token ep cfg) = identity_data zid token ep cfg"
    by (simp_all add: identity_secret_def object_key_def new_meta_def ObjectMeta.defs Secret.defs
        same_env_fields [OF same] same_env_computes [OF same])
  show "answers w (=) KSecret SecretObj (apiSecrets A) (object_key ?s)" using srv unfolding key by (simp add: cluster_serves_def)
  show "cluster_after w ?h2 (KSecret, object_key ?s) = None" using none unfolding key by (simp add: grown_cluster [OF g1])
  have good: "good_identity env ?s" and zid': "lookup_str (Data ?s) ''envZID'' = zid"
    using zid same by (simp_all add: good_identity_def IsControlledBy_def same_env_fields dat identity_data_def lookup_str_def)
  have st3: "cluster_after w ?h3 = ?st(identity_id env \<mapsto> SecretObj ?s)"
    unfolding cluster_after_simps effect_simps grown_cluster [OF g1] using key by simp
  have times: "enabled_times ?h3 = Suc (enabled_times h)"
    using enabled_times_grown [OF g1] by (simp add: enabled_times_append enabled_times_def)
  have "wp (record_enabled A zid u e) Q ?h3"
  proof (rule wp_record_enabled [OF srv _ same])
    show "cluster_after w ?h3 (env_id env) = Some (EnvObj e)" using env by (simp only: st3) simp
    fix t h'
    let ?e = "snd (enabled_mutation zid u t e)"
    assume g: "grown w ?h3 h' ((cluster_after w ?h3)(env_id env \<mapsto> EnvObj ?e))"
    have "enabled_state w env e h ?e h'"
      unfolding enabled_state_def Let_def grown_cluster [OF g] st3
      using good key zid' same none times enabled_times_grown [OF g]
      by (intro exI [of _ ?s]) (auto simp: env_zid_mutations fun_upd_twist)
    then show "Q (None, ?e) h'" by (rule Q)
  qed
  then show "wp (case (None, ?s) of (err, _) \<Rightarrow> case err of
        Some er \<Rightarrow> do { _ \<leftarrow> REST_Disable A ep token zid; ret (Some er, e) }
      | None \<Rightarrow> record_enabled A zid u e) Q ?h3"
    by (simp only: prod.case option.case)
qed

lemma wp_enable:
  assumes srv: "cluster_serves A w env" and refs: "refs_accepted A" and en: "enable_answers A env"
    and env: "cluster_after w h (env_id env) = Some (EnvObj e)" and same: "same_env e env"
    and none: "cluster_after w h (identity_id env) = None"
    and Q: "\<And>e' h'. enabled_state w env e h e' h' \<Longrightarrow> Q (None, e') h'"
  shows "wp (enable_environment A e token (env_apiEndpoint env)) Q h"
  unfolding enable_environment_def wp_bind
proof (rule wp_uniqueID [OF en same], simp only: sum.case wp_bind)
  fix u h1
  assume g1: "grown w h h1 (cluster_after w h)"
  let ?ep = "env_apiEndpoint env" and ?n = "EnvironmentHost e u" and ?d = "EnvironmentDescription e u"
  obtain zid cfg where r: "restEnable A h1 ?ep token ?n ?d = Inr (zid, cfg)" "zid \<noteq> []"
    using en unfolding enable_answers_def by metis
  from wp_identity_stored [where Q = Q, OF srv env same none r(2) g1 Q]
  show "wp (REST_Enable A ?ep token ?n ?d) (\<lambda>y. wp (case y of
      Inl er \<Rightarrow> ret (Some er, e)
    | Inr (zid, cfg) \<Rightarrow> (case SetControllerReference A e (identity_secret e zid token ?ep cfg) of
        Inl er \<Rightarrow> ret (Some er, e)
      | Inr secret \<Rightarrow> do { (err, _) \<leftarrow> k8s_create SecretObj (apiSecrets A) secret;
          case err of Some er \<Rightarrow> do { _ \<leftarrow> REST_Disable A ?ep token zid; ret (Some er, e) }
          | None \<Rightarrow> record_enabled A zid u e })) Q) h1"
    by (simp add: REST_Enable_def r(1) SetControllerReference_accepted [OF refs])
qed

abbreviation (input) enable_anew :: "api \<Rightarrow> ZrokEnvironment \<Rightarrow> string \<Rightarrow> string \<Rightarrow> (go_error option \<times> ZrokEnvironment) op" where
  \<comment> \<open>what \<open>ensureEnabled\<close> does without an identity Secret\<close>
  "enable_anew A e token ep \<equiv>
     State_Monad.bind (if enEnvZID (EnvStatus e) \<noteq> [] then PatchEnvStatus A e (set_zid_mutation []) else ret (None, e))
       (\<lambda>(_, env). enable_environment A env token ep)"

lemma wp_enable_anew:
  assumes srv: "cluster_serves A w env" and refs: "refs_accepted A" and en: "enable_answers A env"
    and env: "cluster_after w h (env_id env) = Some (EnvObj e)" and same: "same_env e env"
    and none: "cluster_after w h (identity_id env) = None" and g0: "grown w h h0 (cluster_after w h)"
    and Q: "\<And>e' h'. enabled_state w env e h e' h' \<Longrightarrow> Q (None, e') h'"
  shows "wp (enable_anew A e token (env_apiEndpoint env)) Q h0"
proof -
  let ?st = "cluster_after w h"
  have enable: "wp (enable_environment A e1 token (env_apiEndpoint env)) Q h1"
    if g: "grown w h h1 (?st(env_id env \<mapsto> EnvObj e1))" and e1: "same_env e1 env" "Finalizers e1 = Finalizers e" for e1 h1
  proof (rule wp_enable [OF srv refs en _ e1(1)])
    show "cluster_after w h1 (env_id env) = Some (EnvObj e1)" "cluster_after w h1 (identity_id env) = None"
      using none by (simp_all add: grown_cluster [OF g])
    show "Q (None, e') h'" if "enabled_state w env e1 h1 e' h'" for e' h'
      using Q [of e' h'] that none e1 enabled_times_grown [OF g]
      by (simp add: enabled_state_def grown_cluster [OF g])
  qed
  show ?thesis
  proof (cases "enEnvZID (EnvStatus e) = []")
    case True
    have "grown w h h0 (?st(env_id env \<mapsto> EnvObj e))" using g0 env by (simp add: fun_upd_idem)
    then show ?thesis using enable [of h0 e] same True by simp
  next
    case False
    have "wp (PatchEnvStatus A e (set_zid_mutation [])) (\<lambda>y. wp (case y of (_, env') \<Rightarrow>
        enable_environment A env' token (env_apiEndpoint env)) Q) h0"
    proof (rule wp_env_patch [where w = w and env = env])
      show "cluster_after w h0 (env_id env) = Some (EnvObj e)" using env by (simp add: grown_cluster [OF g0])
      show "object_key e = object_key env" using same by (simp add: same_env_fields)
      show "object_key (snd (set_zid_mutation [] t e)) = object_key env" for t
        using env_zid_mutations(1) [of "[]" t e env] same by (simp add: same_env_fields)
      fix t es
      let ?e = "snd (set_zid_mutation [] t e)"
      assume "grown w h0 (h0 @ es) ((cluster_after w h0)(env_id env \<mapsto> EnvObj ?e))"
      then have "grown w h (h0 @ es) (?st(env_id env \<mapsto> EnvObj ?e))"
        using grown_trans [OF g0] by (simp add: grown_cluster [OF g0])
      then show "wp (case (None, ?e) of (_, env') \<Rightarrow> enable_environment A env' token (env_apiEndpoint env)) Q (h0 @ es)"
        using enable [of "h0 @ es" ?e] same by (simp add: env_zid_mutations)
    qed (use srv in \<open>simp_all add: cluster_serves_def set_zid_mutation_def total_mutation_def\<close>)
    then show ?thesis using False by simp
  qed
qed

lemma wp_ensureEnabled:
  assumes srv: "cluster_serves A w env" and refs: "refs_accepted A" and en: "enable_answers A env"
    and st: "env_state env e (cluster_after w h)"
    and bad: "\<And>er h'. identity_bad env (cluster_after w h (identity_id env)) \<Longrightarrow> \<not> IsEndpointNotAllowed er
      \<Longrightarrow> grown w h h' ((cluster_after w h)(identity_id env := None)) \<Longrightarrow> Q (Some er, e) h'"
    and good: "\<And>e' h'. \<not> identity_bad env (cluster_after w h (identity_id env)) \<Longrightarrow> enabled_state w env e h e' h'
      \<Longrightarrow> Q (None, e') h'"
  shows "wp (ensureEnabled A e token) Q h"
proof -
  note ans = srv [unfolded cluster_serves_def] and parts = st [unfolded env_state_def]
  let ?k = "snd (identity_id env)" and ?st = "cluster_after w h"
  have same: "same_env e env" and env: "?st (env_id env) = Some (EnvObj e)" using parts by blast+
  have there: "absent_or (?st (identity_id env)) (\<lambda>x. \<exists>s. x = SecretObj s \<and> object_key s = ?k)"
    using parts by (auto simp: absent_or_def split: option.splits)
  have adopt: "wp (adoptIdentitySecret A e s) Q (h @ [Get KSecret ?k (Inr (SecretObj s))])"
    if s: "?st (identity_id env) = Some (SecretObj s)" for s
  proof (rule wp_adopt [OF srv])
    let ?h = "h @ [Get KSecret ?k (Inr (SecretObj s))]"
    show "env_state env e (cluster_after w ?h)" "cluster_after w ?h (identity_id env) = Some (SecretObj s)"
      using st s by simp_all
    show "Q (Some er, e) h'" if "\<not> good_identity env s" "\<not> IsEndpointNotAllowed er"
      "grown w ?h h' ((cluster_after w ?h)(identity_id env := None))" for er h'
      using bad [of er h'] s that by (auto simp: grown_def)
    show "Q (None, e') h'" if "good_identity env s" "enabled_state w env e ?h e' h'" for e' h'
      using good [of e' h'] s that by (simp add: enabled_state_def enabled_times_append enabled_times_def)
  qed
  have "wp (getSecret A (Namespace env, IdentitySecretName env)) (\<lambda>r. wp (case r of
        Inl er \<Rightarrow> if \<not> IsNotFound er then ret (Some er, e) else enable_anew A e token (env_apiEndpoint env)
      | Inr existing \<Rightarrow> adoptIdentitySecret A e existing) Q) h"
    using there
  proof (cases rule: absent_or_cases)
    case 1
    have "wp (enable_anew A e token (env_apiEndpoint env)) Q (h @ [Get KSecret ?k (Inl er)])" for er
      using good 1 by (intro wp_enable_anew [OF srv refs en env same]) (auto simp: grown_def)
    then show ?thesis using ans 1 by (intro wp_get_absent [where w = w and view = "(=)" and wrap = SecretObj]) simp_all
  next
    case (2 x)
    then obtain s where s: "?st (identity_id env) = Some (SecretObj s)" by blast
    then show ?thesis using ans adopt by (intro wp_get_present [where w = w and view = "(=)" and x = s]) auto
  qed
  then show ?thesis
    unfolding ensureEnabled_def Let_def same_env_computes [OF same] same_env_fields(2) [OF same] by (simp only: wp_bind)
qed

section \<open>One reconcile\<close>

definition env_ok :: "cluster \<Rightarrow> ZrokEnvironment \<Rightarrow> event list \<Rightarrow> nat \<Rightarrow> bool" where
  \<comment> \<open>\<open>n\<close> repairs are left, and the environment was enabled at most once, for the identity it has\<close>
  "env_ok w env h n \<longleftrightarrow>
     (\<exists>e. env_state env e (cluster_after w h) \<and> to_repair env e (cluster_after w h) = n
        \<and> enabled_times h \<le> of_bool (\<exists>s. cluster_after w h (identity_id env) = Some (SecretObj s) \<and> good_identity env s))"

definition reconciled :: "EnvConfig \<Rightarrow> cluster \<Rightarrow> ZrokEnvironment \<Rightarrow> nat \<Rightarrow> outcome \<Rightarrow> event list \<Rightarrow> bool" where
  \<comment> \<open>a reconcile repairs something, or ends with the environment up\<close>
  "reconciled cfg w env n out h \<longleftrightarrow>
     (\<exists>m. env_ok w env h m \<and> (if n = 0 then m = 0 \<and> env_up cfg w env out h else m < n))"

lemma identity_bad_iff:
  "env_state env e st \<Longrightarrow> identity_bad env (st (identity_id env)) \<longleftrightarrow>
     (\<exists>s. st (identity_id env) = Some (SecretObj s) \<and> \<not> good_identity env s)"
  by (cases "st (identity_id env)") (auto simp: env_state_def absent_or_def)

lemma reconciled_agent:
  assumes st: "env_state env e (cluster_after w h)" and fin: "ContainsFinalizer e EnvironmentFinalizer"
    and fine: "\<not> identity_bad env (cluster_after w h (identity_id env))"
    and once: "enabled_times h \<le> of_bool (\<exists>s. cluster_after w h (identity_id env) = Some (SecretObj s) \<and> good_identity env s)"
    and en: "enabled_state w env e h e1 h1" and out: "agent_outcome cfg w env e1 h1 e2 out h2"
  shows "reconciled cfg w env (to_repair env e (cluster_after w h)) out h2"
proof -
  let ?st = "cluster_after w h" and ?st2 = "cluster_after w h2"
  obtain s where s: "cluster_after w h1 = ?st(env_id env \<mapsto> EnvObj e1, identity_id env \<mapsto> SecretObj s)"
      "good_identity env s" "enEnvZID (EnvStatus e1) = lookup_str (Data s) ''envZID''" "Finalizers e1 = Finalizers e"
      "enabled_times h1 = enabled_times h + of_bool (?st (identity_id env) = None)"
    using en unfolding enabled_state_def Let_def by blast
  note o = out [unfolded agent_outcome_def Let_def]
  have id2: "?st2 (identity_id env) = Some (SecretObj s)" using o s(1) by simp
  have svc: "cluster_after w h1 (service_id env) = ?st (service_id env)" by (simp add: s(1))
  have kept: "Finalizers e2 = Finalizers e" "enEnvZID (EnvStatus e2) = lookup_str (Data s) ''envZID''"
    using o s(3,4) by (simp_all add: agent_status_kept_def)
  have none: "to_repair env e2 ?st2 = 0"
  proof -
    have "\<not> identity_bad env (?st2 (identity_id env))" by (simp add: id2 s(2))
    moreover have "\<not> service_bad (?st2 (service_id env))" using o by blast
    moreover have "ContainsFinalizer e2 EnvironmentFinalizer" using fin kept(1) by (simp add: ContainsFinalizer_def)
    ultimately show ?thesis by (simp add: to_repair_def)
  qed
  have n: "to_repair env e ?st = of_bool (service_bad (?st (service_id env)))"
    using fine fin by (simp add: to_repair_def)
  have times: "enabled_times h2 \<le> 1"
    using o s(5) once by (auto simp: of_bool_def split: if_splits)
  have ok: "env_ok w env h2 0"
    unfolding env_ok_def using o none times id2 s(2) by (intro exI [of _ e2]) auto
  have "env_up cfg w env out h2" if "\<not> service_bad (?st (service_id env))"
  proof -
    have "?st2 (env_id env) = Some (EnvObj e2)" "same_env e2 env" using o by (auto simp: env_state_def)
    then show ?thesis
      unfolding env_up_def Let_def using o that svc id2 s(2) kept times
      by (intro conjI exI [of _ e2] exI [of _ s]) (auto simp: good_identity_def)
  qed
  then show ?thesis unfolding reconciled_def n using ok by (intro exI [of _ 0]) auto
qed

lemma reconciled_identity:
  \<comment> \<open>a planted identity was deleted\<close>
  assumes st: "env_state env e (cluster_after w h)" and fin: "ContainsFinalizer e EnvironmentFinalizer"
    and bad: "identity_bad env (cluster_after w h (identity_id env))"
    and once: "enabled_times h \<le> of_bool (\<exists>s. cluster_after w h (identity_id env) = Some (SecretObj s) \<and> good_identity env s)"
    and g: "grown w h h1 ((cluster_after w h)(identity_id env := None))"
    and g': "grown w h1 h2 ((cluster_after w h1)(env_id env \<mapsto> EnvObj e'))" and kept: "agent_status_kept e' e"
  shows "reconciled cfg w env (to_repair env e (cluster_after w h)) out h2"
proof -
  let ?st2 = "cluster_after w h2"
  have "env_state env e' ?st2"
    unfolding grown_cluster [OF g'] grown_cluster [OF g]
    by (rule env_state_updates(6) [OF env_state_updates(7) [OF st] kept])
  moreover have "enabled_times h2 = 0"
    using bad once enabled_times_grown [OF g] enabled_times_grown [OF g'] by (auto simp: identity_bad_iff [OF st])
  ultimately have "env_ok w env h2 (to_repair env e' ?st2)" unfolding env_ok_def by auto
  moreover have "to_repair env e' ?st2 < to_repair env e (cluster_after w h)"
    using bad kept by (simp add: grown_cluster [OF g'] grown_cluster [OF g] to_repair_def ContainsFinalizer_def agent_status_kept_def)
  ultimately show ?thesis unfolding reconciled_def by auto
qed

lemma wp_env_token:
  assumes srv: "serves (apiSecrets A) (Namespace env, skName (enEnableTokenSecretRef (EnvSpec env))) secret"
    and key: "lookup_str (Data secret) (if skKey (enEnableTokenSecretRef (EnvSpec env)) = [] then DefaultEnableTokenKey
          else skKey (enEnableTokenSecretRef (EnvSpec env))) \<noteq> []"
    and same: "same_env e env" and Q: "\<And>tok h'. grown w h h' (cluster_after w h) \<Longrightarrow> Q (Inr tok) h'"
  shows "wp (env_readEnableToken A e) Q h"
proof -
  let ?ref = "enEnableTokenSecretRef (EnvSpec env)"
  let ?k = "if skKey ?ref = [] then DefaultEnableTokenKey else skKey ?ref"
  obtain raw where "Data secret ?k = Some raw" "raw \<noteq> []"
    using key by (auto simp: lookup_str_def split: option.splits)
  then show ?thesis
    using Q [of "h @ [Get KSecret (Namespace env, skName ?ref) (Inr (SecretObj secret))]"] srv
    unfolding env_readEnableToken_def Let_def same_env_fields [OF same]
    by (simp add: grown_def serves_def k8s_get_def)
qed

lemma wp_finalizer:
  assumes srv: "cluster_serves A w env" and st: "env_state env e (cluster_after w h)"
    and once: "enabled_times h \<le> of_bool (\<exists>s. cluster_after w h (identity_id env) = Some (SecretObj s) \<and> good_identity env s)"
    and none: "\<not> ContainsFinalizer e EnvironmentFinalizer"
  shows "wp (k8s_update EnvObj (apiEnvs A) (AddFinalizer e EnvironmentFinalizer))
    (\<lambda>y. reconciled cfg w env (to_repair env e (cluster_after w h)) (no_requeue, fst y)) h"
proof (rule wp_update [where w = w and view = "(=)" and kd = KEnv])
  let ?e = "AddFinalizer e EnvironmentFinalizer" and ?st = "cluster_after w h"
  let ?h = "h @ [Update (EnvObj ?e) (Inr (EnvObj ?e))]"
  have same: "same_env e env" using st by (simp add: env_state_def)
  then have key: "object_key ?e = object_key env" and same': "same_env ?e env"
    by (simp_all add: AddFinalizer_def same_env_def object_key_def)
  show "answers w (=) KEnv EnvObj (apiEnvs A) (object_key ?e)" using srv key by (simp add: cluster_serves_def)
  have st': "cluster_after w ?h = ?st(env_id env \<mapsto> EnvObj ?e)" by (simp add: key)
  have "env_state env ?e (cluster_after w ?h)"
    using st same' unfolding st' env_state_def absent_or_def by (auto simp: AddFinalizer_def split: option.splits)
  moreover have "to_repair env ?e (cluster_after w ?h) < to_repair env e ?st"
    using none unfolding st' by (simp add: to_repair_def ContainsFinalizer_def AddFinalizer_def)
  moreover have "enabled_times ?h = enabled_times h" by (simp add: enabled_times_append enabled_times_def)
  ultimately show "reconciled cfg w env (to_repair env e ?st) (no_requeue, fst (None, ?e)) ?h"
    using once unfolding reconciled_def env_ok_def st' by auto
qed

abbreviation (input) after_enabled :: "api \<Rightarrow> EnvConfig \<Rightarrow> go_error option \<times> ZrokEnvironment \<Rightarrow> outcome op" where
  \<comment> \<open>what \<open>env_live\<close> makes of the reply of \<open>ensureEnabled\<close>\<close>
  "after_enabled A cfg \<equiv> (\<lambda>(err, env). case err of
     Some er \<Rightarrow> if IsEndpointNotAllowed er
       then State_Monad.bind (env_setNotReady A env ''EndpointNotAllowed'' (Error er)) (\<lambda>_. ret (requeue_after 120, None))
       else State_Monad.bind (env_setNotReady A env ''EnableError'' (Error er)) (\<lambda>env.
         State_Monad.bind (emit EnvironmentReconcileErrors_Inc) (\<lambda>_.
           State_Monad.bind (env_record env EventTypeWarning ''EnableError'' ''Error'' (Error er)) (\<lambda>_. ret (no_requeue, Some er))))
   | None \<Rightarrow> env_ensure_agent A cfg env)"

lemma wp_after_bad_identity:
  assumes srv: "cluster_serves A w env" and st: "env_state env e (cluster_after w h)"
    and fin: "ContainsFinalizer e EnvironmentFinalizer"
    and once: "enabled_times h \<le> of_bool (\<exists>s. cluster_after w h (identity_id env) = Some (SecretObj s) \<and> good_identity env s)"
    and bad: "identity_bad env (cluster_after w h (identity_id env))" and er: "\<not> IsEndpointNotAllowed er"
    and g: "grown w h h1 ((cluster_after w h)(identity_id env := None))"
  shows "wp (after_enabled A cfg (Some er, e)) (reconciled cfg w env (to_repair env e (cluster_after w h))) h1"
proof -
  let ?Q = "reconciled cfg w env (to_repair env e (cluster_after w h))"
  have "wp (env_setNotReady A e ''EnableError'' (Error er)) (\<lambda>env. wp (do { emit EnvironmentReconcileErrors_Inc;
      env_record env EventTypeWarning ''EnableError'' ''Error'' (Error er); ret (no_requeue, Some er) }) ?Q) h1"
  proof (rule wp_env_failed [where w = w and env = env])
    show "cluster_after w h1 (env_id env) = Some (EnvObj e)" using st by (simp add: grown_cluster [OF g] env_state_def)
    show "same_env e env" using st by (simp add: env_state_def)
    fix e' h'
    assume g2: "grown w h1 h' ((cluster_after w h1)(env_id env \<mapsto> EnvObj e'))" and kept: "agent_status_kept e' e"
    let ?rec = "Recorded KEnv (object_key e') EventTypeWarning ''EnableError'' ''Error'' (Error er)"
    have "grown w h1 ((h' @ [EnvironmentReconcileErrors_Inc]) @ [?rec]) ((cluster_after w h1)(env_id env \<mapsto> EnvObj e'))"
      using grown_event [OF grown_event [OF g2, of EnvironmentReconcileErrors_Inc], of ?rec] by (simp add: effect_calm)
    from reconciled_identity [OF st fin bad once g this kept]
    show "wp (do { emit EnvironmentReconcileErrors_Inc;
        env_record e' EventTypeWarning ''EnableError'' ''Error'' (Error er); ret (no_requeue, Some er) }) ?Q h'"
      by (simp add: env_record_def)
  qed (use srv in \<open>simp_all add: cluster_serves_def\<close>)
  then show ?thesis using er by simp
qed

lemma wp_env_live:
  assumes w: "env_wanted A cfg w env secret" and st: "env_state env e (cluster_after w h)"
    and once: "enabled_times h \<le> of_bool (\<exists>s. cluster_after w h (identity_id env) = Some (SecretObj s) \<and> good_identity env s)"
  shows "wp (env_live A cfg e) (reconciled cfg w env (to_repair env e (cluster_after w h))) h"
proof (cases "ContainsFinalizer e EnvironmentFinalizer")
  case False
  have srv: "cluster_serves A w env" using w by (simp add: env_wanted_def)
  show ?thesis
    using wp_finalizer [OF srv st once False, of cfg] False
    by (simp add: env_live_def case_prod_beta wp_ret_fun)
next
  case fin: True
  let ?Q = "reconciled cfg w env (to_repair env e (cluster_after w h))" and ?st = "cluster_after w h"
  note facts = w [unfolded env_wanted_def]
  have srv: "cluster_serves A w env" and refs: "refs_accepted A" and en: "enable_answers A env" using facts by blast+
  have same: "same_env e env" using st by (simp add: env_state_def)
  have image: "ValidateImage (agImage (enAgent (EnvSpec e))) (AllowedAgentImages cfg) = None"
    using facts by (simp add: ValidateImage_None same_env_fields [OF same])
  have enabled: "wp (ensureEnabled A e tok) (\<lambda>y. wp (after_enabled A cfg y) ?Q) h0" if g0: "grown w h h0 ?st" for tok h0
  proof (rule wp_ensureEnabled [OF srv refs en])
    have st0: "cluster_after w h0 = ?st" and times: "enabled_times h0 = enabled_times h"
      using grown_cluster [OF g0] enabled_times_grown [OF g0] by simp_all
    show "env_state env e (cluster_after w h0)" using st by (simp add: st0)
    show "wp (after_enabled A cfg (None, e1)) ?Q h1"
      if fine: "\<not> identity_bad env (cluster_after w h0 (identity_id env))" and ens: "enabled_state w env e h0 e1 h1" for e1 h1
    proof -
      have "env_state env e1 (cluster_after w h1)"
        using st ens unfolding enabled_state_def Let_def st0 env_state_def absent_or_def by (auto split: option.splits)
      then have "wp (env_ensure_agent A cfg e1) ?Q h1"
        using fine once st fin ens st0 times
        by (intro wp_ensure_agent [OF srv refs]) (auto intro!: reconciled_agent simp: enabled_state_def)
      then show ?thesis by simp
    qed
    show "wp (after_enabled A cfg (Some er, e)) ?Q h1"
      if "identity_bad env (cluster_after w h0 (identity_id env))" "\<not> IsEndpointNotAllowed er"
        "grown w h0 h1 ((cluster_after w h0)(identity_id env := None))" for er h1
      using that grown_trans [OF g0, of h1] by (intro wp_after_bad_identity [OF srv st fin once]) (simp_all add: st0)
  qed
  have "wp (env_readEnableToken A e) (\<lambda>r. wp (case r of
        Inl er \<Rightarrow> do { env \<leftarrow> env_setNotReady A e ''SecretError'' (Error er); emit EnvironmentReconcileErrors_Inc;
                     env_record env EventTypeWarning ''SecretError'' ''Error'' (Error er); ret (no_requeue, Some er) }
      | Inr token \<Rightarrow> (case ValidateImage (agImage (enAgent (EnvSpec e))) (AllowedAgentImages cfg) of
             Some er \<Rightarrow> do { _ \<leftarrow> env_setNotReady A e ''ImageNotAllowed'' (Error er); ret (requeue_after 120, None) }
           | None \<Rightarrow> State_Monad.bind (ensureEnabled A e token) (after_enabled A cfg))) ?Q) h"
    using facts enabled by (intro wp_env_token [OF _ _ same]) (auto simp: image)
  then show ?thesis using fin unfolding env_live_def by simp
qed

lemma wp_env_reconcile:
  assumes w: "env_wanted A cfg w env secret" and ok: "env_ok w env h n"
  shows "wp (env_Reconcile A cfg (object_key env)) (reconciled cfg w env n) h"
proof -
  obtain e where e: "env_state env e (cluster_after w h)" "to_repair env e (cluster_after w h) = n"
      "enabled_times h \<le> of_bool (\<exists>s. cluster_after w h (identity_id env) = Some (SecretObj s) \<and> good_identity env s)"
    using ok unfolding env_ok_def by blast
  have there: "cluster_after w h (env_id env) = Some (EnvObj e)" and same: "same_env e env"
    using e(1) by (simp_all add: env_state_def)
  have live: "DeletionTimestamp e = None" using w same by (simp add: env_wanted_def same_env_fields)
  let ?h = "h @ [Get KEnv (object_key env) (Inr (EnvObj e))]"
  have "enabled_times ?h = enabled_times h" by (simp add: enabled_times_append enabled_times_def)
  then have "wp (env_live A cfg e) (reconciled cfg w env n) ?h"
    using wp_env_live [OF w, of e ?h] e by simp
  then show ?thesis
    unfolding env_Reconcile_def wp_bind using w live
    by (intro wp_get_present [where w = w and view = "(=)" and x = e]) (auto simp: there env_wanted_def cluster_serves_def)
qed

lemma wp_env_again:
  assumes w: "env_wanted A cfg w env secret" and ok: "env_ok w env h k" and le: "k \<le> n"
  shows "wp (again n (env_Reconcile A cfg (object_key env))) (env_up cfg w env) h"
  using ok le
proof (induction n arbitrary: h k)
  case 0
  then show ?case by (auto intro!: wp_mono [OF wp_env_reconcile [OF w]] simp: reconciled_def)
next
  case (Suc n)
  have "wp (env_Reconcile A cfg (object_key env)) (\<lambda>_. wp (again n (env_Reconcile A cfg (object_key env))) (env_up cfg w env)) h"
    by (rule wp_mono [OF wp_env_reconcile [OF w Suc.prems(1)]])
       (use Suc.prems(2) in \<open>auto simp: reconciled_def split: if_splits intro: Suc.IH\<close>)
  then show ?case by simp
qed

lemma environment_goes_up:
  assumes "env_wanted A cfg w env secret" and "to_repair env env w \<le> n"
  shows "env_up cfg w env (result_of (again n (env_Reconcile A cfg (object_key env))))
     (trace_of (again n (env_Reconcile A cfg (object_key env))))"
proof -
  have "env_ok w env [] (to_repair env env w)"
    using assms(1) by (auto simp: env_ok_def env_wanted_def enabled_times_def)
  from wp_env_again [OF assms(1) this assms(2)] show ?thesis by (simp add: wp_trace)
qed

section \<open>Properties\<close>

text \<open>C10: Progress of an environment from any beginning: when the enable token can be read, the image is
  allowed and the zrok controller enables environments, then however often it is reconciled -
  provided once more than there are repairs to be made, which are the finalizer, an identity
  Secret that somebody planted, and an agent Service that somebody hijacked - the last reconcile
  ends without an error; the remote environment was enabled at most once, and not at all if the
  identity was there; the identity Secret is the environment's own and agrees with its status;
  volume, Service, Deployment and network policy are as wanted; and the stored environment is
  \<open>Ready\<close> for its generation just if the last look at the agent saw it running and answering.
  Pods may start when they like, and the agent may answer or not.\<close>

theorem environment_comes_up:
  assumes "env_wanted A cfg w env secret" and "to_repair env env w \<le> n"
  shows "env_up cfg w env (result_of (again n (env_Reconcile A cfg (object_key env))))
     (trace_of (again n (env_Reconcile A cfg (object_key env))))"
  using environment_goes_up [OF assms] .

definition lab_new_env :: ZrokEnvironment where
  "lab_new_env = lab_env\<lparr>Finalizers := {}\<rparr>"

definition lab_planted :: Secret where
  "lab_planted = lab_secret ''prod'' ''main-zrok-identity'' [''envZID'' \<mapsto> ''evil'']"

definition lab_cluster :: cluster where
  \<comment> \<open>a new environment, and a Secret that somebody planted under the name of its identity\<close>
  "lab_cluster = [(KEnv, (''prod'', ''main'')) \<mapsto> EnvObj lab_new_env,
     (KSecret, (''prod'', ''main-zrok-identity'')) \<mapsto> SecretObj lab_planted]"

definition lab_running :: "Deployment \<Rightarrow> Deployment" where
  "lab_running d = d\<lparr>depReadyReplicas := 1, depUpdatedReplicas := 1\<rparr>"

definition lab_cluster_world :: api where
  "lab_cluster_world = (lab [] [] [] [] \<lparr>stShares = [], stAccesses = []\<rparr> [])
     \<lparr>apiEnvs := cluster_client lab_cluster KEnv (\<lambda>x. case x of EnvObj e \<Rightarrow> Some e | _ \<Rightarrow> None),
      apiSecrets := (let c = cluster_client lab_cluster KSecret (\<lambda>x. case x of SecretObj s \<Rightarrow> Some s | _ \<Rightarrow> None) in
        c\<lparr>cGet := (\<lambda>h k. if k = (''prod'', ''token'') then Inr (lab_secret ''prod'' ''token'' [DefaultEnableTokenKey \<mapsto> ''t0''])
                        else cGet c h k)\<rparr>),
      apiPVCs := cluster_client lab_cluster KPVC (\<lambda>x. case x of PVCObj p \<Rightarrow> Some p | _ \<Rightarrow> None),
      apiServices := cluster_client lab_cluster KService (\<lambda>x. case x of ServiceObj s \<Rightarrow> Some s | _ \<Rightarrow> None),
      apiDeployments := (let c = cluster_client lab_cluster KDeployment (\<lambda>x. case x of DeploymentObj d \<Rightarrow> Some d | _ \<Rightarrow> None) in
        c\<lparr>cGet := (\<lambda>h k. map_sum id lab_running (cGet c h k))\<rparr>),
      apiNetworkPolicies := cluster_client lab_cluster KNetworkPolicy (\<lambda>x. case x of NetworkPolicyObj p \<Rightarrow> Some p | _ \<Rightarrow> None)\<rparr>"

definition lab_policy_config :: EnvConfig where
  "lab_policy_config = \<lparr>ManagerNamespace = ''zrok'', ManagerAppName = [], AgentNetworkPolicy = True, AllowedAgentImages = []\<rparr>"

lemma lab_new_env_fields [simp]:
  "Name lab_new_env = ''main''" "Namespace lab_new_env = ''prod''" "object_key lab_new_env = (''prod'', ''main'')"
  "EnvSpec lab_new_env = EnvSpec lab_env" "DeletionTimestamp lab_new_env = None" "Finalizers lab_new_env = {}"
  "IdentitySecretName lab_new_env = ''main-zrok-identity''"
  by (simp_all add: lab_new_env_def lab_env_def zero_env_def object_key_def IdentitySecretName_def)

lemma lab_cluster_serves: "cluster_serves lab_cluster_world lab_cluster lab_new_env"
proof -
  let ?c = "cluster_client lab_cluster KDeployment (\<lambda>x. case x of DeploymentObj d \<Rightarrow> Some d | _ \<Rightarrow> None)"
  have dep: "answers lab_cluster same_deployment KDeployment DeploymentObj (?c\<lparr>cGet := (\<lambda>h k. map_sum id lab_running (cGet ?c h k))\<rparr>) k" for k
    by (auto simp: answers_def cluster_client_def lab_missing_def IsNotFound_def same_deployment_def lab_running_def
        split: option.split)
  let ?s = "cluster_client lab_cluster KSecret (\<lambda>x. case x of SecretObj s \<Rightarrow> Some s | _ \<Rightarrow> None)"
  let ?id = "(''prod'', ''main-zrok-identity'')"
  have "answers lab_cluster (=) KSecret SecretObj (?s\<lparr>cGet := (\<lambda>h k. if k = (''prod'', ''token'') then token else cGet ?s h k)\<rparr>) ?id" for token
    by (auto simp: answers_def cluster_client_def lab_missing_def IsNotFound_def split: option.split)
  then show ?thesis
    using dep unfolding cluster_serves_def lab_cluster_world_def Let_def
    by (simp add: cluster_client_answers)
qed

lemma lab_env_wanted: "env_wanted lab_cluster_world lab_policy_config lab_cluster lab_new_env
    (lab_secret ''prod'' ''token'' [DefaultEnableTokenKey \<mapsto> ''t0''])"
proof -
  have planted: "Data lab_planted = [''envZID'' \<mapsto> ''evil'']" "ControllerRef lab_planted = None" "object_key lab_planted = (''prod'', ''main-zrok-identity'')"
    by (simp_all add: lab_planted_def lab_secret_def lab_meta_def object_key_def ObjectMeta.defs Secret.defs)
  have ref: "enEnableTokenSecretRef (EnvSpec lab_env) = \<lparr>skName = ''token'', skKey = []\<rparr>" "enUniqueID (EnvSpec lab_env) = ''c1''"
    "agImage (enAgent (EnvSpec lab_env)) = []"
    by (simp_all add: lab_env_def zero_env_def)
  have "env_state lab_new_env lab_new_env lab_cluster"
    by (simp add: env_state_def lab_cluster_def same_env_def absent_or_def good_identity_def IsControlledBy_def planted)
  moreover have "enable_answers lab_cluster_world lab_new_env"
    by (simp add: enable_answers_def lab_cluster_world_def lab_def ref Let_def)
  moreover have "serves (apiSecrets lab_cluster_world) (''prod'', ''token'') (lab_secret ''prod'' ''token'' [DefaultEnableTokenKey \<mapsto> ''t0''])"
    by (simp add: serves_def lab_cluster_world_def Let_def)
  moreover have "refs_accepted lab_cluster_world" by (simp add: refs_accepted_def lab_cluster_world_def lab_def)
  ultimately show ?thesis
    using lab_cluster_serves by (simp add: env_wanted_def ref ImageAllowed_def lookup_str_def)
qed

lemma environment_comes_up_witness:
  "env_up lab_policy_config lab_cluster lab_new_env
     (result_of (again 2 (env_Reconcile lab_cluster_world lab_policy_config (''prod'', ''main''))))
     (trace_of (again 2 (env_Reconcile lab_cluster_world lab_policy_config (''prod'', ''main''))))"
  using environment_comes_up [OF lab_env_wanted, of 2] by (simp add: to_repair_def lab_cluster_def)

end
