(* ===== verification/Watches.thy ===== *)
theory Watches
  imports Quiescence EnvProgress
begin

text \<open>
  The \<open>SetupWithManager\<close> functions of \<open>internal/controller\<close>: what a change in the cluster asks to be
  reconciled. With them, an environment that becomes ready wakes the shares and accesses that
  wait for it, and a share that was reported wakes nobody.
\<close>

section \<open>The registrations\<close>

record controller =
  ctlName :: string
  ctlFor :: okind
  ctlPredicate :: "object \<Rightarrow> bool"
  ctlOwns :: "okind list"
  ctlWatches :: "(okind \<times> (object \<Rightarrow> key list op)) list" \<comment> \<open>\<open>EnqueueRequestsFromMapFunc\<close>\<close>

record manager =
  mgIndexField :: "okind \<Rightarrow> string \<Rightarrow> (object \<Rightarrow> string list) \<Rightarrow> go_error option"
    \<comment> \<open>\<open>mgr.GetFieldIndexer().IndexField\<close>\<close>
  mgComplete :: "controller \<Rightarrow> go_error option" \<comment> \<open>\<open>builder.Complete\<close>\<close>

definition complete :: "manager \<Rightarrow> controller \<Rightarrow> go_error + controller" where
  "complete M c = (case mgComplete M c of Some e \<Rightarrow> Inl e | None \<Rightarrow> Inr c)"

definition setupEnvironmentRefIndex :: "manager \<Rightarrow> okind \<Rightarrow> go_error option" where
  "setupEnvironmentRefIndex M kd = mgIndexField M kd ''.spec.environmentRef.name'' indexByEnvironmentRef"

definition of_env :: "(ZrokEnvironment \<Rightarrow> key list op) \<Rightarrow> object \<Rightarrow> key list op" where
  \<comment> \<open>a map function on the objects of its watch\<close>
  "of_env f obj = (case obj of EnvObj env \<Rightarrow> f env | _ \<Rightarrow> ret [])"

definition share_SetupWithManager :: "api \<Rightarrow> manager \<Rightarrow> go_error + controller" where
  "share_SetupWithManager A M =
     (case setupEnvironmentRefIndex M KShare of
        Some e \<Rightarrow> Inl e
      | None \<Rightarrow> complete M \<lparr>ctlName = ''zrokshare'', ctlFor = KShare, ctlPredicate = (\<lambda>_. True), ctlOwns = [],
                            ctlWatches = [(KEnv, of_env (mapEnvToShares A))]\<rparr>)"

definition access_SetupWithManager :: "api \<Rightarrow> manager \<Rightarrow> go_error + controller" where
  "access_SetupWithManager A M =
     (case setupEnvironmentRefIndex M KAccess of
        Some e \<Rightarrow> Inl e
      | None \<Rightarrow> complete M \<lparr>ctlName = ''zrokaccess'', ctlFor = KAccess, ctlPredicate = (\<lambda>_. True), ctlOwns = [],
                            ctlWatches = [(KEnv, of_env (mapEnvToAccesses A))]\<rparr>)"

definition env_SetupWithManager :: "manager \<Rightarrow> go_error + controller" where
  "env_SetupWithManager M =
     complete M \<lparr>ctlName = ''zrokenvironment'', ctlFor = KEnv, ctlPredicate = (\<lambda>_. True),
       ctlOwns = [KDeployment, KService, KPVC, KSecret, KNetworkPolicy], ctlWatches = []\<rparr>"

definition ingress_class_predicate :: "object \<Rightarrow> bool" where
  "ingress_class_predicate obj =
     (case obj of IngressObj ing \<Rightarrow> ingIngressClassName ing = Some IngressClassName | _ \<Rightarrow> False)"

definition ingress_SetupWithManager :: "manager \<Rightarrow> go_error + controller" where
  "ingress_SetupWithManager M =
     complete M \<lparr>ctlName = ''zrok-ingress'', ctlFor = KIngress, ctlPredicate = ingress_class_predicate,
       ctlOwns = [KShare], ctlWatches = []\<rparr>"

section \<open>Changes and requests\<close>

text \<open>
  controller-runtime turns a change of an object into requests: for the kind a controller is \<open>For\<close>
  the object itself, if the predicate holds of its latest version; for an owned kind the object's
  controller owner, before and after; for a watched kind what the map function returns, before and
  after. The API server sends no event for a write that changes nothing.
\<close>

datatype change = Created object | Changed object object | Removed object

fun versions :: "change \<Rightarrow> object list" where
  "versions (Created x) = [x]"
| "versions (Changed x y) = [y, x]"
| "versions (Removed x) = [x]"

fun object_meta :: "object \<Rightarrow> ObjectMeta" where
  "object_meta (ShareObj x) = ObjectMeta.truncate x"
| "object_meta (EnvObj x) = ObjectMeta.truncate x"
| "object_meta (AccessObj x) = ObjectMeta.truncate x"
| "object_meta (IngressObj x) = ObjectMeta.truncate x"
| "object_meta (SecretObj x) = ObjectMeta.truncate x"
| "object_meta (PVCObj x) = ObjectMeta.truncate x"
| "object_meta (ServiceObj x) = ObjectMeta.truncate x"
| "object_meta (DeploymentObj x) = ObjectMeta.truncate x"
| "object_meta (NetworkPolicyObj x) = ObjectMeta.truncate x"
| "object_meta (NamespaceObj x) = x"

definition owner_requests :: "(string \<Rightarrow> (okind \<times> key) option) \<Rightarrow> controller \<Rightarrow> object \<Rightarrow> key list" where
  \<comment> \<open>\<open>owner\<close> tells which object has a UID; an owner reference carries its kind and name\<close>
  "owner_requests owner c obj =
     (case Option.bind (ControllerRef (object_meta obj)) owner of
        Some (kd, k) \<Rightarrow> if kd = ctlFor c then [k] else []
      | None \<Rightarrow> [])"

definition requests :: "(string \<Rightarrow> (okind \<times> key) option) \<Rightarrow> controller \<Rightarrow> event list \<Rightarrow> change \<Rightarrow> key list" where
  "requests owner c h ch =
     (let vs = versions ch; kd = fst (object_id (hd vs)) in
      (if kd = ctlFor c \<and> ctlPredicate c (hd vs) then [snd (object_id (hd vs))] else [])
      @ (if kd \<in> set (ctlOwns c) then concat (map (owner_requests owner c) vs) else [])
      @ concat (map (\<lambda>(kd', f). if kd = kd' then concat (map (\<lambda>v. fst (run_state (f v) h)) vs) else []) (ctlWatches c)))"

fun transition :: "object option \<Rightarrow> object option \<Rightarrow> change list" where
  "transition None None = []"
| "transition None (Some y) = [Created y]"
| "transition (Some x) None = [Removed x]"
| "transition (Some x) (Some y) = (if x = y then [] else [Changed x y])"

definition changes :: "cluster \<Rightarrow> event \<Rightarrow> change list" where
  \<comment> \<open>what a call changes in the cluster\<close>
  "changes st e =
     (case written e of
        Some y \<Rightarrow> transition (st (object_id y)) (Some y)
      | None \<Rightarrow> (case deleted e of Some i \<Rightarrow> transition (st i) None | None \<Rightarrow> []))"

primrec woken :: "(string \<Rightarrow> (okind \<times> key) option) \<Rightarrow> controller \<Rightarrow> event list \<Rightarrow> cluster \<Rightarrow> event list \<Rightarrow> key list" where
  \<comment> \<open>what the calls \<open>es\<close> after a history \<open>h\<close> ask a controller to reconcile\<close>
  "woken owner c h st [] = []"
| "woken owner c h st (e # es) =
     concat (map (requests owner c (h @ [e])) (changes st e)) @ woken owner c (h @ [e]) (effect e st) es"

section \<open>Ingresses that leave the class\<close>

lemma ingress_leaving_class_is_ignored:
  \<comment> \<open>an Ingress that is given to another class wakes nobody, and a reconcile of it only reads it: the share
     that was made for it stays as it is\<close>
  assumes "ingress_SetupWithManager M = Inr c" and "ingIngressClassName new \<noteq> Some IngressClassName"
  shows "requests owner c h (Changed (IngressObj old) (IngressObj new)) = []"
    and "serves (apiIngresses A) k new \<Longrightarrow> trace_of (ingress_Reconcile A k) = [Get KIngress k (Inr (IngressObj new))]"
proof -
  have c: "c = \<lparr>ctlName = ''zrok-ingress'', ctlFor = KIngress, ctlPredicate = ingress_class_predicate,
      ctlOwns = [KShare], ctlWatches = []\<rparr>"
    using assms(1) by (auto simp: ingress_SetupWithManager_def complete_def split: option.splits)
  show "requests owner c h (Changed (IngressObj old) (IngressObj new)) = []"
    using assms(2) by (simp add: c requests_def Let_def ingress_class_predicate_def)
  show "trace_of (ingress_Reconcile A k) = [Get KIngress k (Inr (IngressObj new))]" if "serves (apiIngresses A) k new"
    using that assms(2) by (simp add: ingress_Reconcile_def trace_of_def serves_def k8s_get_def is_zrok_ingress_def)
qed

section \<open>Changes of an environment\<close>

lemma woken_append:
  "woken owner c h st (es @ es') = woken owner c h st es @ woken owner c (h @ es) (fold effect es st) es'"
  by (induction es arbitrary: h st) auto

definition well_placed :: "okind \<times> key \<Rightarrow> cluster \<Rightarrow> bool" where
  "well_placed i st \<longleftrightarrow> (\<forall>x. st i = Some x \<longrightarrow> object_id x = i)"

lemma effect_well_placed: "well_placed i st \<Longrightarrow> well_placed i (effect e st)"
  by (auto simp: well_placed_def effect_def split: option.splits)

lemma fold_well_placed: "well_placed i st \<Longrightarrow> well_placed i (fold effect es st)"
  by (induction es arbitrary: st) (auto intro: effect_well_placed)

lemma effect_change:
  assumes "effect e st i \<noteq> st i" and "well_placed i st"
  shows "\<exists>ch \<in> set (changes st e). object_id (hd (versions ch)) = i"
proof (cases "written e")
  case (Some y)
  then have "object_id y = i" "st i \<noteq> Some y" using assms(1) by (auto simp: effect_def split: if_splits)
  then show ?thesis using Some by (cases "st i") (simp_all add: changes_def)
next
  case None
  then have "deleted e = Some i" using assms(1) by (cases "deleted e") (auto simp: effect_def split: if_splits)
  moreover from this None have "st i \<noteq> None" using assms(1) by (simp add: effect_def)
  ultimately show ?thesis using None assms(2) by (cases "st i") (simp_all add: changes_def well_placed_def)
qed

lemma change_wakes:
  \<comment> \<open>an object that has changed after some calls was changed by one of them\<close>
  assumes "fold effect es st i \<noteq> st i" and "well_placed i st"
    and "\<And>h ch. object_id (hd (versions ch)) = i \<Longrightarrow> k \<in> set (requests owner c h ch)"
  shows "k \<in> set (woken owner c h st es)"
  using assms(1,2)
proof (induction es arbitrary: h st)
  case (Cons e es)
  show ?case
  proof (cases "effect e st i = st i")
    case True
    then show ?thesis using Cons.IH [of "effect e st"] Cons.prems effect_well_placed by simp
  next
    case False
    then obtain ch where "ch \<in> set (changes st e)" "object_id (hd (versions ch)) = i"
      using effect_change Cons.prems(2) by blast
    then show ?thesis using assms(3) by auto
  qed
qed simp

definition users :: "('o ObjectMeta_scheme \<Rightarrow> string) \<Rightarrow> 'o ObjectMeta_scheme list \<Rightarrow> ZrokEnvironment \<Rightarrow> key set" where
  \<comment> \<open>the objects that refer to an environment\<close>
  "users ref objs env = object_key ` {x \<in> set objs. Namespace x = Namespace env \<and> ref x = Name env}"

definition share_env :: "ZrokShare \<Rightarrow> string" where "share_env s = shEnvironmentRef (ShareSpec s)"
definition access_env :: "ZrokAccess \<Rightarrow> string" where "access_env a = acEnvironmentRef (AccessSpec a)"

definition indexed_cache :: "api \<Rightarrow> ZrokShare list \<Rightarrow> ZrokAccess list \<Rightarrow> bool" where
  \<comment> \<open>the cache lists by the index\<close>
  "indexed_cache A shares accesses \<longleftrightarrow>
     (\<forall>h ns n. apiListShares A h (InNamespaceForEnv ns n) = Inr (filter (indexed ShareObj (InNamespaceForEnv ns n)) shares)
        \<and> apiListAccesses A h (InNamespaceForEnv ns n) = Inr (filter (indexed AccessObj (InNamespaceForEnv ns n)) accesses))"

lemma map_functions:
  assumes "indexed_cache A shares accesses" and "Name env \<noteq> []"
  shows "set (fst (run_state (mapEnvToShares A env) h)) = users share_env shares env"
    and "set (fst (run_state (mapEnvToAccesses A env) h)) = users access_env accesses env"
  using assms
  by (auto simp: indexed_cache_def mapEnvToShares_def mapEnvToAccesses_def listZrokShares_def listZrokAccesses_def
      indexed_def indexByEnvironmentRef_def users_def share_env_def access_env_def)

lemma env_requests:
  assumes "object_id (hd (versions ch)) = (KEnv, object_key env)" and "Name env \<noteq> []" and "indexed_cache A shares accesses"
  shows "share_SetupWithManager A M = Inr c \<Longrightarrow> users share_env shares env \<subseteq> set (requests owner c h ch)"
    and "access_SetupWithManager A M = Inr d \<Longrightarrow> users access_env accesses env \<subseteq> set (requests owner d h ch)"
proof -
  obtain e where e: "hd (versions ch) = EnvObj e" "object_key e = object_key env"
    using assms(1) by (cases "hd (versions ch)") auto
  have hd: "hd (versions ch) \<in> set (versions ch)" by (cases ch) auto
  have n: "Name e \<noteq> []" "users share_env shares e = users share_env shares env" "users access_env accesses e = users access_env accesses env"
    using e(2) assms(2) by (auto simp: object_key_def users_def)
  have kd: "fst (object_id (hd (versions ch))) = KEnv" using assms(1) by simp
  show "users share_env shares env \<subseteq> set (requests owner c h ch)" if "share_SetupWithManager A M = Inr c"
  proof -
    have "ctlWatches c = [(KEnv, of_env (mapEnvToShares A))]"
      using that by (auto simp: share_SetupWithManager_def complete_def split: option.splits)
    moreover have "users share_env shares env = set (fst (run_state (of_env (mapEnvToShares A) (hd (versions ch))) h))"
      using e(1) n(2) map_functions(1) [OF assms(3) n(1)] by (simp add: of_env_def)
    ultimately show ?thesis using hd kd by (auto simp: requests_def Let_def)
  qed
  show "users access_env accesses env \<subseteq> set (requests owner d h ch)" if "access_SetupWithManager A M = Inr d"
  proof -
    have "ctlWatches d = [(KEnv, of_env (mapEnvToAccesses A))]"
      using that by (auto simp: access_SetupWithManager_def complete_def split: option.splits)
    moreover have "users access_env accesses env = set (fst (run_state (of_env (mapEnvToAccesses A) (hd (versions ch))) h))"
      using e(1) n(3) map_functions(2) [OF assms(3) n(1)] by (simp add: of_env_def)
    ultimately show ?thesis using hd kd by (auto simp: requests_def Let_def)
  qed
qed

section \<open>Properties\<close>

text \<open>C11: An environment wakes those who wait for it: when reconciles of an environment - from any
  beginning of its progress - end with a report that differs from what its status said before,
  because it has become ready or is not ready any more or because its generation was not observed
  yet, then the calls they made ask the share controller to reconcile every share of its namespace
  that refers to it, and the access controller every access.\<close>

theorem environment_report_wakes_its_users:
  assumes "env_wanted A cfg w env secret" and "to_repair env env w \<le> n"
    and "share_SetupWithManager A M = Inr c" and "access_SetupWithManager A M = Inr d"
    and "indexed_cache A shares accesses" and "Name env \<noteq> []"
    and "h = trace_of (again n (env_Reconcile A cfg (object_key env)))"
    and "env_is_ready env \<noteq> agent_seen_up h \<or> enObservedGeneration (EnvStatus env) \<noteq> Generation env"
  shows "users share_env shares env \<subseteq> set (woken owner c [] w h)
     \<and> users access_env accesses env \<subseteq> set (woken owner d [] w h)"
proof
  let ?i = "(KEnv, object_key env)"
  have w: "w ?i = Some (EnvObj env)" using assms(1) by (simp add: env_wanted_def env_state_def)
  obtain e where e: "cluster_after w h ?i = Some (EnvObj e)" "env_is_ready e = agent_seen_up h"
      "enObservedGeneration (EnvStatus e) = Generation env"
    using environment_goes_up [OF assms(1,2)] unfolding assms(7) env_up_def Let_def by blast
  then have change: "fold effect h w ?i \<noteq> w ?i" using w assms(8) by (auto simp: cluster_after_def)
  have placed: "well_placed ?i w" using w by (simp add: well_placed_def)
  show "users share_env shares env \<subseteq> set (woken owner c [] w h)"
    using change_wakes [OF change placed] env_requests(1) [OF _ assms(6,5,3)] by blast
  show "users access_env accesses env \<subseteq> set (woken owner d [] w h)"
    using change_wakes [OF change placed] env_requests(2) [OF _ assms(6,5,4)] by blast
qed

definition lab_access_main :: ZrokAccess where
  "lab_access_main = ObjectMeta.extend (lab_meta ''prod'' ''db'')
     (ZrokAccess.fields \<lparr>acEnvironmentRef = ''main'', acShareToken = ''shr'', acBindAddress = []\<rparr>
        \<lparr>acObservedGeneration = 0, acFrontendEndpoint = [], acAccessToken = [], acConditions = []\<rparr>)"

definition lab_watched_world :: api where
  "lab_watched_world = lab_cluster_world
     \<lparr>apiListShares := (\<lambda>h sel. Inr (filter (indexed ShareObj sel) [lab_share ''prod'' ''web'' ''main'', lab_share ''dev'' ''web'' ''main''])),
      apiListAccesses := (\<lambda>h sel. Inr (filter (indexed AccessObj sel) [lab_access_main]))\<rparr>"

definition lab_manager :: manager where
  "lab_manager = \<lparr>mgIndexField = (\<lambda>kd f g. None), mgComplete = (\<lambda>c. None)\<rparr>"

definition lab_share_controller :: controller where
  "lab_share_controller = projr (share_SetupWithManager lab_watched_world lab_manager)"

definition lab_access_controller :: controller where
  "lab_access_controller = projr (access_SetupWithManager lab_watched_world lab_manager)"

lemma lab_watched_env: "env_wanted lab_watched_world lab_policy_config lab_cluster lab_new_env
    (lab_secret ''prod'' ''token'' [DefaultEnableTokenKey \<mapsto> ''t0''])"
  using lab_env_wanted
  by (simp add: env_wanted_def cluster_serves_def refs_accepted_def enable_answers_def lab_watched_world_def)

lemma environment_report_wakes_its_users_witness:
  "(''prod'', ''web'') \<in> set (woken (\<lambda>_. None) lab_share_controller [] lab_cluster
     (trace_of (again 2 (env_Reconcile lab_watched_world lab_policy_config (''prod'', ''main'')))))"
proof -
  let ?h = "trace_of (again 2 (env_Reconcile lab_watched_world lab_policy_config (object_key lab_new_env)))"
  let ?shares = "[lab_share ''prod'' ''web'' ''main'', lab_share ''dev'' ''web'' ''main'']"
  have "users share_env ?shares lab_new_env \<subseteq> set (woken (\<lambda>_. None) lab_share_controller [] lab_cluster ?h)
      \<and> users access_env [lab_access_main] lab_new_env \<subseteq> set (woken (\<lambda>_. None) lab_access_controller [] lab_cluster ?h)"
  proof (rule environment_report_wakes_its_users [OF lab_watched_env _ _ _ _ _ refl])
    show "to_repair lab_new_env lab_new_env lab_cluster \<le> 2" by (simp add: to_repair_def lab_cluster_def)
    show "share_SetupWithManager lab_watched_world lab_manager = Inr lab_share_controller"
      "access_SetupWithManager lab_watched_world lab_manager = Inr lab_access_controller"
      by (simp_all add: lab_share_controller_def lab_access_controller_def share_SetupWithManager_def
          access_SetupWithManager_def setupEnvironmentRefIndex_def complete_def lab_manager_def)
    show "indexed_cache lab_watched_world ?shares [lab_access_main]" by (simp add: indexed_cache_def lab_watched_world_def)
    show "Name lab_new_env \<noteq> []" by simp
    show "env_is_ready lab_new_env \<noteq> agent_seen_up ?h \<or> enObservedGeneration (EnvStatus lab_new_env) \<noteq> Generation lab_new_env"
      by (simp add: lab_new_env_def lab_env_def zero_env_def)
  qed
  moreover have "(''prod'', ''web'') \<in> users share_env ?shares lab_new_env"
    unfolding users_def image_iff
    by (rule bexI [of _ "lab_share ''prod'' ''web'' ''main''"])
       (simp_all add: share_env_def lab_share_def zero_share_def Let_def object_key_def)
  ultimately show ?thesis by auto
qed

section \<open>Rest\<close>

lemma still_calm: "still e \<Longrightarrow> written e = None \<and> deleted e = None"
  by (cases e rule: still.cases) auto

lemma woken_rest:
  assumes "list_all (\<lambda>e. still e \<or> e = StatusPatch x x (Inr x)) es" and "st (object_id x) = Some x"
  shows "woken owner c h st es = []"
  using assms(1)
proof (induction es arbitrary: h)
  case (Cons e es)
  have "changes st e = [] \<and> effect e st = st"
    using Cons.prems assms(2) still_calm [of e] by (auto simp: changes_def effect_def)
  then show ?case using Cons by simp
qed simp

text \<open>C13: A share that was reported comes to rest: the reconcile of a settled share whose status already
  reports it ready comes back after two minutes, changes nothing but for a status patch that
  sends what is stored, and so its calls ask no controller to reconcile anything.\<close>

theorem reported_share_wakes_nobody:
  assumes "share_settled A restrictUpstream share w"
    and "marked_ready (desiredShareMode share) (sdToken (swDetail w)) (sdFrontendEndpoint (swDetail w))
       (assigned_url share (sdToken (swDetail w)) (sdFrontendEndpoint (swDetail w))) share"
    and "st (KShare, object_key share) = Some (ShareObj share)"
  shows "result_of (Reconcile_live A restrictUpstream share) = (requeue_after 120, None)
     \<and> woken owner c [] st (trace_of (Reconcile_live A restrictUpstream share)) = []"
proof -
  obtain es where es: "run_state (Reconcile_live A restrictUpstream share) [] = ((requeue_after 120, None), es)"
      "list_all (\<lambda>e. still e \<or> ready_report share (sdToken (swDetail w)) (sdFrontendEndpoint (swDetail w)) e) es"
    using settled_live_share [OF assms(1), of "[]"] by (auto simp: announces_def)
  have "list_all (\<lambda>e. still e \<or> e = StatusPatch (ShareObj share) (ShareObj share) (Inr (ShareObj share))) es"
    using es(2) mark_ready_marked [OF assms(2)] by (auto simp: list_all_iff ready_report_def Let_def)
  from woken_rest [OF this] show ?thesis
    using es(1) assms(3) by (simp add: result_of_def trace_of_def)
qed

definition lab_reported_share :: ZrokShare where
  "lab_reported_share = snd (mark_ready_mutation ShareModePublic ''tok'' [] [] (\<lambda>n. 0) lab_served_share)"

definition lab_rest_setting :: share_setting where
  "lab_rest_setting = lab_share_setting\<lparr>swShares := [lab_reported_share]\<rparr>"

definition lab_rest_world :: api where
  "lab_rest_world = lab [lab_reported_share] [lab_ready_env] [swToken lab_share_setting] [] (swAgent lab_share_setting) []"

lemma mark_ready_keeps:
  assumes "x = snd (mark_ready_mutation mode tok eps url t s)"
  shows "Name x = Name s" "Namespace x = Namespace s" "ShareSpec x = ShareSpec s" "Labels x = Labels s"
    "Annotations x = Annotations s" "Finalizers x = Finalizers s" "shShareToken (ShareStatus x) = tok"
proof -
  obtain rv rsn msg where "mark_name mode s = (rv, rsn, msg)" by (cases "mark_name mode s") auto
  then show "Name x = Name s" "Namespace x = Namespace s" "ShareSpec x = ShareSpec s" "Labels x = Labels s"
    "Annotations x = Annotations s" "Finalizers x = Finalizers s" "shShareToken (ShareStatus x) = tok"
    using assms by (simp_all add: mark_ready_steps share_condition_def share_set_status_def)
qed

lemma lab_reported_fields [simp]:
  "Name lab_reported_share = ''web''" "Namespace lab_reported_share = ''prod''"
  "ShareSpec lab_reported_share = ShareSpec lab_served_share" "Finalizers lab_reported_share = {ShareFinalizer}"
  "Labels lab_reported_share = ShareLabels lab_reported_share" "shShareToken (ShareStatus lab_reported_share) = ''tok''"
  "Annotations lab_reported_share = [annotationAppliedDigest \<mapsto> shareApplyDigest lab_reported_share []]"
proof -
  note k = mark_ready_keeps [OF lab_reported_share_def]
  show "Name lab_reported_share = ''web''" "Namespace lab_reported_share = ''prod''"
    "ShareSpec lab_reported_share = ShareSpec lab_served_share" "Finalizers lab_reported_share = {ShareFinalizer}"
    "shShareToken (ShareStatus lab_reported_share) = ''tok''"
    using k by simp_all
  have "ShareLabels lab_reported_share = ShareLabels lab_served_share" by (simp only: ShareLabels_def k)
  then show "Labels lab_reported_share = ShareLabels lab_reported_share" using k by simp
  have "shareApplyDigest lab_reported_share [] = shareApplyDigest lab_served_share []"
    by (simp only: shareApplyDigest_def digestInput_def desiredShareMode_def desiredBackendMode_def
        nameNamespaceToken_def reservedFrontendName_def k)
  then show "Annotations lab_reported_share = [annotationAppliedDigest \<mapsto> shareApplyDigest lab_reported_share []]" using k by simp
qed

lemma lab_reported_reservation [simp]: "shReservation (ShareStatus lab_reported_share) = ReservationEphemeral"
  using mark_ready_marks [of ShareModePublic "''tok''" "[]" "[]" "\<lambda>n. 0" lab_served_share]
  unfolding lab_reported_share_def [symmetric] by (simp add: marked_ready_def mark_name_def Let_def)

lemma lab_share_rests: "share_settled lab_rest_world False lab_reported_share lab_rest_setting"
proof -
  have ref: "enEnableTokenSecretRef (EnvSpec lab_env) = \<lparr>skName = ''token'', skKey = []\<rparr>"
    by (simp add: lab_env_def zero_env_def)
  have world: "share_world lab_rest_world lab_reported_share lab_rest_setting"
    unfolding share_world_def serves_def accepts_status_def
    by (simp add: lab_rest_world_def lab_def lab_client_def object_key_def lab_rest_setting_def lab_share_setting_def ref)
  have served: "share_served lab_reported_share lab_rest_setting"
    by (simp add: share_served_def lab_rest_setting_def lab_share_setting_def classifyShare_def reservedFrontendName_def
        agentByToken_def agents_def List.map_filter_def remoteByToken_def remotes_def FindByToken_def
        agentShareMatchesSpec_iff agentTargetOK_iff lab_detail_def isAgentShareActive_def TargetsEqual_def
        otherShareWithFrontendName_def lookup_str_def Let_def)
  show ?thesis
    unfolding share_settled_def
    using world served
    by (simp add: ContainsFinalizer_def labels_settled_def share_spec_error_def desiredShareMode_def token_there_def
        lab_rest_setting_def lab_share_setting_def ref lookup_str_def)
qed

lemma reported_share_wakes_nobody_witness:
  "result_of (Reconcile_live lab_rest_world False lab_reported_share) = (requeue_after 120, None)
   \<and> woken (\<lambda>_. None) lab_share_controller [] [(KShare, (''prod'', ''web'')) \<mapsto> ShareObj lab_reported_share]
       (trace_of (Reconcile_live lab_rest_world False lab_reported_share)) = []"
proof -
  have tok: "sdToken (swDetail lab_rest_setting) = ''tok''" "sdFrontendEndpoint (swDetail lab_rest_setting) = []"
    by (simp_all add: lab_rest_setting_def lab_share_setting_def lab_detail_def)
  have mode: "desiredShareMode lab_reported_share = ShareModePublic" "assigned_url lab_reported_share ''tok'' [] = []"
    by (simp_all add: desiredShareMode_def assigned_url_def)
  have "marked_ready ShareModePublic ''tok'' [] [] lab_reported_share"
    unfolding lab_reported_share_def by (rule mark_ready_marks)
  then show ?thesis
    by (intro reported_share_wakes_nobody [OF lab_share_rests]) (simp_all add: tok mode object_key_def)
qed

end
