(* ===== verification/Spec2Isabelle.thy ===== *)
theory Spec2Isabelle
  imports ShareSafety ShareDelete AccessReconcile EnvRemote IngressReconcile Upstream RestClient
    AgentClient Command Metrics EnvLiveness StatusInvariant AgentWiring ShareDigest ShareLiveness
    EndpointPolicy CallBounds FrontendNames DeepCopy StatusLife AccessLiveness Watches ShareProgress
begin

text \<open>
  A verification development for zrok-operator, a Kubernetes operator in Go that runs zrok agents
  and keeps zrok shares and accesses in step with custom resources.

  \<^bold>\<open>The program.\<close> Four reconcilers (\<open>internal/controller\<close>) are called by controller-runtime with the
  key of an object. Each reads the object and what it refers to, talks to the zrok controller
  over REST (\<open>internal/zrokclient/client.go\<close>) and to an environment's agent over gRPC
  (\<open>agent_grpc.go\<close>), creates or changes Kubernetes objects (\<open>internal/agent\<close>), and reports in
  the status (\<open>internal/status\<close>), in events and in gauges (\<open>internal/metrics\<close>). A ZrokEnvironment
  stands for one enabled zrok environment with its agent; ZrokShares and ZrokAccesses refer to
  one; an Ingress of class \<open>zrok\<close> is turned into a ZrokShare. \<open>cmd/main.go\<close> wires them up.

  \<^bold>\<open>How it is modelled.\<close> An operation is a program of the state monad over the history of its
  calls (Prelude, World): every call to the outside is an \<open>event\<close> with its reply, and the reply
  is a function of the history, given by a record \<open>api\<close> of functions about which nothing is
  assumed. So a theorem about all \<open>api\<close>s holds for every behaviour of the API server, the zrok
  controller and the agents, including changes made by others between two calls. Errors are
  values of \<open>go_error\<close>; a Go panic is a value of \<open>crash\<close>. Objects are records, passed and
  returned where the code updates them through a pointer.

  \<^bold>\<open>Theories and code.\<close>
  \<^item> GoStrings, GoUrl, PlainUrls: the functions of \<open>strings\<close>, \<open>fmt\<close>, \<open>net/url\<close> and \<open>net\<close> that the code uses,
    on byte strings; Sha256: \<open>crypto/sha256\<close>.
  \<^item> ApiTypes: \<open>api/v1alpha1\<close>; Conditions: \<open>internal/status/conditions.go\<close>; World: the clients, the events,
    \<open>internal/status/patch.go\<close>; StatusPatching: what \<open>PatchStatus\<close> guarantees.
  \<^item> RemoteShares (\<open>zrokclient/share.go\<close>), ShareInventory (\<open>share_inventory.go\<close>), ShareApply (\<open>share_apply.go\<close>),
    Upstream (\<open>upstream.go\<close>), ShareReconcile (\<open>share_controller.go\<close>); AccessReconcile
    (\<open>access_controller.go\<close>); AgentResources (\<open>internal/agent\<close>) and EnvReconcile
    (\<open>environment_controller.go\<close>); IngressReconcile (\<open>ingress_controller.go\<close>).
  \<^item> Endpoint (\<open>zrokclient/endpoint.go\<close>), RestClient (\<open>zrokclient/client.go\<close>), AgentClient
    (\<open>zrokclient/agent_grpc.go\<close>), Clients (\<open>NewDefaultClients\<close>, \<open>PersistEnabledEnvironment\<close>), Metrics (\<open>internal/metrics\<close>, \<open>controller/indexes.go\<close>), Command
    (\<open>cmd/main.go\<close>, \<open>internal/build\<close>).
  \<^item> DeepCopy (\<open>api/v1alpha1/zz_generated.deepcopy.go\<close>): the one theory with pointers, on a heap of cells.
  Long handlers are cut at the points where the code reads or branches anew, one definition per
  part (\<open>Reconcile_env\<close>, \<open>Reconcile_inputs\<close>, ...), each calling the next as the code runs on.

  \<^bold>\<open>What the lemmas show.\<close>
  \<^item> ShareSafety, ShareDelete, EnvSafety, EnvRemote and AccessReconcile: guarantees about histories, in the
    form that every critical call - releasing, unsharing, enabling, giving a name back, dropping
    a finalizer, reporting \<open>Ready\<close> - is justified by an earlier reply of the same reconcile. Their proofs use
    the calculus of Prelude: \<open>emits\<close> and \<open>yields\<close> bound what a program adds to the history,
    \<open>gwp\<close> is a weakest precondition with a guard on every event.
  \<^item> StatusWrites: the ways in which a reconcile changes a status, as inductive step relations, and
    that every status patch of every reconciler sends the object it was called with after such steps.
    StatusInvariant: each patch keeps the invariant of the condition list, over the interface
    \<open>status_object\<close>, which shares, environments and accesses implement. StatusLife: what then holds of
    the stored objects for their whole life, when users edit them and several operator events, each
    started from an earlier read, patch them in any order, over the interface \<open>stored_object\<close>.
  \<^item> EnvLiveness, ShareLiveness: progress of settled environments and shares, and that a settled share
    is left alone. Store, Cluster: weakest preconditions over the actual replies of a world that stores
    what it is sent, for one object and for a cluster of objects that may be absent. ShareProgress,
    AccessLiveness, EnvAgent and EnvProgress: in such a world shares, accesses and environments get
    where they should, from any beginning and however often they are reconciled. Lab holds the
    concrete world of the witnesses.
  \<^item> Quiescence: every report in a status is stable. Watches: the \<open>SetupWithManager\<close> functions, which changes
    in the cluster wake which controller, that a new report on an environment wakes those who wait for
    it, and that the reconcile of a share that was reported wakes nobody.
  \<^item> CallBounds: every reconcile ends after a bounded number of calls. StatusPatching: the
    bound and the outcome of \<open>PatchStatus\<close>.
  \<^item> EndpointPolicy: reconcilers, REST client and endpoint policy together, over the interface
    \<open>controller_policy\<close>, which the wired world implements.
  \<^item> AgentWiring: the objects of an agent fit together and are hardened. ShareDigest: what the applied
    digest distinguishes. FrontendNames: names survive their round trip. Metrics: gauges and the
    index. Command: flags and start-up, and from the flags to the endpoints that are accepted.
  \<^item> DeepCopy: a deep copy shares no cell with its original, over the interface \<open>deep_copy\<close>, which the
    objects and lists of the API group implement; this is why objects may be values elsewhere.
  \<^item> This theory: Ingresses and \<open>--restrict-upstream\<close> together.

  \<^bold>\<open>Bounds.\<close> The only loop whose length the outside decides is the retry of \<open>PatchStatus\<close>; it recurses on
  \<open>retrySteps\<close>, the number of retries of \<open>retry.DefaultRetry\<close>, an argument of the model, and the theorems hold
  for every value. All other recursion is structural or by a measure, so no fuel is used.

  \<^bold>\<open>Relied upon, as documented.\<close> \<open>retry.RetryOnConflict\<close> retries on conflicts only;
  \<open>controllerutil.CreateOrUpdate\<close> reads, mutates, and creates or updates if something changed;
  \<open>http.Client\<close> asks \<open>CheckRedirect\<close> before each redirected request; a Kubernetes selector matches the
  labels that contain it; a merge patch of the status subresource sets the fields it holds and leaves
  the others, and the spec, as they are stored; controller-runtime turns a change of an object into
  requests as its builder was told, and a write that changes nothing is no change. The checks of \<open>SetControllerReference\<close> are a parameter.

  \<^bold>\<open>Not modelled.\<close> Generated mocks, tests and their utilities; logging; contexts and
  their cancellation; the transports under the REST
  and gRPC clients; what the library does in a step of the start-up.

  \<^bold>\<open>Left to do.\<close> Progress of an environment and of a share that waits for it in one run, with the calls of several
  reconcilers interleaved (StatusLife interleaves only what they write to a status; Watches joins the
  two by the requests of the first for the second).
\<close>

section \<open>Ingresses and upstreams\<close>

text \<open>C33: The upstream that an Ingress is translated to passes the check of
  \<open>--restrict-upstream\<close> for the Ingress's own namespace, provided that service and namespace
  have valid names and the port is not negative: restricting upstreams does not break Ingresses.\<close>

theorem ingress_upstream_is_accepted:
  assumes "isDNSLabel (svcName svc)" and "isDNSLabel ns" and "0 \<le> svcPortNumber svc"
  shows "validateShareUpstream (ingress_upstream ns svc) ns = None"
proof -
  let ?h = "svcName svc @ ''.'' @ ns @ ''.svc''"
  let ?p = "fmt_d (svcPortNumber svc)"
  have pl: "plain ?h" and ne: "?h \<noteq> []"
    using isDNSLabel_plain [OF assms(1)] isDNSLabel_plain [OF assms(2)] by (simp_all add: plain_char_def)
  note digits = fmt_d_is_digit [OF assms(3)]
  have "url_Parse (ingress_upstream ns svc) = Inr (plain_url ''http'' ?h ?p [])"
    using url_Parse_plain [OF pl ne, of ?p "[]" "''http''"] digits
    by (simp add: ingress_upstream_def port_suffix_def plain_path_def)
  moreover have "upstream_ok (plain_url ''http'' ?h ?p []) ns"
  proof -
    have "ToLower ?h = ?h" and "ToLower ns = ns"
      by (rule plain_ToLower [OF pl], rule plain_ToLower [OF isDNSLabel_plain [OF assms(2)]])
    moreover have "Hostname (plain_url ''http'' ?h ?p []) = ?h"
      using digits by (intro Hostname_plain(1) pl) simp
    moreover have "service_host (svcName svc) ns ?h" using assms(1) by (simp add: service_host_def)
    moreover have "ParseIP ?h = None" using ParseIP_svc [of "svcName svc @ ''.'' @ ns"] pl by simp
    ultimately show ?thesis unfolding upstream_ok_def by (auto simp: plain_url_def)
  qed
  ultimately show ?thesis unfolding validate_parsed by blast
qed

lemma ingress_upstream_is_accepted_witness:
  "validateShareUpstream (ingress_upstream ''web'' \<lparr>svcName = ''api'', svcPortNumber = 8080\<rparr>) ''web'' = None"
  by (rule ingress_upstream_is_accepted)
     (simp_all add: isDNSLabel_def dnsLabelRE_def lower_alnum_def is_digit_def)

end
